(* ===== verification/Py_Prelude.thy ===== *)
theory Py_Prelude
  imports Complex_Main "HOL-Library.Word" "HOL-Library.AList"
begin

unbundle bit_operations_syntax

text \<open>
  The base of the library: the Python values every component shares (strings, bytes, floats,
  dictionaries), exceptions as values, and the two ways the components are composed. A pure
  operation that may raise returns \<open>exn + 'a\<close> and is composed with \<open>bindR\<close>; an operation
  with effects is a \<open>prog\<close>, a function from a world to a result and the next world, composed
  with \<open>bindP\<close>, \<open>catchP\<close> and \<open>finallyP\<close>, which have the meaning of sequencing,
  \<^verbatim>\<open>try/except\<close> and \<^verbatim>\<open>try/finally\<close>.
\<close>

named_theorems res_simps
  \<open>composition of fallible results\<close>
named_theorems prog_simps
  \<open>composition of effectful programs\<close>
named_theorems dict_simps
  \<open>dictionaries as insertion-ordered association lists\<close>

section \<open>Strings, bytes, numbers\<close>

text \<open>
  A Python \<^verbatim>\<open>str\<close> is a sequence of code points, which reach beyond a byte, so it is a list of
  naturals; \<open>lit\<close> turns an ASCII literal into one. A float is the rational it denotes, or one
  of the three special values; seconds on the clocks are rationals. Rounding of float
  arithmetic is not modelled.
\<close>

type_synonym pystr = "nat list"
type_synonym byte = "8 word"
type_synonym bytes = "8 word list"
type_synonym time = rat

datatype pyfloat = Fin rat | PosInf | NegInf | NotANumber

definition lit :: "string \<Rightarrow> pystr" where
  "lit s = map of_char s"

lemma lit_eq_iff [simp]: "lit a = lit b \<longleftrightarrow> a = b"
  unfolding lit_def by (rule inj_map_eq_map) (auto intro!: injI)

lemma lit_Nil_iff [simp]: "lit a = [] \<longleftrightarrow> a = []" "[] = lit a \<longleftrightarrow> a = []"
  by (simp_all add: lit_def)

lemma length_lit [simp]: "length (lit a) = length a"
  by (simp add: lit_def)

lemma lit_append: "lit (a @ b) = lit a @ lit b"
  by (simp add: lit_def)

lemma lit_append_cancel [simp]: "lit a @ x = lit a @ y \<longleftrightarrow> x = y"
  by simp

lemma of_char_less_256: "(of_char c :: nat) < 256"
  using nat_of_char_less_256 .

lemma lit_code_points: "set (lit a) \<subseteq> {..<256}"
  by (auto simp: lit_def of_char_less_256)

section \<open>Exceptions\<close>

text \<open>
  The built-in exceptions the modelled code can meet. \<open>is_value_error\<close> is
  \<^verbatim>\<open>issubclass(_, ValueError)\<close>: JSON, base64 and Unicode errors are subclasses of it.
\<close>

datatype pyexc =
    ValueError | TypeError | KeyError | IndexError | AttributeError | OverflowError
  | ZeroDivisionError | EOFError | RuntimeError | UnicodeError | JSONDecodeError
  | BinasciiError | StructError | LookupError | OSError

fun is_value_error :: "pyexc \<Rightarrow> bool" where
  "is_value_error ValueError = True"
| "is_value_error UnicodeError = True"
| "is_value_error JSONDecodeError = True"
| "is_value_error BinasciiError = True"
| "is_value_error _ = False"

text \<open>
  An exception is one of the two classes of \<^verbatim>\<open>helper/errors.py\<close> or a built-in one with its
  message.
\<close>

datatype exn =
    HelperError pystr int pystr    \<comment> \<open>message, \<open>status_code\<close>, \<open>code\<close>\<close>
  | UpstreamError pystr int bool   \<comment> \<open>message, \<open>status_code\<close>, \<open>retryable\<close>\<close>
  | PyError pyexc pystr            \<comment> \<open>class and message\<close>

type_synonym 'a res = "exn + 'a"

section \<open>Values of \<^verbatim>\<open>json.loads\<close> and the runtime\<close>

text \<open>
  A value built by \<^verbatim>\<open>json.loads\<close>: a dictionary keeps its insertion order. These are also the
  dictionaries and lists the helper builds and hands to \<^verbatim>\<open>json.dumps\<close>.
\<close>

datatype json =
    JNull | JBool bool | JInt int | JFloat pyfloat | JStr pystr
  | JList "json list" | JDict "(pystr \<times> json) list"

text \<open>
  What the model takes from the Python runtime as given functions, about which it assumes
  nothing unless a theorem says so: binary64 conversion of a number literal and its shortest
  representation, \<^verbatim>\<open>repr\<close> of a container, the message of a built-in exception (a function of its
  class and of the text that provoked it), \<^verbatim>\<open>str.isalnum\<close> beyond ASCII, and the two digest
  functions of \<^verbatim>\<open>hashlib\<close>.
\<close>

record runtime =
  rt_float_of :: "pystr \<Rightarrow> pyfloat"
  rt_float_repr :: "pyfloat \<Rightarrow> pystr"
  rt_repr :: "json \<Rightarrow> pystr"
  rt_text :: "pyexc \<Rightarrow> pystr \<Rightarrow> pystr"
  rt_alnum :: "nat \<Rightarrow> bool"
  rt_sha256 :: "bytes \<Rightarrow> bytes"
  rt_sha3_512 :: "bytes \<Rightarrow> bytes"

text \<open>A built-in exception with the message the runtime gives it.\<close>

definition py_exn :: "runtime \<Rightarrow> pyexc \<Rightarrow> pystr \<Rightarrow> exn" where
  "py_exn rt k arg = PyError k (rt_text rt k arg)"

definition or_raise :: "runtime \<Rightarrow> pyexc \<Rightarrow> pystr \<Rightarrow> 'a option \<Rightarrow> 'a res" where
  "or_raise rt k arg x = (case x of None \<Rightarrow> Inl (py_exn rt k arg) | Some y \<Rightarrow> Inr y)"

text \<open>Truth value of a Python object of these types.\<close>

fun truthy :: "json \<Rightarrow> bool" where
  "truthy JNull = False"
| "truthy (JBool b) = b"
| "truthy (JInt i) = (i \<noteq> 0)"
| "truthy (JFloat f) = (f \<noteq> Fin 0)"
| "truthy (JStr s) = (s \<noteq> [])"
| "truthy (JList xs) = (xs \<noteq> [])"
| "truthy (JDict d) = (d \<noteq> [])"

text \<open>\<^verbatim>\<open>d.get(k)\<close>, with \<^verbatim>\<open>None\<close> for a missing key, and \<^verbatim>\<open>a or b\<close>.\<close>

definition dict_get :: "pystr \<Rightarrow> (pystr \<times> json) list \<Rightarrow> json" where
  "dict_get k d = (case map_of d k of None \<Rightarrow> JNull | Some v \<Rightarrow> v)"

definition py_or :: "json \<Rightarrow> json \<Rightarrow> json" where
  "py_or a b = (if truthy a then a else b)"

section \<open>Fallible results\<close>

definition bindR :: "'e + 'a \<Rightarrow> ('a \<Rightarrow> 'e + 'b) \<Rightarrow> 'e + 'b" where
  "bindR m f = (case m of Inl e \<Rightarrow> Inl e | Inr x \<Rightarrow> f x)"

lemma bindR_simps [simp]:
  "bindR (Inl e) f = Inl e" "bindR (Inr x) f = f x"
  by (simp_all add: bindR_def)

lemma bindR_eq_Inr [res_simps]: "bindR m f = Inr y \<longleftrightarrow> (\<exists>x. m = Inr x \<and> f x = Inr y)"
  by (cases m) auto

lemma bindR_eq_Inl [res_simps]:
  "bindR m f = Inl e \<longleftrightarrow> m = Inl e \<or> (\<exists>x. m = Inr x \<and> f x = Inl e)"
  by (cases m) auto

lemma or_raise_simps [simp]:
  "or_raise rt k a None = Inl (py_exn rt k a)" "or_raise rt k a (Some x) = Inr x"
  by (simp_all add: or_raise_def)

lemma or_raise_eq_Inr [res_simps]: "or_raise rt k a x = Inr y \<longleftrightarrow> x = Some y"
  by (cases x) auto

lemma bindR_cong [fundef_cong]:
  "m = m' \<Longrightarrow> (\<And>x. m' = Inr x \<Longrightarrow> f x = g x) \<Longrightarrow> bindR m f = bindR m' g"
  by (cases m') auto

lemma bindR_assoc: "bindR (bindR m f) g = bindR m (\<lambda>x. bindR (f x) g)"
  by (cases m) auto

fun mapR :: "('a \<Rightarrow> 'e + 'b) \<Rightarrow> 'a list \<Rightarrow> 'e + 'b list" where
  "mapR f [] = Inr []"
| "mapR f (x # xs) = bindR (f x) (\<lambda>y. bindR (mapR f xs) (\<lambda>ys. Inr (y # ys)))"

lemma mapR_Inr_length: "mapR f xs = Inr ys \<Longrightarrow> length ys = length xs"
  by (induction xs arbitrary: ys) (auto simp: res_simps)

lemma mapR_Inr_length': "Inr ys = mapR f xs \<Longrightarrow> length ys = length xs"
  using mapR_Inr_length by metis

lemma mapR_Inl: "mapR f xs = Inl e \<Longrightarrow> \<exists>x \<in> set xs. f x = Inl e"
  by (induction xs) (auto simp: res_simps)

lemma mapR_total: "(\<And>x. x \<in> set xs \<Longrightarrow> f x = Inr (g x)) \<Longrightarrow> mapR f xs = Inr (map g xs)"
  by (induction xs) auto

section \<open>Effectful programs\<close>

type_synonym ('w, 'a) prog = "'w \<Rightarrow> 'a res \<times> 'w"

definition retP :: "'a \<Rightarrow> ('w, 'a) prog" where
  "retP x = (\<lambda>w. (Inr x, w))"

definition throwP :: "exn \<Rightarrow> ('w, 'a) prog" where
  "throwP e = (\<lambda>w. (Inl e, w))"

definition liftP :: "'a res \<Rightarrow> ('w, 'a) prog" where
  "liftP r = (\<lambda>w. (r, w))"

definition getP :: "('w \<Rightarrow> 'a) \<Rightarrow> ('w, 'a) prog" where
  "getP f = (\<lambda>w. (Inr (f w), w))"

definition modifyP :: "('w \<Rightarrow> 'w) \<Rightarrow> ('w, unit) prog" where
  "modifyP f = (\<lambda>w. (Inr (), f w))"

definition bindP :: "('w, 'a) prog \<Rightarrow> ('a \<Rightarrow> ('w, 'b) prog) \<Rightarrow> ('w, 'b) prog" where
  "bindP m f = (\<lambda>w. case m w of (Inl e, w') \<Rightarrow> (Inl e, w') | (Inr x, w') \<Rightarrow> f x w')"

text \<open>\<^verbatim>\<open>try: m except ...: h\<close>; the handler gets every exception and re-raises what it does not catch.\<close>

definition catchP :: "('w, 'a) prog \<Rightarrow> (exn \<Rightarrow> ('w, 'a) prog) \<Rightarrow> ('w, 'a) prog" where
  "catchP m h = (\<lambda>w. case m w of (Inl e, w') \<Rightarrow> h e w' | (Inr x, w') \<Rightarrow> (Inr x, w'))"

text \<open>\<^verbatim>\<open>try: m finally: f\<close>; an exception of the \<^verbatim>\<open>finally\<close> block replaces the outcome of \<open>m\<close>.\<close>

definition finallyP :: "('w, 'a) prog \<Rightarrow> ('w, unit) prog \<Rightarrow> ('w, 'a) prog" where
  "finallyP m f = (\<lambda>w. case m w of (r, w') \<Rightarrow>
     (case f w' of (Inl e, w'') \<Rightarrow> (Inl e, w'') | (Inr _, w'') \<Rightarrow> (r, w'')))"

fun mapP :: "('a \<Rightarrow> ('w, 'b) prog) \<Rightarrow> 'a list \<Rightarrow> ('w, 'b list) prog" where
  "mapP f [] = retP []"
| "mapP f (x # xs) = bindP (f x) (\<lambda>y. bindP (mapP f xs) (\<lambda>ys. retP (y # ys)))"

lemma retP_apply [simp, prog_simps]: "retP x w = (Inr x, w)"
  by (simp add: retP_def)

lemma throwP_apply [simp, prog_simps]: "throwP e w = (Inl e, w)"
  by (simp add: throwP_def)

lemma liftP_apply [simp, prog_simps]: "liftP r w = (r, w)"
  by (simp add: liftP_def)

lemma getP_apply [simp, prog_simps]: "getP f w = (Inr (f w), w)"
  by (simp add: getP_def)

lemma modifyP_apply [simp, prog_simps]: "modifyP f w = (Inr (), f w)"
  by (simp add: modifyP_def)

lemma bindP_apply [prog_simps]:
  "bindP m f w = (case m w of (Inl e, w') \<Rightarrow> (Inl e, w') | (Inr x, w') \<Rightarrow> f x w')"
  by (simp add: bindP_def)

lemma bindP_eq_Inr:
  "bindP m f w = (Inr y, w'') \<longleftrightarrow> (\<exists>x w'. m w = (Inr x, w') \<and> f x w' = (Inr y, w''))"
  by (auto simp: bindP_def split: prod.splits sum.splits)

lemma bindP_eq_Inl:
  "bindP m f w = (Inl e, w'') \<longleftrightarrow>
     m w = (Inl e, w'') \<or> (\<exists>x w'. m w = (Inr x, w') \<and> f x w' = (Inl e, w''))"
  by (auto simp: bindP_def split: prod.splits sum.splits)

lemma catchP_apply [prog_simps]:
  "catchP m h w = (case m w of (Inl e, w') \<Rightarrow> h e w' | (Inr x, w') \<Rightarrow> (Inr x, w'))"
  by (simp add: catchP_def)

lemma finallyP_apply [prog_simps]:
  "finallyP m f w = (case m w of (r, w') \<Rightarrow>
     (case f w' of (Inl e, w'') \<Rightarrow> (Inl e, w'') | (Inr _, w'') \<Rightarrow> (r, w'')))"
  by (simp add: finallyP_def)

text \<open>
  \<open>stable P m\<close>: whatever the outcome, \<open>m\<close> keeps the property \<open>P\<close> of the world. The rules lift
  it through composition, so an invariant of a long program needs a proof for its primitive
  steps only.
\<close>

definition stable :: "('w \<Rightarrow> bool) \<Rightarrow> ('w, 'a) prog \<Rightarrow> bool" where
  "stable P m \<longleftrightarrow> (\<forall>w. P w \<longrightarrow> P (snd (m w)))"

named_theorems stable_intros
  \<open>programs that keep a property of the world\<close>

lemma stableD: "stable P m \<Longrightarrow> m w = (r, w') \<Longrightarrow> P w \<Longrightarrow> P w'"
  by (metis snd_conv stable_def)

lemma stable_pure [stable_intros]:
  "stable P (retP x)" "stable P (throwP e)" "stable P (liftP r)" "stable P (getP g)"
  by (simp_all add: stable_def)

lemma stable_modifyP: "(\<And>w. P w \<Longrightarrow> P (f w)) \<Longrightarrow> stable P (modifyP f)"
  by (simp add: stable_def)

lemma stable_bindP [stable_intros]:
  "stable P m \<Longrightarrow> (\<And>x. stable P (f x)) \<Longrightarrow> stable P (bindP m f)"
  unfolding stable_def bindP_def by (auto split: prod.splits sum.splits)

lemma stable_catchP [stable_intros]:
  "stable P m \<Longrightarrow> (\<And>e. stable P (h e)) \<Longrightarrow> stable P (catchP m h)"
  unfolding stable_def catchP_def by (auto split: prod.splits sum.splits)

lemma stable_finallyP [stable_intros]:
  "stable P m \<Longrightarrow> stable P f \<Longrightarrow> stable P (finallyP m f)"
  unfolding stable_def finallyP_def by (auto split: prod.splits sum.splits)

lemma stable_mapP [stable_intros]: "(\<And>x. stable P (f x)) \<Longrightarrow> stable P (mapP f xs)"
  by (induction xs) (auto intro!: stable_intros)

lemma stable_if [stable_intros]:
  "(b \<Longrightarrow> stable P m) \<Longrightarrow> (\<not> b \<Longrightarrow> stable P m') \<Longrightarrow> stable P (if b then m else m')"
  by simp

section \<open>Dictionaries\<close>

text \<open>
  A \<^verbatim>\<open>dict\<close> with its insertion order is an association list with distinct keys:
  \<open>map_of d k\<close> is \<^verbatim>\<open>d.get(k)\<close> and \<open>AList.update k v d\<close> is \<^verbatim>\<open>d[k] = v\<close>, which keeps the
  position of a key that is present and appends a new one.
\<close>

lemma map_of_update [simp, dict_simps]: "map_of (AList.update k v d) = (map_of d)(k \<mapsto> v)"
  by (simp add: update_conv')

lemma update_fst [dict_simps]:
  "map fst (AList.update k v d) = (if k \<in> set (map fst d) then map fst d else map fst d @ [k])"
  by (simp add: update_keys)

text \<open>\<^verbatim>\<open>d.setdefault(k, []).append(x)\<close> on a dictionary of lists.\<close>

definition append_at :: "'k \<Rightarrow> 'v \<Rightarrow> ('k \<times> 'v list) list \<Rightarrow> ('k \<times> 'v list) list" where
  "append_at k x d = AList.update k ((case map_of d k of None \<Rightarrow> [] | Some xs \<Rightarrow> xs) @ [x]) d"

lemma map_of_append_at [dict_simps]:
  "map_of (append_at k x d) =
     (map_of d)(k \<mapsto> (case map_of d k of None \<Rightarrow> [] | Some xs \<Rightarrow> xs) @ [x])"
  by (simp add: append_at_def)

section \<open>Distinct accumulation\<close>

lemma distinct_snocI: "distinct xs \<Longrightarrow> x \<notin> set xs \<Longrightarrow> distinct (xs @ [x])"
  by simp

lemma filter_neq_length: "x \<in> set xs \<Longrightarrow> length (filter (\<lambda>y. y \<noteq> x) xs) < length xs"
  by (metis (mono_tags, lifting) length_filter_less)

section \<open>A runtime for examples\<close>

definition example_runtime :: runtime where
  "example_runtime = \<lparr>rt_float_of = (\<lambda>_. Fin (1 / 2)), rt_float_repr = (\<lambda>_. lit ''0.5''),
     rt_repr = (\<lambda>_. lit ''<value>''), rt_text = (\<lambda>k s. lit ''error''), rt_alnum = (\<lambda>c. 0x4E00 \<le> c),
     rt_sha256 = (\<lambda>bs. take 32 (bs @ replicate 32 0)), rt_sha3_512 = (\<lambda>bs. take 64 (bs @ replicate 64 0))\<rparr>"

end
