(* ===== verification/Py_Text.thy ===== *)
theory Py_Text
  imports Py_Prelude "HOL-Library.Sublist"
begin

text \<open>
  The \<^verbatim>\<open>str\<close> methods the helper uses, on code points: case folding as far as comparisons with
  ASCII text can see it, stripping of Unicode white space, searching and splitting, and the
  decimal conversions \<^verbatim>\<open>str(int)\<close> and \<^verbatim>\<open>int(str)\<close>.
\<close>

named_theorems text_simps
  \<open>string methods\<close>

section \<open>White space and case\<close>

text \<open>The code points for which \<^verbatim>\<open>str.isspace\<close> holds.\<close>

definition is_space :: "nat \<Rightarrow> bool" where
  "is_space c \<longleftrightarrow> 9 \<le> c \<and> c \<le> 13 \<or> 28 \<le> c \<and> c \<le> 32 \<or> c = 0x85 \<or> c = 0xA0 \<or> c = 0x1680 \<or>
     0x2000 \<le> c \<and> c \<le> 0x200A \<or> c = 0x2028 \<or> c = 0x2029 \<or> c = 0x202F \<or> c = 0x205F \<or> c = 0x3000"

text \<open>
  \<^verbatim>\<open>str.lower\<close> on one code point. Two code points beyond ASCII have a lower case with an ASCII
  letter in it (U+0130 and U+212A); every other one stays beyond ASCII, where the code, which
  compares with ASCII text only, cannot see which one it is, so it is left as it is.
\<close>

definition lower_cp :: "nat \<Rightarrow> nat list" where
  "lower_cp c = (if 65 \<le> c \<and> c \<le> 90 then [c + 32]
     else if c = 0x130 then [0x69, 0x307] else if c = 0x212A then [0x6B] else [c])"

definition py_lower :: "pystr \<Rightarrow> pystr" where
  "py_lower s = concat (map lower_cp s)"

definition py_lstrip :: "pystr \<Rightarrow> pystr" where
  "py_lstrip s = dropWhile is_space s"

definition py_rstrip_if :: "(nat \<Rightarrow> bool) \<Rightarrow> pystr \<Rightarrow> pystr" where
  "py_rstrip_if P s = rev (dropWhile P (rev s))"

definition py_strip :: "pystr \<Rightarrow> pystr" where
  "py_strip s = py_rstrip_if is_space (py_lstrip s)"

lemma py_lower_append [text_simps]: "py_lower (a @ b) = py_lower a @ py_lower b"
  by (simp add: py_lower_def)

lemma py_rstrip_if_Nil_iff: "py_rstrip_if P s = [] \<longleftrightarrow> (\<forall>c \<in> set s. P c)"
  by (simp add: py_rstrip_if_def dropWhile_eq_Nil_conv)

lemma py_strip_Nil_iff [text_simps]: "py_strip s = [] \<longleftrightarrow> (\<forall>c \<in> set s. is_space c)"
  by (auto simp: py_strip_def py_lstrip_def py_rstrip_if_Nil_iff dest: set_dropWhileD)
    (metis dropWhile_eq_Nil_conv hd_dropWhile hd_in_set)

lemma py_rstrip_if_prefix: "\<exists>t. s = py_rstrip_if P s @ t \<and> (\<forall>c \<in> set t. P c)"
proof -
  have "rev s = takeWhile P (rev s) @ dropWhile P (rev s)" by simp
  then have "s = rev (dropWhile P (rev s)) @ rev (takeWhile P (rev s))"
    by (metis rev_append rev_rev_ident)
  then show ?thesis
    unfolding py_rstrip_if_def by (metis set_rev set_takeWhileD)
qed

section \<open>Searching and splitting\<close>

definition starts_with :: "pystr \<Rightarrow> pystr \<Rightarrow> bool" where
  "starts_with p s \<longleftrightarrow> take (length p) s = p"

lemma starts_with_iff [text_simps]: "starts_with p s \<longleftrightarrow> (\<exists>t. s = p @ t)"
  unfolding starts_with_def by (metis append_eq_conv_conj append_take_drop_id)

lemma starts_with_append [simp]: "starts_with p (p @ t)"
  by (auto simp: text_simps)

text \<open>\<^verbatim>\<open>p in s\<close>.\<close>

fun has_substring :: "pystr \<Rightarrow> pystr \<Rightarrow> bool" where
  "has_substring p [] \<longleftrightarrow> p = []"
| "has_substring p (c # s) \<longleftrightarrow> starts_with p (c # s) \<or> has_substring p s"

lemma has_substring_iff [text_simps]: "has_substring p s \<longleftrightarrow> (\<exists>a b. s = a @ p @ b)"
proof (induction s)
  case Nil
  then show ?case by auto
next
  case (Cons c s)
  show ?case
  proof
    assume "has_substring p (c # s)"
    then consider t where "c # s = p @ t" | a b where "s = a @ p @ b"
      using Cons by (auto simp: text_simps)
    then show "\<exists>a b. c # s = a @ p @ b"
      by cases (metis append_Nil, metis append_Cons)
  next
    assume "\<exists>a b. c # s = a @ p @ b"
    then obtain a b where ab: "c # s = a @ p @ b" by blast
    show "has_substring p (c # s)"
    proof (cases a)
      case Nil
      with ab have "starts_with p (c # s)" by (simp add: text_simps)
      then show ?thesis by simp
    next
      case (Cons d a')
      with ab have "s = a' @ p @ b" by simp
      with Cons.IH show ?thesis by auto
    qed
  qed
qed

text \<open>\<^verbatim>\<open>s.partition(sep)\<close> for a one-character separator: before, whether it is there, after.\<close>

definition py_partition :: "nat \<Rightarrow> pystr \<Rightarrow> pystr \<times> bool \<times> pystr" where
  "py_partition sep s = (takeWhile (\<lambda>c. c \<noteq> sep) s, sep \<in> set s, tl (dropWhile (\<lambda>c. c \<noteq> sep) s))"

text \<open>\<^verbatim>\<open>s.split(sep, 1)\<close> and \<^verbatim>\<open>s.split(sep)\<close> for a one-character separator.\<close>

definition split_once :: "nat \<Rightarrow> pystr \<Rightarrow> pystr list" where
  "split_once sep s = (case py_partition sep s of (a, found, b) \<Rightarrow> if found then [a, b] else [s])"

fun split_on :: "nat \<Rightarrow> pystr \<Rightarrow> pystr list" where
  "split_on sep [] = [[]]"
| "split_on sep (c # s) =
     (if c = sep then [] # split_on sep s
      else (case split_on sep s of [] \<Rightarrow> [[c]] | p # ps \<Rightarrow> (c # p) # ps))"

lemma split_once_absent [text_simps]: "sep \<notin> set s \<Longrightarrow> split_once sep s = [s]"
  by (simp add: split_once_def py_partition_def)

lemma split_once_at [text_simps]: "sep \<notin> set a \<Longrightarrow> split_once sep (a @ sep # b) = [a, b]"
proof -
  assume "sep \<notin> set a"
  then have "\<forall>c \<in> set a. c \<noteq> sep" by auto
  then show ?thesis
    by (simp add: split_once_def py_partition_def takeWhile_append dropWhile_append)
qed

lemma split_once_neq_Nil [simp]: "split_once sep s \<noteq> []"
  by (simp add: split_once_def py_partition_def)

lemma split_on_at [text_simps]: "sep \<notin> set a \<Longrightarrow> split_on sep (a @ sep # b) = a # split_on sep b"
  by (induction a) auto

lemma split_on_neq_Nil [simp]: "split_on sep s \<noteq> []"
  by (induction s) (auto split: list.splits)

text \<open>\<^verbatim>\<open>sep.join(xs)\<close>.\<close>

fun py_join :: "pystr \<Rightarrow> pystr list \<Rightarrow> pystr" where
  "py_join sep [] = []"
| "py_join sep [x] = x"
| "py_join sep (x # y # xs) = x @ sep @ py_join sep (y # xs)"

lemma py_join_split_on: "py_join [sep] (split_on sep s) = s"
proof (induction s)
  case Nil
  then show ?case by simp
next
  case (Cons c s)
  obtain p ps where s: "split_on sep s = p # ps"
    by (meson list.exhaust split_on_neq_Nil)
  with Cons show ?case by (cases ps) auto
qed

section \<open>Decimal numbers\<close>

fun show_nat :: "nat \<Rightarrow> pystr" where
  "show_nat n = (if n < 10 then [48 + n] else show_nat (n div 10) @ [48 + n mod 10])"

declare show_nat.simps [simp del]

definition show_int :: "int \<Rightarrow> pystr" where
  "show_int i = (if i < 0 then 45 # show_nat (nat (- i)) else show_nat (nat i))"

definition is_digit :: "nat \<Rightarrow> bool" where
  "is_digit c \<longleftrightarrow> 48 \<le> c \<and> c \<le> 57"

fun read_nat :: "nat \<Rightarrow> pystr \<Rightarrow> nat" where
  "read_nat acc [] = acc"
| "read_nat acc (c # s) = read_nat (10 * acc + (c - 48)) s"

lemma read_nat_append: "read_nat acc (a @ b) = read_nat (read_nat acc a) b"
  by (induction a arbitrary: acc) auto

lemma show_nat_neq_Nil [simp]: "show_nat n \<noteq> []"
  by (subst show_nat.simps) simp

lemma show_nat_digits: "\<forall>c \<in> set (show_nat n). is_digit c"
proof (induction n rule: show_nat.induct)
  case (1 n)
  then show ?case by (subst show_nat.simps) (auto simp: is_digit_def)
qed

lemma read_nat_show_nat: "read_nat 0 (show_nat n) = n"
proof (induction n rule: show_nat.induct)
  case (1 n)
  then show ?case by (subst show_nat.simps) (auto simp: read_nat_append)
qed

text \<open>No leading zero: the first digit is 0 for 0 alone.\<close>

lemma show_nat_hd: "n \<noteq> 0 \<Longrightarrow> hd (show_nat n) \<noteq> 48"
proof (induction n rule: show_nat.induct)
  case (1 n)
  then show ?case
    by (subst show_nat.simps) (auto simp: hd_append)
qed

lemma show_nat_0 [simp]: "show_nat 0 = [48]"
  by (subst show_nat.simps) simp

text \<open>
  \<^verbatim>\<open>int(text)\<close>. Every decimal digit of Unicode counts (\<open>digit_zeros\<close> lists the code points of
  the zeros of the digit blocks), single underscores may stand between digits, white space
  around the number is skipped, and more than 4300 digits are refused.
\<close>

definition digit_zeros :: "nat list" where
  "digit_zeros = [0x30, 0x660, 0x6F0, 0x7C0, 0x966, 0x9E6, 0xA66, 0xAE6, 0xB66, 0xBE6, 0xC66,
     0xCE6, 0xD66, 0xDE6, 0xE50, 0xED0, 0xF20, 0x1040, 0x1090, 0x17E0, 0x1810, 0x1946, 0x19D0,
     0x1A80, 0x1A90, 0x1B50, 0x1BB0, 0x1C40, 0x1C50, 0xA620, 0xA8D0, 0xA900, 0xA9D0, 0xA9F0,
     0xAA50, 0xABF0, 0xFF10, 0x104A0, 0x10D30, 0x11066, 0x110F0, 0x11136, 0x111D0, 0x112F0,
     0x11450, 0x114D0, 0x11650, 0x116C0, 0x11730, 0x118E0, 0x11950, 0x11C50, 0x11D50, 0x11DA0,
     0x11F50, 0x16A60, 0x16AC0, 0x16B50, 0x1D7CE, 0x1D7D8, 0x1D7E2, 0x1D7EC, 0x1D7F6, 0x1E140,
     0x1E2F0, 0x1E4F0, 0x1E950, 0x1FBF0]"

definition digit_value :: "nat \<Rightarrow> nat option" where
  "digit_value c = map_option (\<lambda>z. c - z) (List.find (\<lambda>z. z \<le> c \<and> c \<le> z + 9) digit_zeros)"

definition int_space :: "nat \<Rightarrow> bool" where
  "int_space c \<longleftrightarrow> is_space c \<and> \<not> (28 \<le> c \<and> c \<le> 31)"

text \<open>Digits with single underscores between them: the digits, or \<open>None\<close> when malformed.\<close>

fun digits_of :: "pystr \<Rightarrow> nat list option" where
  "digits_of [] = None"
| "digits_of (c # s) =
     (case digit_value c of None \<Rightarrow> None | Some d \<Rightarrow>
       (case s of [] \<Rightarrow> Some [d]
        | c' # s' \<Rightarrow> map_option (Cons d) (digits_of (if c' = 95 then s' else s))))"

definition int_of_str :: "pystr \<Rightarrow> int option" where
  "int_of_str s =
     (let t = py_rstrip_if int_space (dropWhile int_space s);
          (neg, u) = (case t of [] \<Rightarrow> (False, []) | c # r \<Rightarrow>
            if c = 45 then (True, r) else if c = 43 then (False, r) else (False, t))
      in (case digits_of u of None \<Rightarrow> None
          | Some ds \<Rightarrow> if 4300 < length ds then None
              else (let v = int (foldl (\<lambda>a d. 10 * a + d) 0 ds) in Some (if neg then - v else v))))"

end
