(* ===== verification/Py_Codec.thy ===== *)
theory Py_Codec
  imports Py_Text
begin

text \<open>
  The byte codecs of the standard library as the helper uses them: UTF-8 with the strict,
  replacing and surrogate-passing error handlers, base64 with the lenient decoder of
  \<^verbatim>\<open>binascii\<close>, and the big-endian 32-bit length of \<^verbatim>\<open>struct\<close>. Each encoder has its decoder as
  a left inverse.
\<close>

section \<open>UTF-8\<close>

definition is_surrogate :: "nat \<Rightarrow> bool" where
  "is_surrogate c \<longleftrightarrow> 0xD800 \<le> c \<and> c \<le> 0xDFFF"

definition is_scalar :: "nat \<Rightarrow> bool" where
  "is_scalar c \<longleftrightarrow> c < 0x110000 \<and> \<not> is_surrogate c"

definition utf8_cp :: "nat \<Rightarrow> nat list" where
  "utf8_cp c =
     (if c < 0x80 then [c]
      else if c < 0x800 then [0xC0 + c div 64, 0x80 + c mod 64]
      else if c < 0x10000 then [0xE0 + c div 4096, 0x80 + c div 64 mod 64, 0x80 + c mod 64]
      else [0xF0 + c div 262144, 0x80 + c div 4096 mod 64, 0x80 + c div 64 mod 64, 0x80 + c mod 64])"

definition to_bytes :: "nat list \<Rightarrow> bytes" where
  "to_bytes ns = map of_nat ns"

definition of_bytes :: "bytes \<Rightarrow> nat list" where
  "of_bytes bs = map unat bs"

lemma unat_byte_less: "unat (b :: byte) < 256"
  using unsigned_less [of b] by simp

lemma of_bytes_to_bytes: "\<forall>n \<in> set ns. n < 256 \<Longrightarrow> of_bytes (to_bytes ns) = ns"
  unfolding of_bytes_def to_bytes_def
  by (induction ns) (auto simp: unsigned_of_nat take_bit_eq_mod)

lemma to_bytes_of_bytes [simp]: "to_bytes (of_bytes bs) = bs"
  by (induction bs) (auto simp: of_bytes_def to_bytes_def)

lemma of_bytes_less: "n \<in> set (of_bytes bs) \<Longrightarrow> n < 256"
  by (auto simp: of_bytes_def) (metis unat_byte_less)

lemma length_to_bytes [simp]: "length (to_bytes ns) = length ns"
  by (simp add: to_bytes_def)

lemma length_of_bytes [simp]: "length (of_bytes bs) = length bs"
  by (simp add: of_bytes_def)

text \<open>\<^verbatim>\<open>s.encode()\<close>: a lone surrogate cannot be encoded.\<close>

definition utf8_encode :: "pystr \<Rightarrow> bytes option" where
  "utf8_encode s = (if list_all is_scalar s then Some (to_bytes (concat (map utf8_cp s))) else None)"

definition is_cont :: "nat \<Rightarrow> bool" where
  "is_cont b \<longleftrightarrow> 0x80 \<le> b \<and> b \<le> 0xBF"

text \<open>
  One step of the decoder on a non-empty input: a code point and the rest, or \<open>None\<close> and the
  rest after the longest prefix that could have started one. With \<open>sp\<close> (the handler
  \<^verbatim>\<open>surrogatepass\<close>) an encoded surrogate is accepted.
\<close>

definition second_ok :: "bool \<Rightarrow> nat \<Rightarrow> nat \<Rightarrow> bool" where
  "second_ok sp b0 b1 \<longleftrightarrow> is_cont b1 \<and> (b0 = 0xE0 \<longrightarrow> 0xA0 \<le> b1) \<and>
     (b0 = 0xED \<and> \<not> sp \<longrightarrow> b1 \<le> 0x9F) \<and> (b0 = 0xF0 \<longrightarrow> 0x90 \<le> b1) \<and> (b0 = 0xF4 \<longrightarrow> b1 \<le> 0x8F)"

fun utf8_step :: "bool \<Rightarrow> nat \<Rightarrow> nat list \<Rightarrow> nat option \<times> nat list" where
  "utf8_step sp b0 bs =
     (if b0 < 0x80 then (Some b0, bs)
      else if b0 < 0xC2 \<or> 0xF4 < b0 then (None, bs)
      else (case bs of [] \<Rightarrow> (None, []) | b1 # r1 \<Rightarrow>
        if \<not> second_ok sp b0 b1 then (None, bs)
        else if b0 < 0xE0 then (Some ((b0 - 0xC0) * 64 + (b1 - 0x80)), r1)
        else (case r1 of [] \<Rightarrow> (None, []) | b2 # r2 \<Rightarrow>
          if \<not> is_cont b2 then (None, r1)
          else if b0 < 0xF0 then (Some ((b0 - 0xE0) * 4096 + (b1 - 0x80) * 64 + (b2 - 0x80)), r2)
          else (case r2 of [] \<Rightarrow> (None, []) | b3 # r3 \<Rightarrow>
            if \<not> is_cont b3 then (None, r2)
            else (Some ((b0 - 0xF0) * 262144 + (b1 - 0x80) * 4096 + (b2 - 0x80) * 64 + (b3 - 0x80)), r3)))))"

declare utf8_step.simps [simp del]

lemma utf8_step_length: "length (snd (utf8_step sp b bs)) \<le> length bs"
  by (auto simp: utf8_step.simps split: list.splits)

text \<open>The decoded items, \<open>None\<close> at each malformed sequence.\<close>

function utf8_items :: "bool \<Rightarrow> nat list \<Rightarrow> nat option list" where
  "utf8_items sp [] = []"
| "utf8_items sp (b # bs) = fst (utf8_step sp b bs) # utf8_items sp (snd (utf8_step sp b bs))"
  by pat_completeness auto
termination
  by (relation "measure (\<lambda>(sp, bs). length bs)") (auto simp: le_imp_less_Suc utf8_step_length)

definition all_some :: "'a option list \<Rightarrow> 'a list option" where
  "all_some xs = (if None \<in> set xs then None else Some (map the xs))"

definition utf8_decode :: "bytes \<Rightarrow> pystr option" where
  "utf8_decode bs = all_some (utf8_items False (of_bytes bs))"

definition utf8_decode_pass :: "bytes \<Rightarrow> pystr option" where
  "utf8_decode_pass bs = all_some (utf8_items True (of_bytes bs))"

definition utf8_decode_replace :: "bytes \<Rightarrow> pystr" where
  "utf8_decode_replace bs =
     map (\<lambda>x. case x of None \<Rightarrow> 0xFFFD | Some c \<Rightarrow> c) (utf8_items False (of_bytes bs))"

lemma utf8_cp_neq_Nil [simp]: "utf8_cp c \<noteq> []"
  by (simp add: utf8_cp_def)

lemma utf8_cp_less: "c < 0x110000 \<Longrightarrow> b \<in> set (utf8_cp c) \<Longrightarrow> b < 256"
  by (auto simp: utf8_cp_def split: if_splits)

lemma base64_digits:
  fixes c :: nat
  shows "c = c div 4096 * 4096 + c div 64 mod 64 * 64 + c mod 64"
    and "c = c div 262144 * 262144 + c div 4096 mod 64 * 4096 + c div 64 mod 64 * 64 + c mod 64"
proof -
  have d: "c div 4096 = c div 64 div 64" "c div 262144 = c div 64 div 64 div 64"
    by (simp_all flip: div_mult2_eq)
  have "c = c div 64 * 64 + c mod 64" "c div 64 = c div 64 div 64 * 64 + c div 64 mod 64"
    "c div 64 div 64 = c div 64 div 64 div 64 * 64 + c div 64 div 64 mod 64"
    by (metis div_mult_mod_eq)+
  then show "c = c div 4096 * 4096 + c div 64 mod 64 * 64 + c mod 64"
    and "c = c div 262144 * 262144 + c div 4096 mod 64 * 4096 + c div 64 mod 64 * 64 + c mod 64"
    unfolding d by linarith+
qed

lemma utf8_step_cp:
  assumes "is_scalar c"
  shows "utf8_step sp (hd (utf8_cp c)) (tl (utf8_cp c) @ r) = (Some c, r)"
proof -
  from assms have c: "c < 0x110000" "\<not> (0xD800 \<le> c \<and> c \<le> 0xDFFF)"
    by (auto simp: is_scalar_def is_surrogate_def)
  consider "c < 0x80" | "0x80 \<le> c" "c < 0x800" | "0x800 \<le> c" "c < 0x10000" | "0x10000 \<le> c"
    by linarith
  then show ?thesis
  proof cases
    case 1
    then show ?thesis by (simp add: utf8_cp_def utf8_step.simps)
  next
    case 2
    then have "2 \<le> c div 64" "c div 64 < 32" by auto
    with 2 show ?thesis
      by (auto simp: utf8_cp_def utf8_step.simps second_ok_def is_cont_def)
  next
    case 3
    define x y z where xyz: "x = c div 4096" "y = c div 64 mod 64" "z = c mod 64"
    have c_eq: "c = x * 4096 + y * 64 + z" and "y < 64" "z < 64"
      unfolding xyz by (rule base64_digits(1)) simp_all
    moreover from 3 have "x < 16" by (auto simp: xyz)
    moreover have "x = 0 \<Longrightarrow> 32 \<le> y"
      using 3 c_eq \<open>z < 64\<close> by linarith
    moreover have "y < 32" if "x = 13"
    proof (rule ccontr)
      assume "\<not> y < 32"
      with that c_eq \<open>y < 64\<close> \<open>z < 64\<close> have "0xD800 \<le> c" "c \<le> 0xDFFF" by linarith+
      with c(2) show False by simp
    qed
    moreover have "utf8_cp c = [0xE0 + x, 0x80 + y, 0x80 + z]"
      using 3 by (simp add: utf8_cp_def xyz)
    ultimately show ?thesis
      by (auto simp: utf8_step.simps second_ok_def is_cont_def)
  next
    case 4
    define w x y z where wxyz: "w = c div 262144" "x = c div 4096 mod 64" "y = c div 64 mod 64" "z = c mod 64"
    have c_eq: "c = w * 262144 + x * 4096 + y * 64 + z" and "x < 64" "y < 64" "z < 64"
      unfolding wxyz by (rule base64_digits(2)) simp_all
    moreover from c have "w \<le> 4" by (auto simp: wxyz)
    moreover have "w = 0 \<Longrightarrow> 16 \<le> x" "w = 4 \<Longrightarrow> x < 16"
      using 4 c(1) c_eq \<open>y < 64\<close> \<open>z < 64\<close> by linarith+
    moreover have "utf8_cp c = [0xF0 + w, 0x80 + x, 0x80 + y, 0x80 + z]"
      using 4 by (simp add: utf8_cp_def wxyz)
    ultimately show ?thesis
      by (auto simp: utf8_step.simps second_ok_def is_cont_def)
  qed
qed

lemma utf8_items_cp: "is_scalar c \<Longrightarrow> utf8_items sp (utf8_cp c @ r) = Some c # utf8_items sp r"
  using utf8_step_cp [of c sp r] by (cases "utf8_cp c") (auto simp: neq_Nil_conv)

lemma utf8_items_encode: "list_all is_scalar s \<Longrightarrow> utf8_items sp (concat (map utf8_cp s)) = map Some s"
  by (induction s) (auto simp: utf8_items_cp)

lemma all_some_map_Some [simp]: "all_some (map Some xs) = Some xs"
  by (simp add: all_some_def comp_def)

lemma utf8_encode_items:
  assumes "utf8_encode s = Some bs"
  shows "utf8_items sp (of_bytes bs) = map Some s"
proof -
  from assms have s: "list_all is_scalar s" and bs: "bs = to_bytes (concat (map utf8_cp s))"
    by (auto simp: utf8_encode_def split: if_splits)
  from s have "\<forall>b \<in> set (concat (map utf8_cp s)). b < 256"
    by (auto simp: list_all_iff is_scalar_def dest: utf8_cp_less)
  with bs have "of_bytes bs = concat (map utf8_cp s)" by (simp add: of_bytes_to_bytes)
  with s show ?thesis by (simp add: utf8_items_encode)
qed

lemma utf8_decode_encode:
  assumes "utf8_encode s = Some bs"
  shows "utf8_decode bs = Some s" "utf8_decode_pass bs = Some s" "utf8_decode_replace bs = s"
  using utf8_encode_items [OF assms]
  by (simp_all add: utf8_decode_def utf8_decode_pass_def utf8_decode_replace_def comp_def)

lemma utf8_encode_ascii:
  assumes "\<forall>c \<in> set s. c < 128"
  shows "utf8_encode s = Some (to_bytes s)"
proof -
  from assms have "map utf8_cp s = map (\<lambda>c. [c]) s" "list_all is_scalar s"
    by (auto simp: utf8_cp_def list_all_iff is_scalar_def is_surrogate_def)
  then show ?thesis by (simp add: utf8_encode_def del: map_eq_conv)
qed

section \<open>Base64\<close>

text \<open>The alphabet; the value 64 stands for the pad character.\<close>

definition b64_char :: "nat \<Rightarrow> nat" where
  "b64_char v = (if v < 26 then 65 + v else if v < 52 then 71 + v else if v < 62 then v - 4
     else if v = 62 then 43 else if v = 63 then 47 else 61)"

definition b64_value :: "nat \<Rightarrow> nat option" where
  "b64_value c = (if 65 \<le> c \<and> c \<le> 90 then Some (c - 65) else if 97 \<le> c \<and> c \<le> 122 then Some (c - 71)
     else if 48 \<le> c \<and> c \<le> 57 then Some (c + 4) else if c = 43 then Some 62
     else if c = 47 then Some 63 else None)"

fun b64_groups :: "nat list \<Rightarrow> nat list" where
  "b64_groups [] = []"
| "b64_groups [a] = [a div 4, a mod 4 * 16, 64, 64]"
| "b64_groups [a, b] = [a div 4, a mod 4 * 16 + b div 16, b mod 16 * 4, 64]"
| "b64_groups (a # b # c # r) =
     [a div 4, a mod 4 * 16 + b div 16, b mod 16 * 4 + c div 64, c mod 64] @ b64_groups r"

text \<open>\<^verbatim>\<open>base64.b64encode(bs).decode()\<close>.\<close>

definition b64encode :: "bytes \<Rightarrow> pystr" where
  "b64encode bs = map b64_char (b64_groups (of_bytes bs))"

text \<open>
  \<^verbatim>\<open>binascii.a2b_base64\<close> in its lenient mode: characters outside the alphabet are skipped, a pad
  that completes a quad ends the input, and a quad left open is an error (\<open>None\<close>). The
  arguments are the position in the quad, the bits left over, and the pads seen.
\<close>

fun a2b_base64 :: "nat \<Rightarrow> nat \<Rightarrow> nat \<Rightarrow> nat list \<Rightarrow> nat list option" where
  "a2b_base64 q l p [] = (if q = 0 then Some [] else None)"
| "a2b_base64 q l p (c # s) =
     (if c = 61 then
        (if 2 \<le> q \<and> 4 \<le> q + Suc p then Some []
         else a2b_base64 q l (if 2 \<le> q then Suc p else p) s)
      else (case b64_value c of
        None \<Rightarrow> a2b_base64 q l p s
      | Some v \<Rightarrow>
          (if q = 0 then a2b_base64 1 v 0 s
           else if q = 1 then map_option (Cons (l * 4 + v div 16)) (a2b_base64 2 (v mod 16) 0 s)
           else if q = 2 then map_option (Cons (l * 16 + v div 4)) (a2b_base64 3 (v mod 4) 0 s)
           else map_option (Cons (l * 64 + v)) (a2b_base64 0 0 0 s))))"

definition b64decode_bytes :: "nat list \<Rightarrow> bytes option" where
  "b64decode_bytes s = map_option to_bytes (a2b_base64 0 0 0 s)"

text \<open>\<^verbatim>\<open>base64.b64decode(s)\<close> of a string: \<^verbatim>\<open>ValueError\<close> beyond ASCII, \<^verbatim>\<open>binascii.Error\<close> when malformed.\<close>

definition b64decode :: "runtime \<Rightarrow> pystr \<Rightarrow> bytes res" where
  "b64decode rt s =
     (if \<exists>c \<in> set s. 128 \<le> c then Inl (py_exn rt ValueError s)
      else or_raise rt BinasciiError s (b64decode_bytes s))"

lemma b64_value_char [simp]: "v < 64 \<Longrightarrow> b64_value (b64_char v) = Some v"
  by (auto simp: b64_value_def b64_char_def)

lemma b64_char_neq_pad [simp]: "v < 64 \<Longrightarrow> b64_char v \<noteq> 61"
  by (auto simp: b64_char_def)

lemma b64_char_64 [simp]: "b64_char 64 = 61"
  by (simp add: b64_char_def)

lemma b64_char_ascii: "b64_char v < 128"
  by (auto simp: b64_char_def)

lemma a2b_base64_groups:
  "\<forall>n \<in> set ns. n < 256 \<Longrightarrow> a2b_base64 0 0 0 (map b64_char (b64_groups ns)) = Some ns"
proof (induction ns rule: b64_groups.induct)
  case (2 a)
  then show ?case by (auto simp: less_mult_imp_div_less)
next
  case (3 a b)
  then have "a div 4 < 64" "b div 16 < 16" by auto
  then have "a mod 4 * 16 + b div 16 < 64" by (simp add: less_mult_imp_div_less)
  with 3 show ?case by (auto simp: less_mult_imp_div_less)
next
  case (4 a b c r)
  then have "a div 4 < 64" "b div 16 < 16" "c div 64 < 4" by auto
  moreover from this have "a mod 4 * 16 + b div 16 < 64" "b mod 16 * 4 + c div 64 < 64" by auto
  ultimately show ?case using 4 by auto
qed simp

lemma b64decode_bytes_encode: "b64decode_bytes (b64encode bs) = Some bs"
  by (simp add: b64decode_bytes_def b64encode_def a2b_base64_groups of_bytes_less)

lemma b64encode_ascii: "c \<in> set (b64encode bs) \<Longrightarrow> c < 128"
  by (auto simp: b64encode_def b64_char_ascii)

lemma b64decode_encode [simp]: "b64decode rt (b64encode bs) = Inr bs"
  using b64encode_ascii by (fastforce simp: b64decode_def b64decode_bytes_encode)

lemma length_b64_groups: "length (b64_groups ns) = (length ns + 2) div 3 * 4"
proof (induction ns rule: b64_groups.induct)
  case (4 a b c r)
  have "length (a # b # c # r) + 2 = 3 + (length r + 2)" by simp
  then have "(length (a # b # c # r) + 2) div 3 = 1 + (length r + 2) div 3"
    by (metis div_add_self1 zero_neq_numeral add.commute)
  then have "(length (a # b # c # r) + 2) div 3 * 4 = 4 + (length r + 2) div 3 * 4" by simp
  also have "\<dots> = length (b64_groups (a # b # c # r))" using 4 by simp
  finally show ?case by simp
qed auto

lemma length_b64encode: "length (b64encode bs) = (length bs + 2) div 3 * 4"
  by (simp add: b64encode_def length_b64_groups)

section \<open>Length prefixes\<close>

text \<open>\<^verbatim>\<open>struct.pack(">I", n)\<close> and \<^verbatim>\<open>struct.unpack(">I", b)[0]\<close>.\<close>

definition pack_u32 :: "nat \<Rightarrow> bytes option" where
  "pack_u32 n = (if n < 2 ^ 32
     then Some (to_bytes [n div 2 ^ 24, n div 2 ^ 16 mod 256, n div 2 ^ 8 mod 256, n mod 256]) else None)"

definition unpack_u32 :: "bytes \<Rightarrow> nat" where
  "unpack_u32 bs = foldl (\<lambda>a b. 256 * a + unat b) 0 bs"

lemma pack_u32_length: "pack_u32 n = Some bs \<Longrightarrow> length bs = 4"
  by (auto simp: pack_u32_def split: if_splits)

lemma base256_digits:
  fixes n :: nat
  shows "256 * (256 * (256 * (n div 16777216) + n div 65536 mod 256) + n div 256 mod 256) + n mod 256 = n"
proof -
  have d: "n div 16777216 = n div 65536 div 256" "n div 65536 = n div 256 div 256"
    by (simp_all flip: div_mult2_eq)
  show ?thesis
    unfolding d(1) mult_div_mod_eq unfolding d(2) mult_div_mod_eq ..
qed

lemma unpack_u32_alt: "unpack_u32 bs = foldl (\<lambda>a b. 256 * a + b) 0 (of_bytes bs)"
  by (simp add: unpack_u32_def of_bytes_def foldl_map)

lemma unpack_pack_u32:
  assumes "pack_u32 n = Some bs"
  shows "unpack_u32 bs = n"
proof -
  from assms have n: "n < 4294967296"
    and bs: "bs = to_bytes [n div 16777216, n div 65536 mod 256, n div 256 mod 256, n mod 256]"
    by (auto simp: pack_u32_def split: if_splits)
  from n have "n div 16777216 < 256" by auto
  then have "of_bytes bs = [n div 16777216, n div 65536 mod 256, n div 256 mod 256, n mod 256]"
    unfolding bs by (intro of_bytes_to_bytes) auto
  then have "unpack_u32 bs =
      256 * (256 * (256 * (n div 16777216) + n div 65536 mod 256) + n div 256 mod 256) + n mod 256"
    by (simp add: unpack_u32_alt)
  then show ?thesis by (simp only: base256_digits)
qed

end
