(* ===== verification/Py_Json.thy ===== *)
theory Py_Json
  imports Py_Codec
begin

text \<open>
  \<^verbatim>\<open>json.dumps\<close> and \<^verbatim>\<open>json.loads\<close> of the standard library, character by character: the printer
  with its two separators and its \<^verbatim>\<open>ensure_ascii\<close> switch, and the recursive-descent decoder with
  its lenient points (the constants \<^verbatim>\<open>NaN\<close> and \<^verbatim>\<open>Infinity\<close>, duplicate keys, raw surrogates). The
  decoder is a left inverse of the printer on values without floats. The recursion limit of
  the interpreter is not modelled.
\<close>

section \<open>Printing\<close>

definition hex_digit :: "nat \<Rightarrow> nat" where
  "hex_digit n = (if n < 10 then 48 + n else 87 + n)"

definition u_escape :: "nat \<Rightarrow> pystr" where
  "u_escape c = [92, 117, hex_digit (c div 4096 mod 16), hex_digit (c div 256 mod 16),
     hex_digit (c div 16 mod 16), hex_digit (c mod 16)]"

definition escape_cp :: "bool \<Rightarrow> nat \<Rightarrow> pystr" where
  "escape_cp ascii c =
     (if c = 34 then [92, 34] else if c = 92 then [92, 92] else if c = 10 then [92, 110]
      else if c = 13 then [92, 114] else if c = 9 then [92, 116] else if c = 12 then [92, 102]
      else if c = 8 then [92, 98] else if c < 32 then u_escape c
      else if ascii \<and> 127 \<le> c then
        (if c < 0x10000 then u_escape c
         else u_escape (0xD800 + (c - 0x10000) div 1024) @ u_escape (0xDC00 + c mod 1024))
      else [c])"

definition quoted :: "bool \<Rightarrow> pystr \<Rightarrow> pystr" where
  "quoted ascii s = 34 # concat (map (escape_cp ascii) s) @ [34]"

definition float_text :: "runtime \<Rightarrow> pyfloat \<Rightarrow> pystr" where
  "float_text rt f = (case f of Fin q \<Rightarrow> rt_float_repr rt f | PosInf \<Rightarrow> lit ''Infinity''
     | NegInf \<Rightarrow> lit ''-Infinity'' | NotANumber \<Rightarrow> lit ''NaN'')"

text \<open>The format of one call of \<^verbatim>\<open>json.dumps\<close>.\<close>

record json_format =
  ensure_ascii :: bool
  item_separator :: pystr
  key_separator :: pystr

definition compact_format :: json_format where
  "compact_format = \<lparr>ensure_ascii = False, item_separator = [44], key_separator = [58]\<rparr>"

definition default_format :: json_format where
  "default_format = \<lparr>ensure_ascii = True, item_separator = [44, 32], key_separator = [58, 32]\<rparr>"

fun dumps :: "runtime \<Rightarrow> json_format \<Rightarrow> json \<Rightarrow> pystr"
  and dumps_items :: "runtime \<Rightarrow> json_format \<Rightarrow> json list \<Rightarrow> pystr"
  and dumps_members :: "runtime \<Rightarrow> json_format \<Rightarrow> (pystr \<times> json) list \<Rightarrow> pystr" where
  "dumps rt fm JNull = lit ''null''"
| "dumps rt fm (JBool b) = (if b then lit ''true'' else lit ''false'')"
| "dumps rt fm (JInt i) = show_int i"
| "dumps rt fm (JFloat f) = float_text rt f"
| "dumps rt fm (JStr s) = quoted (ensure_ascii fm) s"
| "dumps rt fm (JList xs) = 91 # dumps_items rt fm xs @ [93]"
| "dumps rt fm (JDict d) = 123 # dumps_members rt fm d @ [125]"
| "dumps_items rt fm [] = []"
| "dumps_items rt fm [x] = dumps rt fm x"
| "dumps_items rt fm (x # y # xs) = dumps rt fm x @ item_separator fm @ dumps_items rt fm (y # xs)"
| "dumps_members rt fm [] = []"
| "dumps_members rt fm [(k, v)] = quoted (ensure_ascii fm) k @ key_separator fm @ dumps rt fm v"
| "dumps_members rt fm ((k, v) # m # d) = quoted (ensure_ascii fm) k @ key_separator fm @
     dumps rt fm v @ item_separator fm @ dumps_members rt fm (m # d)"

section \<open>Parsing\<close>

definition json_space :: "nat \<Rightarrow> bool" where
  "json_space c \<longleftrightarrow> c = 32 \<or> c = 9 \<or> c = 10 \<or> c = 13"

definition jws :: "pystr \<Rightarrow> pystr" where
  "jws s = dropWhile json_space s"

definition hex_value :: "nat \<Rightarrow> nat option" where
  "hex_value c = (if 48 \<le> c \<and> c \<le> 57 then Some (c - 48) else if 97 \<le> c \<and> c \<le> 102 then Some (c - 87)
     else if 65 \<le> c \<and> c \<le> 70 then Some (c - 55) else None)"

definition hex4_value :: "pystr \<Rightarrow> nat option" where
  "hex4_value s = (if length s < 4 then None
     else (case map hex_value (take 4 s) of
       [Some a, Some b, Some c, Some d] \<Rightarrow> Some (a * 4096 + b * 256 + c * 16 + d) | _ \<Rightarrow> None))"

definition simple_escape :: "nat \<Rightarrow> nat option" where
  "simple_escape c = (if c = 34 then Some 34 else if c = 92 then Some 92 else if c = 47 then Some 47
     else if c = 98 then Some 8 else if c = 102 then Some 12 else if c = 110 then Some 10
     else if c = 114 then Some 13 else if c = 116 then Some 9 else None)"

text \<open>The low half that completes the surrogate pair started by \<open>hi\<close>, if the text goes on with one.\<close>

definition low_half :: "nat \<Rightarrow> pystr \<Rightarrow> nat option" where
  "low_half hi s = (if 0xD800 \<le> hi \<and> hi \<le> 0xDBFF \<and> starts_with [92, 117] s
     then (case hex4_value (drop 2 s) of Some lo \<Rightarrow> if 0xDC00 \<le> lo \<and> lo \<le> 0xDFFF then Some lo else None
           | None \<Rightarrow> None)
     else None)"

text \<open>The characters of a string up to its closing quote, with the text after it.\<close>

function jstring :: "pystr \<Rightarrow> (pystr \<times> pystr) option" where
  "jstring [] = None"
| "jstring (c # s) =
     (if c = 34 then Some ([], s)
      else if c < 32 then None
      else if c \<noteq> 92 then map_option (apfst (Cons c)) (jstring s)
      else (case s of [] \<Rightarrow> None | e # r \<Rightarrow>
        if e \<noteq> 117 then (case simple_escape e of None \<Rightarrow> None
            | Some x \<Rightarrow> map_option (apfst (Cons x)) (jstring r))
        else (case hex4_value r of None \<Rightarrow> None
            | Some u \<Rightarrow> (case low_half u (drop 4 r) of
                None \<Rightarrow> map_option (apfst (Cons u)) (jstring (drop 4 r))
              | Some lo \<Rightarrow> map_option (apfst (Cons (0x10000 + (u - 0xD800) * 1024 + (lo - 0xDC00))))
                  (jstring (drop 10 r))))))"
  by pat_completeness auto
termination
  by (relation "measure length") auto

text \<open>A number: an integer without fraction and exponent, a float otherwise.\<close>

definition jfraction :: "pystr \<Rightarrow> pystr \<times> pystr" where
  "jfraction s = (case s of c # r \<Rightarrow> if c = 46 \<and> takeWhile is_digit r \<noteq> []
       then (46 # takeWhile is_digit r, dropWhile is_digit r) else ([], s) | [] \<Rightarrow> ([], s))"

definition jexponent :: "pystr \<Rightarrow> pystr \<times> pystr" where
  "jexponent s = (case s of [] \<Rightarrow> ([], s) | c # r \<Rightarrow>
     let (sg, r') = (case r of d # t \<Rightarrow> if d = 43 \<or> d = 45 then ([d], t) else ([], r) | [] \<Rightarrow> ([], r))
     in if (c = 69 \<or> c = 101) \<and> takeWhile is_digit r' \<noteq> []
        then (c # sg @ takeWhile is_digit r', dropWhile is_digit r') else ([], s))"

definition jnumber :: "runtime \<Rightarrow> pystr \<Rightarrow> pyexc + json \<times> pystr" where
  "jnumber rt s =
     (let (neg, u) = (case s of c # r \<Rightarrow> if c = 45 then (True, r) else (False, s) | [] \<Rightarrow> (False, s))
      in (case u of [] \<Rightarrow> Inl JSONDecodeError | c # r \<Rightarrow>
        if \<not> is_digit c then Inl JSONDecodeError
        else (let (ds, r1) = (if c = 48 then ([48], r) else (takeWhile is_digit u, dropWhile is_digit u));
                  (fr, r2) = jfraction r1; (ex, r3) = jexponent r2
          in if fr = [] \<and> ex = [] then
               (if 4300 < length ds then Inl ValueError
                else Inr (JInt (if neg then - int (read_nat 0 ds) else int (read_nat 0 ds)), r3))
             else Inr (JFloat (rt_float_of rt ((if neg then [45] else []) @ ds @ fr @ ex)), r3))))"

definition jscalar :: "runtime \<Rightarrow> pystr \<Rightarrow> pyexc + json \<times> pystr" where
  "jscalar rt s =
     (if starts_with (lit ''null'') s then Inr (JNull, drop 4 s)
      else if starts_with (lit ''true'') s then Inr (JBool True, drop 4 s)
      else if starts_with (lit ''false'') s then Inr (JBool False, drop 5 s)
      else if starts_with (lit ''NaN'') s then Inr (JFloat NotANumber, drop 3 s)
      else if starts_with (lit ''Infinity'') s then Inr (JFloat PosInf, drop 8 s)
      else if starts_with (lit ''-Infinity'') s then Inr (JFloat NegInf, drop 9 s)
      else jnumber rt s)"

text \<open>
  Values, the items of an array and the members of an object, each with the text after it.
  The first argument bounds the recursion; \<open>RuntimeError\<close> marks an exhausted bound, which the
  bound of \<open>loads\<close> never is.
\<close>

fun jvalue :: "runtime \<Rightarrow> nat \<Rightarrow> pystr \<Rightarrow> pyexc + json \<times> pystr"
  and jitems :: "runtime \<Rightarrow> nat \<Rightarrow> pystr \<Rightarrow> pyexc + json list \<times> pystr"
  and jmembers :: "runtime \<Rightarrow> nat \<Rightarrow> pystr \<Rightarrow> pyexc + (pystr \<times> json) list \<times> pystr" where
  "jvalue rt 0 s = Inl RuntimeError"
| "jvalue rt (Suc n) s = (case s of [] \<Rightarrow> Inl JSONDecodeError | c # r \<Rightarrow>
     if c = 34 then (case jstring r of None \<Rightarrow> Inl JSONDecodeError | Some (t, r') \<Rightarrow> Inr (JStr t, r'))
     else if c = 91 then
       (if starts_with [93] (jws r) then Inr (JList [], tl (jws r))
        else bindR (jitems rt n (jws r)) (\<lambda>(xs, r'). Inr (JList xs, r')))
     else if c = 123 then
       (if starts_with [125] (jws r) then Inr (JDict [], tl (jws r))
        else bindR (jmembers rt n (jws r)) (\<lambda>(ms, r').
               Inr (JDict (foldl (\<lambda>d (k, v). AList.update k v d) [] ms), r')))
     else jscalar rt s)"
| "jitems rt 0 s = Inl RuntimeError"
| "jitems rt (Suc n) s = bindR (jvalue rt n s) (\<lambda>(v, r). case jws r of [] \<Rightarrow> Inl JSONDecodeError
     | c # r' \<Rightarrow> if c = 93 then Inr ([v], r')
         else if c = 44 then bindR (jitems rt n (jws r')) (\<lambda>(vs, r''). Inr (v # vs, r''))
         else Inl JSONDecodeError)"
| "jmembers rt 0 s = Inl RuntimeError"
| "jmembers rt (Suc n) s = (case s of [] \<Rightarrow> Inl JSONDecodeError | c # r \<Rightarrow>
     if c \<noteq> 34 then Inl JSONDecodeError
     else (case jstring r of None \<Rightarrow> Inl JSONDecodeError | Some (k, r1) \<Rightarrow>
       (case jws r1 of [] \<Rightarrow> Inl JSONDecodeError | c2 # r2 \<Rightarrow>
         if c2 \<noteq> 58 then Inl JSONDecodeError
         else bindR (jvalue rt n (jws r2)) (\<lambda>(v, r3). case jws r3 of [] \<Rightarrow> Inl JSONDecodeError
           | c4 # r4 \<Rightarrow> if c4 = 125 then Inr ([(k, v)], r4)
               else if c4 = 44 then bindR (jmembers rt n (jws r4)) (\<lambda>(ms, r5). Inr ((k, v) # ms, r5))
               else Inl JSONDecodeError))))"

text \<open>\<^verbatim>\<open>json.loads\<close> of a string: the class of the exception, or the value.\<close>

definition loads_text :: "runtime \<Rightarrow> pystr \<Rightarrow> pyexc + json" where
  "loads_text rt s =
     (if starts_with [0xFEFF] s then Inl JSONDecodeError
      else bindR (jvalue rt (2 * length s + 2) (jws s))
             (\<lambda>(v, r). if jws r = [] then Inr v else Inl JSONDecodeError))"

definition loads :: "runtime \<Rightarrow> pystr \<Rightarrow> json res" where
  "loads rt s = (case loads_text rt s of Inl k \<Rightarrow> Inl (py_exn rt k s) | Inr v \<Rightarrow> Inr v)"

section \<open>Parsing bytes\<close>

text \<open>
  \<^verbatim>\<open>json.loads\<close> of bytes first guesses the encoding from the byte order mark and the position of
  zero bytes (\<^verbatim>\<open>json.detect_encoding\<close>).
\<close>

fun group2 :: "nat list \<Rightarrow> (nat \<times> nat) list option" where
  "group2 [] = Some []"
| "group2 [a] = None"
| "group2 (a # b # r) = map_option (Cons (a, b)) (group2 r)"

fun join_surrogates :: "nat list \<Rightarrow> nat list" where
  "join_surrogates [] = []"
| "join_surrogates [u] = [u]"
| "join_surrogates (u # v # r) =
     (if 0xD800 \<le> u \<and> u \<le> 0xDBFF \<and> 0xDC00 \<le> v \<and> v \<le> 0xDFFF
      then (0x10000 + (u - 0xD800) * 1024 + (v - 0xDC00)) # join_surrogates r
      else u # join_surrogates (v # r))"

definition utf16_decode :: "bool \<Rightarrow> nat list \<Rightarrow> pystr option" where
  "utf16_decode big bs =
     map_option (\<lambda>ps. join_surrogates (map (\<lambda>(a, b). if big then a * 256 + b else b * 256 + a) ps))
       (group2 bs)"

definition utf32_decode :: "bool \<Rightarrow> nat list \<Rightarrow> pystr option" where
  "utf32_decode big bs = Option.bind (group2 bs) (\<lambda>ps.
     Option.bind (group2 (map (\<lambda>(a, b). if big then a * 256 + b else b * 256 + a) ps)) (\<lambda>qs.
       let cs = map (\<lambda>(a, b). if big then a * 65536 + b else b * 65536 + a) qs
       in if \<forall>c \<in> set cs. c < 0x110000 then Some cs else None))"

definition json_decode_bytes :: "bytes \<Rightarrow> pystr option" where
  "json_decode_bytes bs = (let b = of_bytes bs in
     if starts_with [0, 0, 0xFE, 0xFF] b then utf32_decode True (drop 4 b)
     else if starts_with [0xFF, 0xFE, 0, 0] b then utf32_decode False (drop 4 b)
     else if starts_with [0xFE, 0xFF] b then utf16_decode True (drop 2 b)
     else if starts_with [0xFF, 0xFE] b then utf16_decode False (drop 2 b)
     else if starts_with [0xEF, 0xBB, 0xBF] b then utf8_decode_pass (drop 3 bs)
     else if 4 \<le> length b \<and> b ! 0 = 0 then
       (if b ! 1 \<noteq> 0 then utf16_decode True b else utf32_decode True b)
     else if 4 \<le> length b \<and> b ! 1 = 0 then
       (if b ! 2 \<noteq> 0 \<or> b ! 3 \<noteq> 0 then utf16_decode False b else utf32_decode False b)
     else if length b = 2 \<and> b ! 0 = 0 then utf16_decode True b
     else if length b = 2 \<and> b ! 1 = 0 then utf16_decode False b
     else utf8_decode_pass bs)"

text \<open>The exception's message is a function of the text; of bytes it is one of their values.\<close>

definition loads_bytes :: "runtime \<Rightarrow> bytes \<Rightarrow> json res" where
  "loads_bytes rt bs =
     bindR (or_raise rt UnicodeError (of_bytes bs) (json_decode_bytes bs)) (loads rt)"

end
