(* ===== verification/Py_Json_Props.thy ===== *)
theory Py_Json_Props
  imports Py_Json
begin

text \<open>
  The decoder inverts the compact printer on every value with distinct dictionary keys whose floats
  the runtime reads back from their \<^verbatim>\<open>repr\<close> (float-free ones in particular), also through UTF-8; the recursion
  bound of \<open>loads\<close> is never exhausted.
\<close>

section \<open>Strings\<close>

lemma hex_value_digit [simp]: "n < 16 \<Longrightarrow> hex_value (hex_digit n) = Some n"
  by (auto simp: hex_value_def hex_digit_def)

lemma base16_sum:
  fixes c x y z m0 m1 m2 :: nat
  assumes "c = 16 * x + m0" "x = 16 * y + m1" "y = 16 * z + m2"
  shows "z * 4096 + m2 * 256 + m1 * 16 + m0 = c"
  using assms by simp

lemma hex4_u_escape:
  assumes "c < 0x10000"
  shows "hex4_value (drop 2 (u_escape c) @ r) = Some c"
proof -
  have d: "c div 256 = c div 16 div 16" "c div 4096 = c div 16 div 16 div 16"
    by (simp_all flip: div_mult2_eq)
  have "c div 4096 < 16" using assms by (simp add: less_mult_imp_div_less)
  moreover have "c div 4096 * 4096 + c div 256 mod 16 * 256 + c div 16 mod 16 * 16 + c mod 16 = c"
    unfolding d by (rule base16_sum) (rule mult_div_mod_eq [symmetric])+
  ultimately show ?thesis
    by (simp add: hex4_value_def u_escape_def)
qed

lemma low_half_small: "u < 0xD800 \<Longrightarrow> low_half u s = None"
  by (simp add: low_half_def)

lemma jstring_escape_cp: "jstring (escape_cp False c @ t) = map_option (apfst (Cons c)) (jstring t)"
proof (cases "c < 32 \<and> c \<notin> {8, 9, 10, 12, 13}")
  case True
  then have e: "escape_cp False c = 92 # 117 # drop 2 (u_escape c)"
    by (auto simp: escape_cp_def u_escape_def)
  have h: "hex4_value (drop 2 (u_escape c) @ t) = Some c"
    using True by (intro hex4_u_escape) auto
  have "drop 4 (drop 2 (u_escape c) @ t) = t"
    by (simp add: u_escape_def)
  with True show ?thesis
    unfolding e by (simp add: h low_half_small del: append_Cons drop_append) (simp add: h low_half_small)
next
  case False
  then consider "c \<in> {8, 9, 10, 12, 13, 34, 92}" | "32 \<le> c" "c \<noteq> 34" "c \<noteq> 92" by fastforce
  then show ?thesis
  proof cases
    case 1
    then show ?thesis
      by (elim insertE emptyE) (simp_all add: escape_cp_def simple_escape_def)
  next
    case 2
    then show ?thesis by (simp add: escape_cp_def)
  qed
qed

lemma jstring_quoted: "jstring (concat (map (escape_cp False) s) @ 34 # r) = Some (s, r)"
  by (induction s) (simp_all add: jstring_escape_cp)

section \<open>Numbers\<close>

text \<open>What may follow a value inside a document the printer made, or end it.\<close>

definition delimiter :: "pystr \<Rightarrow> bool" where
  "delimiter r \<longleftrightarrow> r = [] \<or> hd r \<in> {44, 93, 125}"

lemma delimiter_simps [simp]:
  "delimiter []" "delimiter (44 # r)" "delimiter (93 # r)" "delimiter (125 # r)"
  by (simp_all add: delimiter_def)

lemma takeWhile_digits:
  assumes "\<forall>c \<in> set ds. is_digit c" "delimiter r"
  shows "takeWhile is_digit (ds @ r) = ds" "dropWhile is_digit (ds @ r) = r"
proof -
  have "takeWhile is_digit r = []" "dropWhile is_digit r = r"
    using assms(2) by (cases r; auto simp: delimiter_def is_digit_def)+
  with assms(1) show "takeWhile is_digit (ds @ r) = ds" "dropWhile is_digit (ds @ r) = r"
    by (simp_all add: takeWhile_append dropWhile_append)
qed

lemma jfraction_delimiter: "delimiter r \<Longrightarrow> jfraction r = ([], r)"
  by (auto simp: jfraction_def delimiter_def split: list.splits)

lemma jexponent_delimiter: "delimiter r \<Longrightarrow> jexponent r = ([], r)"
  by (auto simp: jexponent_def delimiter_def Let_def split: list.splits prod.splits)

definition int_ok :: "int \<Rightarrow> bool" where
  "int_ok i \<longleftrightarrow> length (show_nat (nat \<bar>i\<bar>)) \<le> 4300"

lemma show_nat_Cons:
  obtains c ds where "show_nat n = c # ds" "is_digit c" "\<forall>d \<in> set ds. is_digit d" "n \<noteq> 0 \<longrightarrow> c \<noteq> 48"
    "n = 0 \<longrightarrow> c = 48 \<and> ds = []"
proof -
  obtain c ds where n: "show_nat n = c # ds" by (meson neq_Nil_conv show_nat_neq_Nil)
  show ?thesis
    by (rule that [OF n]) (use show_nat_digits [of n] show_nat_hd [of n] n in auto)
qed

lemma jnumber_show_nat:
  assumes "delimiter r" "length (show_nat n) \<le> 4300"
  shows "jnumber rt (show_nat n @ r) = Inr (JInt (int n), r)"
    and "jnumber rt (45 # show_nat n @ r) = Inr (JInt (- int n), r)"
proof -
  obtain c ds where n: "show_nat n = c # ds" and c: "is_digit c" and ds: "\<forall>d \<in> set ds. is_digit d"
    and c0: "n \<noteq> 0 \<longrightarrow> c \<noteq> 48" "n = 0 \<longrightarrow> c = 48 \<and> ds = []"
    by (rule show_nat_Cons [of n])
  have v: "read_nat 0 (c # ds) = n" using read_nat_show_nat [of n] n by simp
  have w: "takeWhile is_digit (c # ds @ r) = c # ds" "dropWhile is_digit (c # ds @ r) = r"
    using takeWhile_digits [of "c # ds" r] c ds assms(1) by simp_all
  have c45: "c \<noteq> 45" using c by (auto simp: is_digit_def)
  note j = jfraction_delimiter [OF assms(1)] jexponent_delimiter [OF assms(1)]
  show "jnumber rt (show_nat n @ r) = Inr (JInt (int n), r)"
    using assms(2) c0 c45 c v w
    by (cases "n = 0") (auto simp: jnumber_def n j simp del: takeWhile.simps dropWhile.simps read_nat.simps)
  show "jnumber rt (45 # show_nat n @ r) = Inr (JInt (- int n), r)"
    using assms(2) c0 c45 c v w
    by (cases "n = 0") (auto simp: jnumber_def n j simp del: takeWhile.simps dropWhile.simps read_nat.simps)
qed

lemma starts_with_Cons_neq: "starts_with (a # p) (b # s) \<Longrightarrow> a = b"
  by (simp add: starts_with_def)

lemma lit_Cons: "lit (c # s) = of_char c # lit s"
  by (simp add: lit_def)

lemma jscalar_show_int:
  assumes "delimiter r" "int_ok i"
  shows "jscalar rt (show_int i @ r) = Inr (JInt i, r)"
proof -
  obtain c ds where n: "show_nat (nat \<bar>i\<bar>) = c # ds" and c: "is_digit c"
    by (rule show_nat_Cons [of "nat \<bar>i\<bar>"])
  have len: "length (show_nat (nat \<bar>i\<bar>)) \<le> 4300" using assms(2) by (simp add: int_ok_def)
  have kw: "\<not> starts_with (lit ''null'') (show_int i @ r)" "\<not> starts_with (lit ''true'') (show_int i @ r)"
    "\<not> starts_with (lit ''false'') (show_int i @ r)" "\<not> starts_with (lit ''NaN'') (show_int i @ r)"
    "\<not> starts_with (lit ''Infinity'') (show_int i @ r)" "\<not> starts_with (lit ''-Infinity'') (show_int i @ r)"
    using c n by (auto simp: show_int_def lit_Cons starts_with_def is_digit_def)
  show ?thesis
  proof (cases "i < 0")
    case True
    then have "show_int i = 45 # show_nat (nat \<bar>i\<bar>)" by (simp add: show_int_def)
    with True kw jnumber_show_nat(2) [OF assms(1) len, of rt] show ?thesis
      by (simp add: jscalar_def)
  next
    case False
    then have "show_int i = show_nat (nat \<bar>i\<bar>)" by (simp add: show_int_def)
    with False kw jnumber_show_nat(1) [OF assms(1) len, of rt] show ?thesis
      by (simp add: jscalar_def)
  qed
qed

section \<open>Floats\<close>

text \<open>
  The text that \<^verbatim>\<open>repr\<close> gives a finite float: a sign, digits without a leading zero, and a fraction
  or an exponent or both.
\<close>

definition digits :: "pystr \<Rightarrow> bool" where
  "digits ds \<longleftrightarrow> ds \<noteq> [] \<and> list_all is_digit ds"

definition is_fraction :: "pystr \<Rightarrow> bool" where
  "is_fraction s \<longleftrightarrow> (case s of [] \<Rightarrow> True | c # ds \<Rightarrow> c = 46 \<and> digits ds)"

definition is_exponent :: "pystr \<Rightarrow> bool" where
  "is_exponent s \<longleftrightarrow> (case s of [] \<Rightarrow> True | c # r \<Rightarrow> c = 101 \<and>
     (case r of d # ds \<Rightarrow> if d = 43 \<or> d = 45 then digits ds else digits r | [] \<Rightarrow> False))"

inductive float_literal :: "pystr \<Rightarrow> bool" where
  float_literal: "sg \<in> {[], [45]} \<Longrightarrow> digits ds \<Longrightarrow> hd ds \<noteq> 48 \<or> ds = [48] \<Longrightarrow> is_fraction fr \<Longrightarrow> is_exponent ex \<Longrightarrow>
    fr @ ex \<noteq> [] \<Longrightarrow> float_literal (sg @ ds @ fr @ ex)"

text \<open>What is documented of \<^verbatim>\<open>repr\<close> of a float: its form, and that \<^verbatim>\<open>float\<close> reads the same number from it.\<close>

definition float_reads :: "runtime \<Rightarrow> pyfloat \<Rightarrow> bool" where
  "float_reads rt f \<longleftrightarrow> (case f of
     Fin q \<Rightarrow> float_literal (rt_float_repr rt f) \<and> rt_float_of rt (rt_float_repr rt f) = f
   | _ \<Rightarrow> True)"

lemma digits_Cons: "digits ds \<Longrightarrow> \<exists>d r. ds = d # r \<and> is_digit d"
  by (cases ds) (auto simp: digits_def)

lemma split_digits:
  assumes "list_all is_digit ds" "r = [] \<or> \<not> is_digit (hd r)"
  shows "takeWhile is_digit (ds @ r) = ds" "dropWhile is_digit (ds @ r) = r"
proof -
  have "takeWhile is_digit r = []" "dropWhile is_digit r = r" using assms(2) by (cases r; auto)+
  moreover have "\<forall>c \<in> set ds. is_digit c" using assms(1) by (simp add: list_all_iff)
  ultimately show "takeWhile is_digit (ds @ r) = ds" "dropWhile is_digit (ds @ r) = r"
    by (simp_all add: takeWhile_append dropWhile_append)
qed

lemma delimiter_no_digit: "delimiter r \<Longrightarrow> r = [] \<or> \<not> is_digit (hd r)"
  by (auto simp: delimiter_def is_digit_def)

lemma after_fraction: "is_exponent ex \<Longrightarrow> delimiter r \<Longrightarrow> ex @ r = [] \<or> \<not> is_digit (hd (ex @ r)) \<and> hd (ex @ r) \<noteq> 46"
  by (cases ex) (auto simp: is_exponent_def delimiter_def is_digit_def)

lemma jfraction_text:
  assumes "is_fraction fr" "is_exponent ex" "delimiter r"
  shows "jfraction (fr @ ex @ r) = (fr, ex @ r)"
proof (cases fr)
  case Nil
  then show ?thesis using after_fraction [OF assms(2,3)] by (auto simp: jfraction_def split: list.splits)
next
  case (Cons c ds)
  then have c: "c = 46" "ds \<noteq> []" "list_all is_digit ds" using assms(1) by (auto simp: is_fraction_def digits_def)
  have "ex @ r = [] \<or> \<not> is_digit (hd (ex @ r))" using after_fraction [OF assms(2,3)] by blast
  from split_digits [OF c(3) this] c(1,2) Cons show ?thesis by (simp add: jfraction_def)
qed

lemma jexponent_text:
  assumes "is_exponent ex" "delimiter r"
  shows "jexponent (ex @ r) = (ex, r)"
proof (cases ex)
  case Nil
  then show ?thesis using jexponent_delimiter [OF assms(2)] by simp
next
  case (Cons c s)
  then obtain d ds where s: "c = 101" "s = d # ds" and ds: "if d = 43 \<or> d = 45 then digits ds else digits s"
    using assms(1) by (auto simp: is_exponent_def split: list.splits)
  show ?thesis
  proof (cases "d = 43 \<or> d = 45")
    case True
    then show ?thesis using split_digits [of ds r] delimiter_no_digit [OF assms(2)] Cons s ds
      by (auto simp: jexponent_def digits_def)
  next
    case False
    then show ?thesis using split_digits [of s r] delimiter_no_digit [OF assms(2)] Cons s ds
      by (auto simp: jexponent_def digits_def)
  qed
qed

lemma jnumber_float:
  assumes "float_literal t" "delimiter r"
  shows "jnumber rt (t @ r) = Inr (JFloat (rt_float_of rt t), r)"
  using assms(1)
proof cases
  case (float_literal sg ds fr ex)
  obtain d rs where ds: "ds = d # rs" "is_digit d" using digits_Cons float_literal(3) by blast
  have frac: "fr @ ex @ r = [] \<or> \<not> is_digit (hd (fr @ ex @ r))"
    using float_literal(5) after_fraction [OF float_literal(6) assms(2)]
    by (cases fr) (auto simp: is_fraction_def is_digit_def)
  have w: "takeWhile is_digit (d # rs @ fr @ ex @ r) = ds" "dropWhile is_digit (d # rs @ fr @ ex @ r) = fr @ ex @ r"
    using split_digits [of ds, OF _ frac] float_literal(3) ds(1) by (simp_all add: digits_def)
  have d45: "d \<noteq> 45" using ds(2) by (auto simp: is_digit_def)
  have zero: "rs = []" if "d = 48" using that float_literal(4) ds(1) by simp
  note parts = jfraction_text [OF float_literal(5,6) assms(2)] jexponent_text [OF float_literal(6) assms(2)]
  have some: "fr = [] \<longrightarrow> ex \<noteq> []" using float_literal(7) by simp
  from float_literal(2) consider "sg = []" | "sg = [45]" by blast
  then show ?thesis
    by cases (use ds d45 w zero some parts in
      \<open>auto simp: jnumber_def float_literal(1) simp del: takeWhile.simps dropWhile.simps\<close>)
qed

lemma jscalar_floats:
  "jscalar rt (lit ''NaN'' @ r) = Inr (JFloat NotANumber, r)"
  "jscalar rt (lit ''Infinity'' @ r) = Inr (JFloat PosInf, r)"
  "jscalar rt (lit ''-Infinity'' @ r) = Inr (JFloat NegInf, r)"
  by (simp_all add: jscalar_def starts_with_def lit_def)

text \<open>A float literal starts with a digit, or with a sign and a digit: it is no word and no container.\<close>

lemma float_literal_first:
  assumes "float_literal t"
  obtains d rs where "is_digit d" "t = d # rs \<or> t = 45 # d # rs"
  using assms
proof cases
  case (float_literal sg ds fr ex)
  then obtain d rs where "ds = d # rs" "is_digit d" using digits_Cons by blast
  with float_literal(1,2) show ?thesis by (intro that [of d "rs @ fr @ ex"]) auto
qed

lemma jscalar_float_text:
  assumes "float_reads rt f" "delimiter r"
  shows "jscalar rt (float_text rt f @ r) = Inr (JFloat f, r)"
proof (cases f)
  case (Fin q)
  then have f: "float_literal (rt_float_repr rt f)" "rt_float_of rt (rt_float_repr rt f) = f"
    using assms(1) by (simp_all add: float_reads_def)
  obtain d rs where d: "is_digit d" "rt_float_repr rt f = d # rs \<or> rt_float_repr rt f = 45 # d # rs"
    by (rule float_literal_first [OF f(1)])
  have "jscalar rt (rt_float_repr rt f @ r) = jnumber rt (rt_float_repr rt f @ r)"
    using d by (auto simp: jscalar_def lit_Cons starts_with_def is_digit_def)
  also have "\<dots> = Inr (JFloat f, r)" using jnumber_float [OF f(1) assms(2), of rt] f(2) by simp
  finally show ?thesis using Fin by (simp add: float_text_def)
qed (simp_all add: float_text_def jscalar_floats)

lemma float_text_first:
  assumes "float_reads rt f"
  obtains c t where "float_text rt f = c # t" "c \<in> {78, 73, 45} \<or> is_digit c"
proof (cases f)
  case (Fin q)
  then have "float_literal (rt_float_repr rt f)" using assms by (simp add: float_reads_def)
  then obtain d rs where "is_digit d" "rt_float_repr rt f = d # rs \<or> rt_float_repr rt f = 45 # d # rs"
    by (rule float_literal_first)
  with Fin that show ?thesis by (auto simp: float_text_def)
qed (use that in \<open>auto simp: float_text_def lit_Cons\<close>)

section \<open>Values\<close>

text \<open>
  The values the round trip is for: integers the decoder's digit limit admits, dictionaries with
  distinct keys, as every \<^verbatim>\<open>dict\<close> has, and floats that the runtime reads back; \<open>plain\<close> values have no floats
  and need nothing of the runtime.
\<close>

fun plain :: "json \<Rightarrow> bool" where
  "plain (JFloat f) \<longleftrightarrow> False"
| "plain (JInt i) \<longleftrightarrow> int_ok i"
| "plain (JList xs) \<longleftrightarrow> (\<forall>x \<in> set xs. plain x)"
| "plain (JDict d) \<longleftrightarrow> distinct (map fst d) \<and> (\<forall>m \<in> set d. plain (snd m))"
| "plain _ \<longleftrightarrow> True"

fun printable :: "runtime \<Rightarrow> json \<Rightarrow> bool" where
  "printable rt (JFloat f) \<longleftrightarrow> float_reads rt f"
| "printable rt (JInt i) \<longleftrightarrow> int_ok i"
| "printable rt (JList xs) \<longleftrightarrow> (\<forall>x \<in> set xs. printable rt x)"
| "printable rt (JDict d) \<longleftrightarrow> distinct (map fst d) \<and> (\<forall>m \<in> set d. printable rt (snd m))"
| "printable rt _ \<longleftrightarrow> True"

lemma plain_printable: "plain v \<Longrightarrow> printable rt v"
  by (induction v rule: plain.induct) auto

lemma foldl_update_distinct:
  "distinct (map fst (d @ ms)) \<Longrightarrow> foldl (\<lambda>d (k, v). AList.update k v d) d ms = d @ ms"
proof (induction ms arbitrary: d)
  case Nil
  then show ?case by simp
next
  case (Cons m ms)
  obtain k v where m: "m = (k, v)" by fastforce
  with Cons.prems have "k \<notin> fst ` set d" by auto
  then have "AList.update k v d = d @ [(k, v)]" by (induction d) auto
  with Cons m show ?case by simp
qed

text \<open>The first character of a printed value: no white space, no closing bracket.\<close>

lemma dumps_first:
  assumes "printable rt v"
  obtains c t where "dumps rt compact_format v = c # t" "\<not> json_space c" "c \<noteq> 93" "c \<noteq> 125" "c < 128"
proof (cases v)
  case (JFloat f)
  then have "float_reads rt f" using assms by simp
  then obtain c t where "float_text rt f = c # t" "c \<in> {78, 73, 45} \<or> is_digit c" by (rule float_text_first)
  then show ?thesis using that JFloat by (auto simp: json_space_def is_digit_def)
next
  case (JInt i)
  obtain c ds where "show_nat (nat i) = c # ds" "is_digit c" by (rule show_nat_Cons [of "nat i"])
  then show ?thesis
    using that JInt by (cases "i < 0") (auto simp: show_int_def json_space_def is_digit_def)
next
  case (JBool b)
  then show ?thesis using that by (cases b) (auto simp: lit_Cons json_space_def)
qed (use that assms in \<open>auto simp: lit_Cons json_space_def quoted_def\<close>)

lemma jws_Cons [simp]: "\<not> json_space c \<Longrightarrow> jws (c # r) = c # r"
  by (simp add: jws_def)

lemma jscalar_words:
  "jscalar rt (lit ''null'' @ r) = Inr (JNull, r)"
  "jscalar rt (lit ''true'' @ r) = Inr (JBool True, r)"
  "jscalar rt (lit ''false'' @ r) = Inr (JBool False, r)"
  by (simp_all add: jscalar_def starts_with_def lit_def)

lemma jvalue_scalar:
  "s \<noteq> [] \<Longrightarrow> hd s \<notin> {34, 91, 123} \<Longrightarrow> 0 < n \<Longrightarrow> jvalue rt n s = jscalar rt s"
  by (cases n; cases s) auto

lemma jvalue_words:
  assumes "0 < n"
  shows "jvalue rt n (lit ''null'' @ r) = Inr (JNull, r)"
    "jvalue rt n (lit ''true'' @ r) = Inr (JBool True, r)"
    "jvalue rt n (lit ''false'' @ r) = Inr (JBool False, r)"
  using assms jscalar_words [of rt r] jvalue_scalar [of _ n rt] by (auto simp: lit_Cons)

lemma float_text_hd:
  assumes "float_reads rt f"
  shows "float_text rt f \<noteq> [] \<and> hd (float_text rt f @ r) \<notin> {34, 91, 123}"
proof -
  obtain c t where "float_text rt f = c # t" "c \<in> {78, 73, 45} \<or> is_digit c" by (rule float_text_first [OF assms])
  then show ?thesis by (auto simp: is_digit_def)
qed

lemma show_int_hd: "show_int i \<noteq> [] \<and> hd (show_int i @ r) \<notin> {34, 91, 123}"
proof -
  obtain c ds where "show_nat (nat \<bar>i\<bar>) = c # ds" "is_digit c" by (rule show_nat_Cons)
  then show ?thesis by (auto simp: show_int_def is_digit_def)
qed

text \<open>One level of a container, given how its contents are read.\<close>

lemma jvalue_list_step:
  assumes "printable rt x" "jitems rt m (dumps_items rt compact_format (x # ys) @ 93 # r) = Inr (x # ys, r)"
  shows "jvalue rt (Suc m) (dumps rt compact_format (JList (x # ys)) @ r) = Inr (JList (x # ys), r)"
proof -
  obtain c t where f: "dumps rt compact_format x = c # t" "\<not> json_space c" "c \<noteq> 93"
    using dumps_first [OF assms(1)] by metis
  then obtain t' where "dumps_items rt compact_format (x # ys) @ 93 # r = c # t'" by (cases ys) auto
  with assms(2) f show ?thesis by (simp add: starts_with_def)
qed

lemma jvalue_dict_step:
  assumes "distinct (map fst (m # d))"
    and "jmembers rt n (dumps_members rt compact_format (m # d) @ 125 # r) = Inr (m # d, r)"
  shows "jvalue rt (Suc n) (dumps rt compact_format (JDict (m # d)) @ r) = Inr (JDict (m # d), r)"
proof -
  obtain t where t: "dumps_members rt compact_format (m # d) @ 125 # r = 34 # t"
    by (cases m; cases d) (auto simp: quoted_def)
  moreover have "foldl (\<lambda>d (k, v). AList.update k v d) [] (m # d) = m # d"
    using foldl_update_distinct [of "[]" "m # d"] assms(1) by simp
  ultimately show ?thesis using assms(2) by (simp add: starts_with_def json_space_def)
qed

lemma jitems_step:
  assumes "printable rt y"
    and "jvalue rt m (dumps rt compact_format x @ 44 # dumps_items rt compact_format (y # xs) @ 93 # r) =
      Inr (x, 44 # dumps_items rt compact_format (y # xs) @ 93 # r)"
    and "jitems rt m (dumps_items rt compact_format (y # xs) @ 93 # r) = Inr (y # xs, r)"
  shows "jitems rt (Suc m) (dumps_items rt compact_format (x # y # xs) @ 93 # r) = Inr (x # y # xs, r)"
proof -
  obtain c t where "dumps rt compact_format y = c # t" "\<not> json_space c"
    using dumps_first [OF assms(1)] by metis
  then have "jws (dumps_items rt compact_format (y # xs) @ 93 # r) = dumps_items rt compact_format (y # xs) @ 93 # r"
    by (cases xs) auto
  moreover have "item_separator compact_format = [44]" by (simp add: compact_format_def)
  ultimately show ?thesis using assms(2,3) by (simp add: json_space_def)
qed

lemma jmembers_step:
  assumes "printable rt v"
    and "jvalue rt m (dumps rt compact_format v @ 44 # dumps_members rt compact_format (q # d) @ 125 # r) =
      Inr (v, 44 # dumps_members rt compact_format (q # d) @ 125 # r)"
    and "jmembers rt m (dumps_members rt compact_format (q # d) @ 125 # r) = Inr (q # d, r)"
  shows "jmembers rt (Suc m) (dumps_members rt compact_format ((k, v) # q # d) @ 125 # r) = Inr ((k, v) # q # d, r)"
proof -
  have *: "item_separator compact_format = [44]" "key_separator compact_format = [58]" "ensure_ascii compact_format = False"
    by (simp_all add: compact_format_def)
  let ?rest = "dumps_members rt compact_format (q # d) @ 125 # r"
  obtain c t where "dumps rt compact_format v = c # t" "\<not> json_space c"
    using dumps_first [OF assms(1)] by metis
  moreover have "jws ?rest = ?rest"
    by (cases q; cases d) (auto simp: quoted_def json_space_def)
  ultimately show ?thesis using assms(2,3)
    by (simp add: * quoted_def jstring_quoted json_space_def del: dumps_members.simps)
       (simp add: * quoted_def jstring_quoted json_space_def)
qed

lemma jvalue_dumps:
  fixes v :: json and xs :: "json list" and ms :: "(pystr \<times> json) list"
  shows "fm = compact_format \<Longrightarrow> printable rt v \<Longrightarrow> delimiter r \<Longrightarrow> 2 * length (dumps rt fm v @ r) < n \<Longrightarrow>
      jvalue rt n (dumps rt fm v @ r) = Inr (v, r)"
    and "fm = compact_format \<Longrightarrow> xs \<noteq> [] \<Longrightarrow> \<forall>x \<in> set xs. printable rt x \<Longrightarrow>
      2 * length (dumps_items rt fm xs @ 93 # r) + 1 < n \<Longrightarrow>
      jitems rt n (dumps_items rt fm xs @ 93 # r) = Inr (xs, r)"
    and "fm = compact_format \<Longrightarrow> ms \<noteq> [] \<Longrightarrow> \<forall>m \<in> set ms. printable rt (snd m) \<Longrightarrow>
      2 * length (dumps_members rt fm ms @ 125 # r) + 1 < n \<Longrightarrow>
      jmembers rt n (dumps_members rt fm ms @ 125 # r) = Inr (ms, r)"
proof (induction rt fm v and rt fm xs and rt fm ms arbitrary: n r and n r and n r
    rule: dumps_dumps_items_dumps_members.induct)
  case (3 rt fm i)
  then show ?case
    using show_int_hd [of i r] by (subst jvalue_scalar) (auto simp: jscalar_show_int)
next
  case (4 rt fm f)
  then show ?case
    using float_text_hd [of rt f r] by (subst jvalue_scalar) (auto simp: jscalar_float_text)
next
  case (5 rt fm s)
  then show ?case
    by (cases n) (auto simp: quoted_def compact_format_def jstring_quoted)
next
  case (6 rt fm xs)
  obtain m where n: "n = Suc m" using "6.prems"(4) by (cases n) auto
  show ?case
  proof (cases xs)
    case Nil
    then show ?thesis by (simp add: n jws_def json_space_def starts_with_def)
  next
    case (Cons x ys)
    then have "jitems rt m (dumps_items rt fm xs @ 93 # r) = Inr (xs, r)"
      using 6 n by (intro "6.IH") auto
    with Cons 6(2,3) show ?thesis unfolding n by (simp only: jvalue_list_step printable.simps list.set_intros)
  qed
next
  case (7 rt fm d)
  obtain m where n: "n = Suc m" using "7.prems"(4) by (cases n) auto
  show ?case
  proof (cases d)
    case Nil
    then show ?thesis by (simp add: n jws_def json_space_def starts_with_def)
  next
    case (Cons x ys)
    then have "jmembers rt m (dumps_members rt fm d @ 125 # r) = Inr (d, r)"
      using 7 n by (intro "7.IH") auto
    with Cons 7(2,3) show ?thesis unfolding n by (simp only: jvalue_dict_step printable.simps)
  qed
next
  case (9 rt fm x)
  then obtain m where n: "n = Suc m" by (cases n) auto
  have "jvalue rt m (dumps rt fm x @ 93 # r) = Inr (x, 93 # r)"
    using 9 n by (intro "9.IH") auto
  then show ?case by (simp add: n json_space_def)
next
  case (10 rt fm x y xs)
  then obtain m where n: "n = Suc m" by (cases n) auto
  have *: "item_separator fm = [44]" using 10 by (simp add: compact_format_def)
  have "jvalue rt m (dumps rt fm x @ 44 # dumps_items rt fm (y # xs) @ 93 # r) =
      Inr (x, 44 # dumps_items rt fm (y # xs) @ 93 # r)"
    using 10 n * by (intro "10.IH"(1)) auto
  moreover have "jitems rt m (dumps_items rt fm (y # xs) @ 93 # r) = Inr (y # xs, r)"
    using 10 n * by (intro "10.IH"(2)) auto
  ultimately show ?case using jitems_step [of rt y] 10(3,5) n by simp
next
  case (12 rt fm k v)
  then obtain m where n: "n = Suc m" by (cases n) auto
  have *: "key_separator fm = [58]" "ensure_ascii fm = False" using 12 by (simp_all add: compact_format_def)
  have "jvalue rt m (dumps rt fm v @ 125 # r) = Inr (v, 125 # r)"
    using 12 n * by (intro "12.IH") (auto simp: quoted_def)
  moreover obtain c t where "dumps rt fm v = c # t" "\<not> json_space c"
    using 12 dumps_first [of rt v] by (metis list.set_intros(1) snd_conv)
  ultimately show ?case
    by (simp add: n * quoted_def jstring_quoted json_space_def)
next
  case (13 rt fm k v q d)
  then obtain m where n: "n = Suc m" by (cases n) auto
  have *: "item_separator fm = [44]" "key_separator fm = [58]" "ensure_ascii fm = False"
    using 13 by (simp_all add: compact_format_def)
  let ?rest = "dumps_members rt fm (q # d) @ 125 # r"
  have "jvalue rt m (dumps rt fm v @ 44 # ?rest) = Inr (v, 44 # ?rest)"
    using 13 n * by (intro "13.IH"(1)) (auto simp: quoted_def)
  moreover have "jmembers rt m ?rest = Inr (q # d, r)"
    using 13 n * by (intro "13.IH"(2)) (auto simp: quoted_def)
  ultimately show ?case using jmembers_step [of rt v] 13(3,5) n by simp
qed (simp_all add: jvalue_words)

lemma loads_printed:
  assumes "printable rt v"
  shows "loads rt (dumps rt compact_format v) = Inr v"
proof -
  obtain c t where f: "dumps rt compact_format v = c # t" "\<not> json_space c" "c < 128"
    using dumps_first [OF assms] by metis
  have "jvalue rt (2 * length (dumps rt compact_format v) + 2) (dumps rt compact_format v @ []) = Inr (v, [])"
    using assms by (intro jvalue_dumps) auto
  moreover have "\<not> starts_with [0xFEFF] (dumps rt compact_format v)"
    using f by (simp add: starts_with_def)
  ultimately show ?thesis
    using f by (simp add: loads_def loads_text_def jws_def)
qed

lemmas loads_dumps = loads_printed [OF plain_printable]

section \<open>The recursion bound\<close>

lemma length_jws: "length (jws s) \<le> length s"
  by (simp add: jws_def length_dropWhile_le)

lemma jstring_shorter: "jstring s = Some (t, r) \<Longrightarrow> length r < length s"
  by (induction s arbitrary: t r rule: jstring.induct)
    (fastforce split: if_splits list.splits option.splits)+

lemma jfraction_shorter: "jfraction s = (t, r) \<Longrightarrow> length r \<le> length s"
  by (auto simp: jfraction_def le_Suc_eq length_dropWhile_le split: list.splits if_splits
      intro: le_SucI)

lemma jexponent_shorter: "jexponent s = (t, r) \<Longrightarrow> length r \<le> length s"
  unfolding jexponent_def
  by (auto split: list.splits if_splits prod.splits intro: le_SucI length_dropWhile_le)

lemma jnumber_shorter:
  assumes "jnumber rt s = Inr (v, r)"
  shows "length r < length s"
proof -
  define u where "u = (case s of c # r \<Rightarrow> if c = 45 then r else s | [] \<Rightarrow> s)"
  have us: "length u \<le> length s" by (auto simp: u_def split: list.splits)
  from assms obtain c t where u: "u = c # t"
    by (auto simp: jnumber_def u_def split: list.splits if_splits)
  define r1 where "r1 = (if c = 48 then t else dropWhile is_digit u)"
  have d: "is_digit c"
    using assms u by (auto simp: jnumber_def u_def split: list.splits if_splits)
  then have r1: "length r1 \<le> length t"
    by (auto simp: r1_def u length_dropWhile_le)
  obtain fr r2 where fr: "jfraction r1 = (fr, r2)" by fastforce
  obtain ex r3 where ex: "jexponent r2 = (ex, r3)" by fastforce
  have "r = r3"
    using assms u d fr ex unfolding jnumber_def r1_def u_def
    by (auto simp: Let_def split: list.splits if_splits)
  with jfraction_shorter [OF fr] jexponent_shorter [OF ex] r1 u us show ?thesis by simp
qed

lemma jnumber_error: "jnumber rt s = Inl k \<Longrightarrow> k = JSONDecodeError \<or> k = ValueError"
  by (auto simp: jnumber_def Let_def split: list.splits if_splits prod.splits)

lemma starts_with_length: "starts_with p s \<Longrightarrow> length p \<le> length s"
  by (auto simp: text_simps)

lemma jscalar_shorter: "jscalar rt s = Inr (v, r) \<Longrightarrow> length r < length s"
  by (auto simp: jscalar_def dest!: starts_with_length dest: jnumber_shorter split: if_splits)

lemma jscalar_error: "jscalar rt s = Inl k \<Longrightarrow> k \<noteq> RuntimeError"
  by (auto simp: jscalar_def dest: jnumber_error split: if_splits)

lemma parse_shorter:
  shows "jvalue rt n s = Inr (v, r) \<Longrightarrow> length r < length s"
    and "jitems rt n s = Inr (vs, r) \<Longrightarrow> length r < length s"
    and "jmembers rt n s = Inr (ms, r) \<Longrightarrow> length r < length s"
proof (induction rt n s and rt n s and rt n s arbitrary: v r and vs r and ms r
    rule: jvalue_jitems_jmembers.induct)
  case (2 rt n s)
  obtain c t where s: "s = c # t" using "2.prems" by (cases s) auto
  show ?case
    using "2.prems" "2.IH" length_jws [of t]
    by (fastforce simp: s res_simps dest: jstring_shorter jscalar_shorter split: if_splits option.splits)
next
  case (4 rt n s)
  from "4.prems" obtain v r1 where v: "jvalue rt n s = Inr (v, r1)"
    by (auto simp: res_simps)
  with "4.prems" obtain c r2 where j: "jws r1 = c # r2" by (cases "jws r1") auto
  with "4.prems" v have rest: "c = 93 \<and> r = r2 \<or> c = 44 \<and> (\<exists>vs'. jitems rt n (jws r2) = Inr (vs', r))"
    by (auto simp: res_simps split: if_splits)
  have "length r1 < length s" by (rule "4.IH"(1) [OF v])
  with j length_jws [of r1] have "length r2 < length s" by simp
  with rest "4.IH"(2) v j length_jws [of r2] show ?case by fastforce
next
  case (6 rt n s)
  from "6.prems" obtain t k r1 r2 where s: "s = 34 # t" and k: "jstring t = Some (k, r1)"
    and j: "jws r1 = 58 # r2"
    by (auto split: list.splits if_splits option.splits)
  with "6.prems" obtain v r3 where v: "jvalue rt n (jws r2) = Inr (v, r3)"
    by (auto simp: res_simps)
  with "6.prems" s k j obtain c4 r4 where j3: "jws r3 = c4 # r4" by (cases "jws r3") auto
  with "6.prems" s k j v
  have rest: "c4 = 125 \<and> r = r4 \<or> c4 = 44 \<and> (\<exists>ms'. jmembers rt n (jws r4) = Inr (ms', r))"
    by (auto simp: res_simps split: if_splits)
  have "length r3 < length (jws r2)"
    using "6.IH"(1) s k j v by auto
  with s jstring_shorter [OF k] j length_jws [of r1] length_jws [of r2] length_jws [of r3] j3
  have "length r4 < length s" by simp
  with rest "6.IH"(2) s k j v j3 length_jws [of r4] show ?case by fastforce
qed auto

lemma parse_fuel:
  shows "2 * length s < n \<Longrightarrow> jvalue rt n s \<noteq> Inl RuntimeError"
    and "2 * length s + 1 < n \<Longrightarrow> jitems rt n s \<noteq> Inl RuntimeError"
    and "2 * length s + 1 < n \<Longrightarrow> jmembers rt n s \<noteq> Inl RuntimeError"
proof (induction rt n s and rt n s and rt n s rule: jvalue_jitems_jmembers.induct)
  case (2 rt n s)
  show ?case
  proof (cases s)
    case Nil
    then show ?thesis by simp
  next
    case (Cons c t)
    have "2 * length (jws t) + 1 < n" using length_jws [of t] "2.prems" Cons by simp
    with "2.IH" Cons show ?thesis
      by (auto simp: res_simps dest: jscalar_error split: option.splits)
  qed
next
  case (4 rt n s)
  have rec: "jitems rt n (jws r2) \<noteq> Inl RuntimeError"
    if "jvalue rt n s = Inr (v, r1)" "jws r1 = 44 # r2" for v r1 r2
    using that "4.IH"(2) parse_shorter(1) [OF that(1)] length_jws [of r1] length_jws [of r2] "4.prems"
    by fastforce
  from "4.IH"(1) "4.prems" have "jvalue rt n s \<noteq> Inl RuntimeError" by simp
  with rec show ?case
    by (auto simp: res_simps split: list.splits)
next
  case (6 rt n s)
  have v: "jvalue rt n (jws r2) \<noteq> Inl RuntimeError"
    if "s = 34 # t" "jstring t = Some (k, r1)" "jws r1 = 58 # r2" for t k r1 r2
    using that "6.IH"(1) jstring_shorter [OF that(2)] length_jws [of r1] length_jws [of r2] "6.prems"
    by fastforce
  have rec: "jmembers rt n (jws r4) \<noteq> Inl RuntimeError"
    if "s = 34 # t" "jstring t = Some (k, r1)" "jws r1 = 58 # r2"
      "jvalue rt n (jws r2) = Inr (v, r3)" "jws r3 = 44 # r4" for t k r1 r2 v r3 r4
    using that "6.IH"(2) parse_shorter(1) [OF that(4)] jstring_shorter [OF that(2)] length_jws [of r1]
      length_jws [of r2] length_jws [of r3] length_jws [of r4] "6.prems"
    by fastforce
  show ?case using v rec
    by (auto simp: res_simps split: list.splits option.splits)
qed auto

text \<open>The bound that \<open>loads\<close> passes is enough: an exhausted recursion is never its answer.\<close>

lemma loads_text_total: "loads_text rt s \<noteq> Inl RuntimeError"
proof -
  have "jvalue rt (2 * length s + 2) (jws s) \<noteq> Inl RuntimeError"
    using length_jws [of s] by (intro parse_fuel) simp
  then show ?thesis by (auto simp: loads_text_def res_simps split: if_splits)
qed

section \<open>Through UTF-8\<close>

lemma utf8_encode_Cons_ascii:
  assumes "utf8_encode (c # s) = Some bs" "c < 128"
  obtains t where "bs = of_nat c # t" "utf8_encode s = Some t"
  using assms that by (auto simp: utf8_encode_def utf8_cp_def to_bytes_def split: if_splits)

lemma dumps_dict_start:
  obtains c t where "dumps rt fm (JDict d) = 123 # c # t" "c = 34 \<or> c = 125"
proof (cases d)
  case Nil
  then show ?thesis using that by simp
next
  case (Cons m ms)
  then show ?thesis using that by (cases m; cases ms) (auto simp: quoted_def)
qed

lemma dumps_dict_nonempty:
  assumes "utf8_encode (dumps rt fm (JDict d)) = Some payload"
  shows "payload \<noteq> []"
proof -
  obtain c t where "dumps rt fm (JDict d) = 123 # c # t" by (rule dumps_dict_start)
  with assms have "utf8_encode (123 # c # t) = Some payload" by simp
  then show ?thesis by (rule utf8_encode_Cons_ascii) auto
qed

lemma loads_bytes_dumps:
  assumes "utf8_encode (dumps rt compact_format (JDict d)) = Some bs" "plain (JDict d)"
  shows "loads_bytes rt bs = Inr (JDict d)"
proof -
  obtain c t where s: "dumps rt compact_format (JDict d) = 123 # c # t" "c = 34 \<or> c = 125"
    by (rule dumps_dict_start)
  then obtain t' where bs: "bs = 123 # of_nat c # t'"
    using assms(1) by (auto elim!: utf8_encode_Cons_ascii)
  have "json_decode_bytes bs = utf8_decode_pass bs"
    using s(2) by (auto simp: json_decode_bytes_def bs of_bytes_def starts_with_def)
  also have "\<dots> = Some (dumps rt compact_format (JDict d))"
    by (rule utf8_decode_encode(2) [OF assms(1)])
  finally show ?thesis
    using loads_dumps [OF assms(2)] by (simp add: loads_bytes_def del: dumps.simps)
qed

section \<open>Which values can be encoded\<close>

text \<open>The characters of the strings and keys of a value: its text can be encoded iff these can.\<close>

fun json_text :: "json \<Rightarrow> pystr"
  and text_items :: "json list \<Rightarrow> pystr"
  and text_members :: "(pystr \<times> json) list \<Rightarrow> pystr" where
  "json_text (JStr s) = s"
| "json_text (JList xs) = text_items xs"
| "json_text (JDict d) = text_members d"
| "json_text _ = []"
| "text_items [] = []"
| "text_items (x # xs) = json_text x @ text_items xs"
| "text_members [] = []"
| "text_members ((k, v) # d) = k @ json_text v @ text_members d"

lemma ascii_scalar: "c < 128 \<Longrightarrow> is_scalar c"
  by (simp add: is_scalar_def is_surrogate_def)

lemma escape_scalar: "list_all is_scalar (escape_cp False c) \<longleftrightarrow> is_scalar c"
  by (auto simp: escape_cp_def u_escape_def ascii_scalar hex_digit_def)

lemma quoted_scalar: "list_all is_scalar (quoted False s) \<longleftrightarrow> list_all is_scalar s"
proof -
  have "list_all is_scalar (concat (map (escape_cp False) s)) \<longleftrightarrow> list_all is_scalar s"
    by (induction s) (simp_all add: escape_scalar)
  then show ?thesis by (simp add: quoted_def ascii_scalar)
qed

lemma show_int_scalar: "list_all is_scalar (show_int i)"
proof -
  have "list_all is_scalar (show_nat n)" for n
    using show_nat_digits [of n] by (auto simp: list_all_iff is_digit_def intro!: ascii_scalar)
  then show ?thesis by (simp add: show_int_def ascii_scalar)
qed

lemma dumps_scalar:
  fixes v :: json and xs :: "json list" and ms :: "(pystr \<times> json) list"
  shows "fm = compact_format \<Longrightarrow> plain v \<Longrightarrow> list_all is_scalar (dumps rt fm v) \<longleftrightarrow> list_all is_scalar (json_text v)"
    and "fm = compact_format \<Longrightarrow> \<forall>x \<in> set xs. plain x \<Longrightarrow>
      list_all is_scalar (dumps_items rt fm xs) \<longleftrightarrow> list_all is_scalar (text_items xs)"
    and "fm = compact_format \<Longrightarrow> \<forall>m \<in> set ms. plain (snd m) \<Longrightarrow>
      list_all is_scalar (dumps_members rt fm ms) \<longleftrightarrow> list_all is_scalar (text_members ms)"
  by (induction rt fm v and rt fm xs and rt fm ms rule: dumps_dumps_items_dumps_members.induct)
    (simp_all add: quoted_scalar show_int_scalar ascii_scalar compact_format_def lit_def)

lemma utf8_encode_dumps:
  "plain v \<Longrightarrow> (\<exists>bs. utf8_encode (dumps rt compact_format v) = Some bs) \<longleftrightarrow> list_all is_scalar (json_text v)"
  by (simp add: utf8_encode_def dumps_scalar(1) del: dumps.simps)

text \<open>The compact text of a value is one line.\<close>

lemma quoted_line: "10 \<notin> set (quoted False s)"
proof -
  have "10 \<notin> set (escape_cp False c)" for c by (auto simp: escape_cp_def u_escape_def hex_digit_def)
  then show ?thesis by (simp add: quoted_def)
qed

lemma show_int_line: "10 \<notin> set (show_int i)"
proof -
  have "10 \<notin> set (show_nat n)" for n using show_nat_digits [of n] by (auto simp: is_digit_def)
  then show ?thesis by (simp add: show_int_def)
qed

lemma dumps_line:
  fixes v :: json and xs :: "json list" and ms :: "(pystr \<times> json) list"
  shows "fm = compact_format \<Longrightarrow> plain v \<Longrightarrow> 10 \<notin> set (dumps rt fm v)"
    and "fm = compact_format \<Longrightarrow> \<forall>x \<in> set xs. plain x \<Longrightarrow> 10 \<notin> set (dumps_items rt fm xs)"
    and "fm = compact_format \<Longrightarrow> \<forall>m \<in> set ms. plain (snd m) \<Longrightarrow> 10 \<notin> set (dumps_members rt fm ms)"
  by (induction rt fm v and rt fm xs and rt fm ms rule: dumps_dumps_items_dumps_members.induct)
    (simp_all add: quoted_line show_int_line compact_format_def lit_def)

end
