(* ===== verification/Helper_Errors.thy ===== *)
theory Helper_Errors
  imports Py_Json_Props
begin

text \<open>
  \<^verbatim>\<open>helper/errors.py\<close>: the two exception classes are the constructors of \<open>exn\<close> in the prelude;
  here are their default arguments, \<^verbatim>\<open>str(exc)\<close>, the attributes the handlers read, and the
  messages of the helper. The messages are Chinese; each is written in code points, with its
  meaning beside it.
\<close>

text \<open>\<^verbatim>\<open>HelperError(message)\<close>: status 502 and the code \<^verbatim>\<open>upstream_error\<close>.\<close>

definition helper_error :: "pystr \<Rightarrow> exn" where
  "helper_error message = HelperError message 502 (lit ''upstream_error'')"

text \<open>\<^verbatim>\<open>UpstreamError.__init__\<close> passes the code \<^verbatim>\<open>upstream_error\<close> on to its base class.\<close>

fun exn_code :: "exn \<Rightarrow> pystr option" where
  "exn_code (HelperError message status code) = Some code"
| "exn_code (UpstreamError message status retry) = Some (lit ''upstream_error'')"
| "exn_code (PyError k message) = None"

fun exn_status :: "exn \<Rightarrow> int option" where
  "exn_status (HelperError message status code) = Some status"
| "exn_status (UpstreamError message status retry) = Some status"
| "exn_status (PyError k message) = None"

fun exn_str :: "exn \<Rightarrow> pystr" where
  "exn_str (HelperError message status code) = message"
| "exn_str (UpstreamError message status retry) = message"
| "exn_str (PyError k message) = message"

text \<open>\<^verbatim>\<open>isinstance(exc, HelperError)\<close>, which \<^verbatim>\<open>except HelperError\<close> tests.\<close>

fun is_helper_error :: "exn \<Rightarrow> bool" where
  "is_helper_error (PyError k message) = False"
| "is_helper_error _ = True"

section \<open>Messages\<close>

definition msg_total_timeout :: pystr where \<comment> \<open>the request's total time is over (helper/control.py)\<close>
  "msg_total_timeout = lit ''ChatGPT '' @
     [0x7F51, 0x9875, 0x751F, 0x56FE, 0x8BF7, 0x6C42, 0x603B, 0x8D85, 0x65F6]"

definition msg_cancelled :: pystr where \<comment> \<open>the request has been cancelled (helper/control.py)\<close>
  "msg_cancelled = lit ''ChatGPT '' @
     [0x7F51, 0x9875, 0x751F, 0x56FE, 0x8BF7, 0x6C42, 0x5DF2, 0x53D6, 0x6D88]"

definition msg_no_credentials :: pystr where \<comment> \<open>no credential in the request (helper/protocol.py)\<close>
  "msg_no_credentials = lit ''CPA '' @ [0x4E2D, 0x6CA1, 0x6709, 0x53EF, 0x7528, 0x51ED, 0x8BC1]"

definition msg_bad_json :: pystr where \<comment> \<open>prefix: the request's JSON is invalid\<close>
  "msg_bad_json = [0x8BF7, 0x6C42] @ lit '' JSON '' @ [0x65E0, 0x6548] @ lit '': ''"

definition msg_empty_prompt :: pystr where \<comment> \<open>the prompt is empty\<close>
  "msg_empty_prompt = lit ''prompt '' @ [0x4E0D, 0x80FD, 0x4E3A, 0x7A7A]"

definition msg_bad_n :: pystr where \<comment> \<open>n is not between 1 and 4\<close>
  "msg_bad_n = lit ''n '' @ [0x5FC5, 0x987B, 0x5728] @ lit '' 1 '' @ [0x5230] @ lit '' 4 '' @
     [0x4E4B, 0x95F4]"

definition msg_no_image :: pystr where \<comment> \<open>an edit without an image\<close>
  "msg_no_image = [0x56FE, 0x7247, 0x7F16, 0x8F91, 0x8BF7, 0x6C42, 0x7F3A, 0x5C11] @ lit '' image''"

definition msg_wait_timeout :: pystr where \<comment> \<open>time over while waiting for a credential or the generation\<close>
  "msg_wait_timeout = [0x7B49, 0x5F85, 0x53EF, 0x7528] @ lit '' CPA '' @
     [0x51ED, 0x8BC1, 0x6216, 0x7F51, 0x9875, 0x751F, 0x56FE, 0x6267, 0x884C, 0x8D85, 0x65F6]"

definition msg_all_busy :: pystr where \<comment> \<open>every credential is busy or unavailable\<close>
  "msg_all_busy = [0x5168, 0x90E8] @ lit '' CPA '' @
     [0x51ED, 0x8BC1, 0x5747, 0x5FD9, 0x788C, 0x6216, 0x4E0D, 0x53EF, 0x7528]"

definition msg_no_conversation :: pystr where \<comment> \<open>the stream named no conversation\<close>
  "msg_no_conversation = [0x4E0A, 0x6E38] @ lit '' SSE '' @ [0x672A, 0x8FD4, 0x56DE] @ lit '' conversation_id''"

definition msg_no_result :: pystr where \<comment> \<open>the upstream finished without an image\<close>
  "msg_no_result = [0x4E0A, 0x6E38, 0x5B8C, 0x6210, 0x4F46, 0x672A, 0x53D6, 0x5F97, 0x56FE, 0x7247, 0x7ED3, 0x679C]"

definition msg_request_failed :: pystr where \<comment> \<open>prefix: the web request failed\<close>
  "msg_request_failed = lit ''ChatGPT '' @ [0x7F51, 0x9875, 0x8BF7, 0x6C42, 0x5931, 0x8D25] @ lit '': ''"

definition msg_invalid_credential :: pystr where \<comment> \<open>the credential is no longer valid (helper/backend.py)\<close>
  "msg_invalid_credential = lit ''CPA '' @ [0x51ED, 0x8BC1, 0x5DF2, 0x5931, 0x6548]"

definition msg_rejected :: pystr where \<comment> \<open>prefix: the upstream rejected the request\<close>
  "msg_rejected = lit ''ChatGPT '' @ [0x62D2, 0x7EDD, 0x7F51, 0x9875, 0x8BF7, 0x6C42] @ lit '': ''"

definition msg_rate_limited :: pystr where \<comment> \<open>the account's quota is used up\<close>
  "msg_rate_limited = lit ''ChatGPT '' @ [0x7F51, 0x9875, 0x751F, 0x56FE, 0x989D, 0x5EA6, 0x53D7, 0x9650]"

definition msg_http_failed :: pystr where \<comment> \<open>infix: request failed with an HTTP status\<close>
  "msg_http_failed = lit '' '' @ [0x8BF7, 0x6C42, 0x5931, 0x8D25] @ lit '': HTTP ''"

definition msg_arkose :: pystr where \<comment> \<open>the upstream asks for an Arkose challenge\<close>
  "msg_arkose = [0x4E0A, 0x6E38, 0x8981, 0x6C42] @ lit '' Arkose '' @
     [0x9A8C, 0x8BC1, 0xFF0C, 0x9996, 0x7248, 0x63D2, 0x4EF6, 0x6682, 0x4E0D, 0x5904, 0x7406]"

definition msg_no_token :: pystr where \<comment> \<open>no requirements token\<close>
  "msg_no_token = lit ''Sentinel finalize '' @ [0x672A, 0x8FD4, 0x56DE] @ lit '' requirements token''"

definition msg_poll_invalid :: pystr where \<comment> \<open>the credential became invalid while polling\<close>
  "msg_poll_invalid = lit ''CPA '' @
     [0x51ED, 0x8BC1, 0x5728, 0x56FE, 0x7247, 0x8F6E, 0x8BE2, 0x9636, 0x6BB5, 0x5931, 0x6548]"

definition msg_poll_timeout :: pystr where \<comment> \<open>polling timed out\<close>
  "msg_poll_timeout = lit ''ChatGPT '' @ [0x7F51, 0x9875, 0x751F, 0x56FE, 0x8F6E, 0x8BE2, 0x8D85, 0x65F6]"

definition msg_sse_invalid :: pystr where \<comment> \<open>the credential became invalid in the stream\<close>
  "msg_sse_invalid = lit ''CPA '' @ [0x51ED, 0x8BC1, 0x5728] @ lit '' SSE '' @
     [0x9636, 0x6BB5, 0x5931, 0x6548]"

lemmas message_defs =
  msg_total_timeout_def msg_cancelled_def msg_no_credentials_def msg_bad_json_def
  msg_empty_prompt_def msg_bad_n_def msg_no_image_def msg_wait_timeout_def msg_all_busy_def
  msg_no_conversation_def msg_no_result_def msg_request_failed_def msg_invalid_credential_def
  msg_rejected_def msg_rate_limited_def msg_http_failed_def msg_arkose_def msg_no_token_def
  msg_poll_invalid_def msg_poll_timeout_def msg_sse_invalid_def

section \<open>Exceptions raised with them\<close>

definition total_timeout_error :: exn where
  "total_timeout_error = HelperError msg_total_timeout 504 (lit ''image_timeout'')"

definition cancelled_error :: exn where
  "cancelled_error = HelperError msg_cancelled 504 (lit ''image_timeout'')"

definition invalid_request :: "pystr \<Rightarrow> exn" where
  "invalid_request message = HelperError message 400 (lit ''invalid_request'')"

lemma helper_error_attributes [simp]:
  "exn_str (helper_error m) = m" "exn_status (helper_error m) = Some 502"
  "is_helper_error (helper_error m)" "is_helper_error total_timeout_error"
  "exn_status total_timeout_error = Some 504" "exn_status cancelled_error = Some 504"
  by (simp_all add: helper_error_def total_timeout_error_def cancelled_error_def)

end
