(* ===== verification/Request_Control.thy ===== *)
theory Request_Control
  imports Helper_Errors
begin

text \<open>
  \<^verbatim>\<open>helper/control.py\<close>: the deadline and the cancellation flag that every stage of a request
  shares, and the network sessions a cancellation has to close. First the operations as
  functions of the control and the clock, then the race of \<^verbatim>\<open>cancel\<close> with \<^verbatim>\<open>register\<close>,
  \<^verbatim>\<open>unregister\<close> and \<^verbatim>\<open>close\<close> of other threads as a step relation at the granularity of the lock.
\<close>

section \<open>State and operations\<close>

text \<open>
  \<open>closed_sessions\<close> are the sessions whose \<^verbatim>\<open>close\<close> has been called: the effect of \<^verbatim>\<open>resource.close()\<close>,
  which is not a field of the class. A session is a number.
\<close>

record control =
  deadline :: time
  cancelled :: bool
  resources :: "nat set"
  closed_sessions :: "nat set"

definition new_control :: "time \<Rightarrow> time \<Rightarrow> control" where
  "new_control now timeout_seconds =
     \<lparr>deadline = now + max timeout_seconds (1 / 100), cancelled = False, resources = {}, closed_sessions = {}\<rparr>"

definition expired :: "control \<Rightarrow> time \<Rightarrow> bool" where
  "expired c now \<longleftrightarrow> cancelled c \<or> deadline c \<le> now"

definition timeout :: "control \<Rightarrow> time \<Rightarrow> time option \<Rightarrow> time res" where
  "timeout c now maximum =
     (let remaining = deadline c - now
      in if cancelled c \<or> remaining \<le> 0 then Inl total_timeout_error
         else Inr (case maximum of Some m \<Rightarrow> max (1 / 1000) (min remaining m)
                   | None \<Rightarrow> max (1 / 1000) remaining))"

text \<open>
  \<^verbatim>\<open>sleep\<close> is the wait it asks for, and the check after the wait, which sees a later clock and
  perhaps the flag.
\<close>

definition sleep_time :: "control \<Rightarrow> time \<Rightarrow> time \<Rightarrow> time res" where
  "sleep_time c now seconds = bindR (timeout c now None) (\<lambda>t. Inr (min (max seconds 0) t))"

definition after_sleep :: "control \<Rightarrow> time \<Rightarrow> unit res" where
  "after_sleep c now = bindR (timeout c now None) (\<lambda>_. Inr ())"

definition close_session :: "nat \<Rightarrow> control \<Rightarrow> control" where
  "close_session r c = c\<lparr>closed_sessions := insert r (closed_sessions c)\<rparr>"

definition register :: "nat \<Rightarrow> control \<Rightarrow> unit res \<times> control" where
  "register r c = (if cancelled c then (Inl cancelled_error, close_session r c)
     else (Inr (), c\<lparr>resources := insert r (resources c)\<rparr>))"

definition unregister :: "nat \<Rightarrow> control \<Rightarrow> control" where
  "unregister r c = c\<lparr>resources := resources c - {r}\<rparr>"

text \<open>\<^verbatim>\<open>cancel\<close> undisturbed by other threads: a \<^verbatim>\<open>close\<close> that fails is passed over.\<close>

definition cancel :: "control \<Rightarrow> control" where
  "cancel c = c\<lparr>cancelled := True, closed_sessions := closed_sessions c \<union> resources c\<rparr>"

section \<open>Deadlines\<close>

lemma timeout_Inr_iff:
  "(\<exists>t. timeout c now m = Inr t) \<longleftrightarrow> \<not> expired c now"
  by (auto simp: timeout_def expired_def Let_def)

lemma timeout_Inl: "timeout c now m = Inl e \<longleftrightarrow> expired c now \<and> e = total_timeout_error"
  by (auto simp: timeout_def expired_def Let_def)

lemma timeout_expired: "expired c now \<Longrightarrow> timeout c now m = Inl total_timeout_error"
  by (simp add: timeout_Inl)

lemma timeout_bounds:
  assumes "timeout c now m = Inr t"
  shows "1 / 1000 \<le> t" "t \<le> max (1 / 1000) (deadline c - now)" "m = Some u \<Longrightarrow> t \<le> max (1 / 1000) u"
  using assms by (auto simp: timeout_def Let_def split: if_splits option.splits)

lemma expired_mono: "expired c now \<Longrightarrow> now \<le> now' \<Longrightarrow> expired c now'"
  by (auto simp: expired_def)

lemma sleep_time_bound:
  "sleep_time c now s = Inr t \<Longrightarrow> t \<le> max 0 s \<and> t \<le> max (1 / 1000) (deadline c - now)"
  by (auto simp: sleep_time_def res_simps max.commute min.coboundedI2 dest: timeout_bounds(2))

text \<open>Every network timeout a request asks for ends within a millisecond of its deadline.\<close>

lemma timeout_within_deadline:
  assumes "timeout c now m = Inr t"
  shows "now + t \<le> deadline c + 1 / 1000"
proof -
  have "0 < deadline c - now" using assms by (auto simp: timeout_def Let_def split: if_splits)
  with timeout_bounds(2) [OF assms] show ?thesis by linarith
qed

section \<open>Cancellation against registration\<close>

text \<open>
  A thread in \<^verbatim>\<open>cancel\<close> sets the flag, takes a snapshot of the sessions under the lock, and
  closes them one by one. Meanwhile other threads register, unregister and close sessions; each
  of these is one step, since \<^verbatim>\<open>register\<close> tests the flag and adds the session under the same
  lock.
\<close>

datatype canceller = Idle | Flagged | Closing "nat list" | Cancelled

record cancel_sys =
  ctl :: control
  cancellers :: "nat \<Rightarrow> canceller"

inductive cancel_step :: "cancel_sys \<Rightarrow> cancel_sys \<Rightarrow> bool" where
  set_flag: "cancellers s i = Idle \<Longrightarrow>
    cancel_step s (s\<lparr>ctl := (ctl s)\<lparr>cancelled := True\<rparr>, cancellers := (cancellers s)(i := Flagged)\<rparr>)"
| snapshot: "cancellers s i = Flagged \<Longrightarrow> set rs = resources (ctl s) \<Longrightarrow>
    cancel_step s (s\<lparr>cancellers := (cancellers s)(i := Closing rs)\<rparr>)"
| close_next: "cancellers s i = Closing (r # rs) \<Longrightarrow>
    cancel_step s (s\<lparr>ctl := close_session r (ctl s), cancellers := (cancellers s)(i := Closing rs)\<rparr>)"
| finish: "cancellers s i = Closing [] \<Longrightarrow>
    cancel_step s (s\<lparr>cancellers := (cancellers s)(i := Cancelled)\<rparr>)"
| do_register: "cancel_step s (s\<lparr>ctl := snd (register r (ctl s))\<rparr>)"
| do_unregister: "cancel_step s (s\<lparr>ctl := unregister r (ctl s)\<rparr>)"
| do_close: "cancel_step s (s\<lparr>ctl := close_session r (ctl s)\<rparr>)"

inductive cancel_reachable :: "cancel_sys \<Rightarrow> bool" where
  start: "resources (ctl s) = {} \<Longrightarrow> (\<forall>i. cancellers s i = Idle) \<Longrightarrow> cancel_reachable s"
| step: "cancel_reachable s \<Longrightarrow> cancel_step s t \<Longrightarrow> cancel_reachable t"

text \<open>
  What keeps a session from being lost between the flag and the snapshot: once any thread is in
  \<^verbatim>\<open>cancel\<close> the flag is up, so no session is added, and what a canceller has not closed yet it
  still has on its list.
\<close>

fun canceller_inv :: "control \<Rightarrow> canceller \<Rightarrow> bool" where
  "canceller_inv c Idle \<longleftrightarrow> True"
| "canceller_inv c Flagged \<longleftrightarrow> cancelled c"
| "canceller_inv c (Closing rs) \<longleftrightarrow> cancelled c \<and> resources c \<subseteq> closed_sessions c \<union> set rs"
| "canceller_inv c Cancelled \<longleftrightarrow> cancelled c \<and> resources c \<subseteq> closed_sessions c"

definition cancel_inv :: "cancel_sys \<Rightarrow> bool" where
  "cancel_inv s \<longleftrightarrow> (\<forall>i. canceller_inv (ctl s) (cancellers s i))"

lemma canceller_inv_mono:
  assumes "canceller_inv c pc" "cancelled c \<Longrightarrow> cancelled c'" "cancelled c \<Longrightarrow> resources c' \<subseteq> resources c"
    "closed_sessions c \<subseteq> closed_sessions c'"
  shows "canceller_inv c' pc"
proof (cases "cancelled c")
  case True
  with assms have "cancelled c'" "resources c' \<subseteq> resources c" by simp_all
  with assms(1,4) show ?thesis by (cases pc) auto
next
  case False
  with assms(1) show ?thesis by (cases pc) auto
qed

lemma cancel_inv_update:
  assumes "cancel_inv s" "\<And>pc. canceller_inv (ctl s) pc \<Longrightarrow> canceller_inv c pc" "canceller_inv c pc'"
  shows "cancel_inv (s\<lparr>ctl := c\<rparr>)"
    and "cancel_inv (s\<lparr>ctl := c, cancellers := (cancellers s)(i := pc')\<rparr>)"
  using assms by (auto simp: cancel_inv_def)

lemma cancel_inv_move:
  "cancel_inv s \<Longrightarrow> canceller_inv (ctl s) pc \<Longrightarrow> cancel_inv (s\<lparr>cancellers := (cancellers s)(i := pc)\<rparr>)"
  by (auto simp: cancel_inv_def)

lemma canceller_inv_close: "canceller_inv c pc \<Longrightarrow> canceller_inv (close_session r c) pc"
  by (erule canceller_inv_mono) (auto simp: close_session_def)

lemma canceller_inv_register: "canceller_inv c pc \<Longrightarrow> canceller_inv (snd (register r c)) pc"
  by (erule canceller_inv_mono) (auto simp: register_def close_session_def)

lemma canceller_inv_unregister: "canceller_inv c pc \<Longrightarrow> canceller_inv (unregister r c) pc"
  by (erule canceller_inv_mono) (auto simp: unregister_def)

lemma canceller_inv_flag: "canceller_inv c pc \<Longrightarrow> canceller_inv (c\<lparr>cancelled := True\<rparr>) pc"
  by (cases pc) auto

lemma cancel_step_inv: "cancel_step s t \<Longrightarrow> cancel_inv s \<Longrightarrow> cancel_inv t"
proof (induction rule: cancel_step.induct)
  case (set_flag s i)
  then show ?case by (intro cancel_inv_update(2)) (auto intro: canceller_inv_flag)
next
  case (snapshot s i rs)
  then have "canceller_inv (ctl s) Flagged" by (metis cancel_inv_def)
  with snapshot show ?case by (intro cancel_inv_move) auto
next
  case (close_next s i r rs)
  then have "canceller_inv (ctl s) (Closing (r # rs))" by (metis cancel_inv_def)
  then have "canceller_inv (close_session r (ctl s)) (Closing rs)"
    by (auto simp: close_session_def)
  with close_next show ?case by (intro cancel_inv_update(2)) (auto intro: canceller_inv_close)
next
  case (finish s i)
  then have "canceller_inv (ctl s) (Closing [])" by (metis cancel_inv_def)
  with finish show ?case by (intro cancel_inv_move) auto
next
  case (do_register s r)
  then show ?case by (intro cancel_inv_update [where pc' = Idle] canceller_inv_register) auto
next
  case (do_unregister s r)
  then show ?case by (intro cancel_inv_update [where pc' = Idle] canceller_inv_unregister) auto
next
  case (do_close s r)
  then show ?case by (intro cancel_inv_update [where pc' = Idle] canceller_inv_close) auto
qed

lemma cancel_reachable_inv: "cancel_reachable s \<Longrightarrow> cancel_inv s"
proof (induction rule: cancel_reachable.induct)
  case (start s)
  then show ?case by (simp add: cancel_inv_def)
next
  case (step s t)
  then show ?case by (blast intro: cancel_step_inv)
qed

section \<open>Properties\<close>

text \<open>
  C37. The deadline is shared by every stage: a stage gets a time-out exactly as long as the
  request is neither cancelled nor over, the exception is the 504 \<^verbatim>\<open>image_timeout\<close> one, and the
  time-out it gets is at least a millisecond, no more than the stage asked for, and ends within
  a millisecond of the request's deadline.
\<close>

theorem timeout_contract:
  "case timeout c now maximum of
     Inl e \<Rightarrow> expired c now \<and> e = total_timeout_error
   | Inr t \<Rightarrow> \<not> expired c now \<and> 1 / 1000 \<le> t \<and> now + t \<le> deadline c + 1 / 1000 \<and>
       (case maximum of None \<Rightarrow> True | Some u \<Rightarrow> t \<le> max (1 / 1000) u)"
proof (cases "timeout c now maximum")
  case (Inl e)
  with timeout_Inl [of c now maximum e] show ?thesis by simp
next
  case (Inr t)
  then show ?thesis
    using timeout_bounds [OF Inr] timeout_within_deadline [OF Inr] timeout_Inr_iff [of c now maximum]
    by (auto split: option.splits)
qed

text \<open>
  C14. A cancellation loses no session, however its steps interleave with the threads that
  register, unregister and close sessions: when any thread has finished \<^verbatim>\<open>cancel\<close>, every session
  still registered has been closed, and a session that comes to register later is closed at once
  and refused with the 504 exception.
\<close>

theorem cancel_closes_every_session:
  assumes "cancel_reachable s" "cancellers s i = Cancelled"
  shows "resources (ctl s) \<subseteq> closed_sessions (ctl s) \<and>
    register r (ctl s) = (Inl cancelled_error, close_session r (ctl s))"
proof -
  have "canceller_inv (ctl s) Cancelled"
    using cancel_reachable_inv [OF assms(1)] assms(2) by (metis cancel_inv_def)
  then show ?thesis by (simp add: register_def)
qed

text \<open>
  A run with a session registered before the flag goes up, taken by the snapshot and closed; a
  second one that arrives between flag and snapshot is refused.
\<close>

definition race_end :: cancel_sys where
  "race_end = \<lparr>ctl = \<lparr>deadline = 30, cancelled = True, resources = {7}, closed_sessions = {7, 9}\<rparr>,
     cancellers = (\<lambda>_. Idle)(0 := Cancelled)\<rparr>"

lemma race_reachable: "cancel_reachable race_end"
proof -
  let ?c = "\<lambda>f r cl. \<lparr>deadline = 30, cancelled = f, resources = r, closed_sessions = cl\<rparr> :: control"
  let ?s = "\<lambda>f r cl pc. \<lparr>ctl = ?c f r cl, cancellers = (\<lambda>_. Idle)(0 := pc)\<rparr> :: cancel_sys"
  have "cancel_reachable (?s False {} {} Idle)"
    by (rule cancel_reachable.start) auto
  then have "cancel_reachable (?s False {7} {} Idle)"
    using do_register [of "?s False {} {} Idle" 7]
    by (auto simp: register_def elim: cancel_reachable.step)
  then have "cancel_reachable (?s True {7} {} Flagged)"
    using set_flag [of "?s False {7} {} Idle" 0] by (auto elim: cancel_reachable.step)
  then have "cancel_reachable (?s True {7} {9} Flagged)"
    using do_register [of "?s True {7} {} Flagged" 9]
    by (auto simp: register_def close_session_def elim: cancel_reachable.step)
  then have "cancel_reachable (?s True {7} {9} (Closing [7]))"
    using snapshot [of "?s True {7} {9} Flagged" 0 "[7]"] by (auto elim: cancel_reachable.step)
  then have "cancel_reachable (?s True {7} {7, 9} (Closing []))"
    using close_next [of "?s True {7} {9} (Closing [7])" 0 7 "[]"]
    by (auto simp: close_session_def elim: cancel_reachable.step)
  then have "cancel_reachable (?s True {7} {7, 9} Cancelled)"
    using finish [of "?s True {7} {7, 9} (Closing [])" 0] by (auto elim: cancel_reachable.step)
  then show ?thesis by (simp add: race_end_def)
qed

theorem cancel_closes_every_session_witness:
  "resources (ctl race_end) \<subseteq> closed_sessions (ctl race_end) \<and>
   fst (register 11 (ctl race_end)) = Inl cancelled_error"
proof -
  have "cancellers race_end 0 = Cancelled" by (simp add: race_end_def)
  from cancel_closes_every_session [OF race_reachable this, of 11] show ?thesis by simp
qed

end
