(* ===== verification/Backend_Events.thy ===== *)
theory Backend_Events
  imports Request_Control
begin

text \<open>
  The pure part of \<^verbatim>\<open>helper/backend.py\<close>: the regular expressions and the recursive searches that
  read image references, the conversation and credential errors out of the upstream's JSON, the
  server-sent event parser, and the data-URL decoder.
\<close>

section \<open>Text of a Python value\<close>

text \<open>\<^verbatim>\<open>str(value)\<close> of a JSON value; the text of floats and containers is the runtime's.\<close>

fun py_str :: "runtime \<Rightarrow> json \<Rightarrow> pystr" where
  "py_str rt JNull = lit ''None''"
| "py_str rt (JBool b) = (if b then lit ''True'' else lit ''False'')"
| "py_str rt (JInt i) = show_int i"
| "py_str rt (JFloat f) = rt_float_repr rt f"
| "py_str rt (JStr s) = s"
| "py_str rt v = rt_repr rt v"

text \<open>\<^verbatim>\<open>str(value or "")\<close>, the way most fields are read.\<close>

definition str_or_empty :: "runtime \<Rightarrow> json \<Rightarrow> pystr" where
  "str_or_empty rt v = py_str rt (py_or v (JStr []))"

lemma str_or_empty_simps [simp]:
  "str_or_empty rt JNull = []" "str_or_empty rt (JStr s) = s"
  by (auto simp: str_or_empty_def py_or_def)

section \<open>Accumulating references\<close>

text \<open>\<^verbatim>\<open>append_unique\<close>: the target list is passed and returned.\<close>

fun append_unique :: "pystr list \<Rightarrow> pystr list \<Rightarrow> pystr list" where
  "append_unique target [] = target"
| "append_unique target (value # values) =
     append_unique (if value \<noteq> [] \<and> value \<notin> set target then target @ [value] else target) values"

section \<open>Regular expressions\<close>

text \<open>The character class \<open>[A-Za-z0-9_-]\<close>, and \<open>\w\<close> of Unicode patterns.\<close>

definition id_char :: "nat \<Rightarrow> bool" where
  "id_char c \<longleftrightarrow> 65 \<le> c \<and> c \<le> 90 \<or> 97 \<le> c \<and> c \<le> 122 \<or> is_digit c \<or> c = 95 \<or> c = 45"

definition word_char :: "runtime \<Rightarrow> nat \<Rightarrow> bool" where
  "word_char rt c \<longleftrightarrow> (if c < 128 then 65 \<le> c \<and> c \<le> 90 \<or> 97 \<le> c \<and> c \<le> 122 \<or> is_digit c \<or> c = 95
     else rt_alnum rt c)"

definition lower_hex :: "nat \<Rightarrow> bool" where
  "lower_hex c \<longleftrightarrow> is_digit c \<or> 97 \<le> c \<and> c \<le> 102"

text \<open>
  \<^verbatim>\<open>findall\<close> of a literal prefix followed by a non-empty run of identifier characters: the runs,
  left to right, the search going on after each.
\<close>

function find_runs :: "pystr \<Rightarrow> pystr \<Rightarrow> pystr list" where
  "find_runs p [] = []"
| "find_runs p (c # s) =
     (let run = takeWhile id_char (drop (length p) (c # s))
      in if starts_with p (c # s) \<and> run \<noteq> []
         then run # find_runs p (drop (length p + length run) (c # s))
         else find_runs p s)"
  by pat_completeness auto
termination
proof (relation "measure (\<lambda>(p, s). length s)")
  fix p :: pystr and c :: nat and s :: pystr and run
  assume "run = takeWhile id_char (drop (length p) (c # s))"
    and "starts_with p (c # s) \<and> run \<noteq> []"
  then show "((p, drop (length p + length run) (c # s)), p, c # s) \<in> measure (\<lambda>(p, s). length s)"
    by (cases run) simp_all
qed auto

definition file_service_ids :: "pystr \<Rightarrow> pystr list" where
  "file_service_ids s = find_runs (lit ''file-service://'') s"

definition sediment_ids :: "pystr \<Rightarrow> pystr list" where
  "sediment_ids s = find_runs (lit ''sediment://'') s"

text \<open>
  \<^verbatim>\<open>FILE_ID_RE\<close>: \<^verbatim>\<open>file_00000000\<close> and 24 lower-case hexadecimal digits between word boundaries.
  The flag says whether the character before is a word character.
\<close>

definition file_id_prefix :: pystr where
  "file_id_prefix = lit ''file_00000000''"

definition file_id_at :: "runtime \<Rightarrow> pystr \<Rightarrow> bool" where
  "file_id_at rt s \<longleftrightarrow> starts_with file_id_prefix s \<and> 37 \<le> length s \<and>
     list_all lower_hex (take 24 (drop 13 s)) \<and>
     (case drop 37 s of [] \<Rightarrow> True | c # _ \<Rightarrow> \<not> word_char rt c)"

function find_file_ids :: "runtime \<Rightarrow> bool \<Rightarrow> pystr \<Rightarrow> pystr list" where
  "find_file_ids rt word_before [] = []"
| "find_file_ids rt word_before (c # s) =
     (if \<not> word_before \<and> file_id_at rt (c # s)
      then take 37 (c # s) # find_file_ids rt True (drop 37 (c # s))
      else find_file_ids rt (word_char rt c) s)"
  by pat_completeness auto
termination
  by (relation "measure (\<lambda>(rt, w, s). length s)") auto

definition file_ids :: "runtime \<Rightarrow> pystr \<Rightarrow> pystr list" where
  "file_ids rt s = find_file_ids rt False s"

section \<open>References, conversation, credential errors\<close>

record references =
  files :: "pystr list"
  sediments :: "pystr list"
  direct_images :: "pystr list"

text \<open>
  \<^verbatim>\<open>extract_references\<close>. The inner function \<^verbatim>\<open>walk\<close> appends to three lists of its closure: they are
  a record passed through.
\<close>

definition walk_string :: "runtime \<Rightarrow> pystr \<Rightarrow> references \<Rightarrow> references" where
  "walk_string rt item r = r\<lparr>
     files := append_unique (append_unique (files r) (file_service_ids item)) (file_ids rt item),
     sediments := append_unique (sediments r) (sediment_ids item)\<rparr>"

definition walk_result :: "(pystr \<times> json) list \<Rightarrow> references \<Rightarrow> references" where
  "walk_result item r =
     (case (dict_get (lit ''type'') item, dict_get (lit ''result'') item) of
        (JStr t, JStr result) \<Rightarrow>
          if t = lit ''image_generation_call''
          then r\<lparr>direct_images := append_unique (direct_images r) [last (split_once 44 result)]\<rparr> else r
      | _ \<Rightarrow> r)"

fun walk :: "runtime \<Rightarrow> json \<Rightarrow> references \<Rightarrow> references"
  and walk_items :: "runtime \<Rightarrow> json list \<Rightarrow> references \<Rightarrow> references"
  and walk_members :: "runtime \<Rightarrow> (pystr \<times> json) list \<Rightarrow> references \<Rightarrow> references" where
  "walk rt (JStr item) r = walk_string rt item r"
| "walk rt (JDict item) r = walk_members rt item (walk_result item r)"
| "walk rt (JList item) r = walk_items rt item r"
| "walk rt _ r = r"
| "walk_items rt [] r = r"
| "walk_items rt (child # rest) r = walk_items rt rest (walk rt child r)"
| "walk_members rt [] r = r"
| "walk_members rt ((k, child) # rest) r = walk_members rt rest (walk rt child r)"

definition extract_references :: "runtime \<Rightarrow> json \<Rightarrow> references" where
  "extract_references rt value = walk rt value \<lparr>files = [], sediments = [], direct_images = []\<rparr>"

text \<open>\<^verbatim>\<open>extract_conversation_id\<close>: the first non-empty one in pre-order, the empty string if none.\<close>

definition own_conversation_id :: "(pystr \<times> json) list \<Rightarrow> pystr" where
  "own_conversation_id d =
     (case dict_get (lit ''conversation_id'') d of JStr s \<Rightarrow> s | _ \<Rightarrow> [])"

fun extract_conversation_id :: "json \<Rightarrow> pystr"
  and conversation_id_items :: "json list \<Rightarrow> pystr"
  and conversation_id_members :: "(pystr \<times> json) list \<Rightarrow> pystr" where
  "extract_conversation_id (JDict d) =
     (if own_conversation_id d \<noteq> [] then own_conversation_id d else conversation_id_members d)"
| "extract_conversation_id (JList xs) = conversation_id_items xs"
| "extract_conversation_id _ = []"
| "conversation_id_items [] = []"
| "conversation_id_items (child # rest) =
     (let found = extract_conversation_id child
      in if found \<noteq> [] then found else conversation_id_items rest)"
| "conversation_id_members [] = []"
| "conversation_id_members ((k, child) # rest) =
     (let found = extract_conversation_id child
      in if found \<noteq> [] then found else conversation_id_members rest)"

definition invalid_token_patterns :: "pystr list" where
  "invalid_token_patterns = map lit
     [''token_invalidated'', ''token_revoked'', ''authentication token has been invalidated'',
      ''invalidated oauth token'', ''invalid_access_token'']"

definition error_field_names :: "pystr list" where
  "error_field_names = map lit [''error'', ''errors'', ''code'', ''detail'', ''status_message'']"

definition contains_invalid_token_text :: "pystr \<Rightarrow> bool" where
  "contains_invalid_token_text value \<longleftrightarrow>
     list_ex (\<lambda>pattern. has_substring pattern (py_lower value)) invalid_token_patterns"

text \<open>
  \<^verbatim>\<open>contains_invalid_token_error\<close>: a string counts only in an error context, which a field name
  or the type of an enclosing event opens.
\<close>

definition event_error :: "runtime \<Rightarrow> (pystr \<times> json) list \<Rightarrow> bool" where
  "event_error rt d \<longleftrightarrow> py_lower (str_or_empty rt (dict_get (lit ''type'') d))
     \<in> {lit ''error'', lit ''conversation.error''}"

fun contains_invalid_token_error :: "runtime \<Rightarrow> json \<Rightarrow> bool \<Rightarrow> bool"
  and invalid_token_items :: "runtime \<Rightarrow> json list \<Rightarrow> bool \<Rightarrow> bool"
  and invalid_token_members :: "runtime \<Rightarrow> (pystr \<times> json) list \<Rightarrow> bool \<Rightarrow> bool" where
  "contains_invalid_token_error rt (JStr s) error_context \<longleftrightarrow>
     error_context \<and> contains_invalid_token_text s"
| "contains_invalid_token_error rt (JDict d) error_context \<longleftrightarrow>
     invalid_token_members rt d (error_context \<or> event_error rt d)"
| "contains_invalid_token_error rt (JList xs) error_context \<longleftrightarrow> invalid_token_items rt xs error_context"
| "contains_invalid_token_error rt _ error_context \<longleftrightarrow> False"
| "invalid_token_items rt [] error_context \<longleftrightarrow> False"
| "invalid_token_items rt (child # rest) error_context \<longleftrightarrow>
     contains_invalid_token_error rt child error_context \<or> invalid_token_items rt rest error_context"
| "invalid_token_members rt [] context \<longleftrightarrow> False"
| "invalid_token_members rt ((k, child) # rest) context \<longleftrightarrow>
     contains_invalid_token_error rt child (context \<or> py_lower k \<in> set error_field_names) \<or>
     invalid_token_members rt rest context"

section \<open>Server-sent events\<close>

text \<open>
  What \<^verbatim>\<open>response.iter_lines()\<close> hands over, one item per line: the clock and the cancellation flag
  at its arrival, and the line or the exception of a broken connection.
\<close>

datatype raw_line = RawBytes bytes | RawText pystr | Broken exn

record arrival =
  at_time :: time
  flag :: bool
  raw :: raw_line

definition line_text :: "raw_line \<Rightarrow> pystr res" where
  "line_text x = (case x of RawBytes bs \<Rightarrow> Inr (utf8_decode_replace bs) | RawText s \<Rightarrow> Inr s | Broken e \<Rightarrow> Inl e)"

definition line_check :: "control option \<Rightarrow> arrival \<Rightarrow> unit res" where
  "line_check ct a = (case ct of None \<Rightarrow> Inr ()
     | Some c \<Rightarrow> bindR (timeout (c\<lparr>cancelled := cancelled c \<or> flag a\<rparr>) (at_time a) None) (\<lambda>_. Inr ()))"

definition sse_invalid_error :: exn where
  "sse_invalid_error = UpstreamError msg_sse_invalid 401 False"

text \<open>The event of one blank-line-terminated block of data lines: none, or a JSON object.\<close>

definition sse_event :: "runtime \<Rightarrow> pystr list \<Rightarrow> json option res" where
  "sse_event rt lines =
     (let payload = py_strip (py_join [10] lines)
      in if payload = [] \<or> payload = lit ''[DONE]'' then Inr None
         else (case loads_text rt payload of
             Inl JSONDecodeError \<Rightarrow>
               if contains_invalid_token_text payload then Inl sse_invalid_error else Inr None
           | Inl k \<Rightarrow> Inl (py_exn rt k payload)
           | Inr (JDict d) \<Rightarrow>
               if contains_invalid_token_error rt (JDict d) False then Inl sse_invalid_error
               else Inr (Some (JDict d))
           | Inr _ \<Rightarrow> Inr None))"

text \<open>
  \<^verbatim>\<open>iter_sse_json\<close>, consumed to its end as \<^verbatim>\<open>list\<close> does: the events, or the exception that ends
  the iteration. The list argument is the buffer of data lines.
\<close>

fun iter_sse_json :: "runtime \<Rightarrow> control option \<Rightarrow> pystr list \<Rightarrow> arrival list \<Rightarrow> json list res" where
  "iter_sse_json rt ct lines [] = Inr []"
| "iter_sse_json rt ct lines (a # rest) =
     bindR (case raw a of Broken e \<Rightarrow> Inl e | _ \<Rightarrow> line_check ct a) (\<lambda>_.
     bindR (line_text (raw a)) (\<lambda>line.
       if line = [] then
         (if lines = [] then iter_sse_json rt ct [] rest
          else bindR (sse_event rt lines) (\<lambda>event.
            bindR (iter_sse_json rt ct [] rest) (\<lambda>events.
              Inr (case event of None \<Rightarrow> events | Some v \<Rightarrow> v # events))))
       else if starts_with (lit ''data:'') line
         then iter_sse_json rt ct (lines @ [py_lstrip (drop 5 line)]) rest
       else iter_sse_json rt ct lines rest))"

section \<open>Data URLs\<close>

definition decode_data_url :: "runtime \<Rightarrow> pystr \<Rightarrow> bytes res" where
  "decode_data_url rt value =
     b64decode rt (if starts_with (lit ''data:'') value \<and> 44 \<in> set value
                   then split_once 44 value ! 1 else value)"

end
