(* ===== verification/Backend_Events_Props.thy ===== *)
theory Backend_Events_Props
  imports Backend_Events
begin

text \<open>
  What the searches of \<^verbatim>\<open>helper/backend.py\<close> find, stated against flat descriptions of a JSON value
  (its strings, its results, its conversation ids in document order), and the round trip of
  server-sent events.
\<close>

section \<open>The accumulator interface\<close>

text \<open>
  Both modules keep their references in lists that grow by \<open>append_unique\<close>. What they rely on is
  this: adding is a fold over single additions, and one addition appends an acceptable value
  that is not there yet.
\<close>

locale accumulator =
  fixes add :: "'a list \<Rightarrow> 'a list \<Rightarrow> 'a list"
    and ok :: "'a \<Rightarrow> bool"
  assumes add_Nil: "add t [] = t"
    and add_append: "add t (xs @ ys) = add (add t xs) ys"
    and add_one: "add t [x] = (if ok x \<and> x \<notin> set t then t @ [x] else t)"
begin

lemma add_Cons: "add t (x # xs) = add (if ok x \<and> x \<notin> set t then t @ [x] else t) xs"
  using add_append [of t "[x]" xs] by (simp add: add_one)

lemma set_add: "set (add t xs) = set t \<union> {x \<in> set xs. ok x}"
  by (induction xs arbitrary: t) (auto simp: add_Nil add_Cons)

lemma distinct_add: "distinct t \<Longrightarrow> distinct (add t xs)"
  by (induction xs arbitrary: t) (auto simp: add_Nil add_Cons)

lemma add_extends: "\<exists>u. add t xs = t @ u"
proof (induction xs arbitrary: t)
  case Nil
  then show ?case by (simp add: add_Nil)
next
  case (Cons x xs)
  from Cons [of "t @ [x]"] Cons [of t] show ?case by (auto simp: add_Cons)
qed

lemma add_absorb: "{x \<in> set xs. ok x} \<subseteq> set t \<Longrightarrow> add t xs = t"
  by (induction xs arbitrary: t) (auto simp: add_Nil add_Cons)

lemma add_empty_iff: "add [] xs = [] \<longleftrightarrow> (\<forall>x \<in> set xs. \<not> ok x)"
  using set_add [of "[]" xs] by (metis (mono_tags, lifting) Collect_empty_eq empty_set set_empty sup_bot.left_neutral)

lemma add_of_add: "add t (add [] xs) = add t xs"
proof (induction xs rule: rev_induct)
  case Nil
  show ?case by (simp add: add_Nil)
next
  case (snoc x xs)
  show ?case
  proof (cases "ok x \<and> x \<notin> set (add [] xs)")
    case True
    then have "add [] (xs @ [x]) = add [] xs @ [x]" by (simp add: add_append add_one)
    then show ?thesis by (simp add: add_append snoc.IH)
  next
    case False
    then have "add [] (xs @ [x]) = add [] xs" by (auto simp: add_append add_one)
    moreover have "add (add t xs) [x] = add t xs" using False by (intro add_absorb) (auto simp: set_add)
    ultimately show ?thesis by (simp add: add_append snoc.IH)
  qed
qed

lemma add_add_idem: "add (add t xs) xs = add t xs"
  by (rule add_absorb) (auto simp: set_add)

end

lemma append_unique_append: "append_unique t (xs @ ys) = append_unique (append_unique t xs) ys"
  by (induction xs arbitrary: t) simp_all

interpretation uniq: accumulator append_unique "\<lambda>v. v \<noteq> []"
  by unfold_locales (auto simp: append_unique_append)

section \<open>References in document order\<close>

fun json_strings :: "json \<Rightarrow> pystr list"
  and strings_items :: "json list \<Rightarrow> pystr list"
  and strings_members :: "(pystr \<times> json) list \<Rightarrow> pystr list" where
  "json_strings (JStr s) = [s]"
| "json_strings (JDict d) = strings_members d"
| "json_strings (JList xs) = strings_items xs"
| "json_strings _ = []"
| "strings_items [] = []"
| "strings_items (x # xs) = json_strings x @ strings_items xs"
| "strings_members [] = []"
| "strings_members ((k, x) # xs) = json_strings x @ strings_members xs"

definition own_result :: "(pystr \<times> json) list \<Rightarrow> pystr list" where
  "own_result d = direct_images (walk_result d \<lparr>files = [], sediments = [], direct_images = []\<rparr>)"

fun json_results :: "json \<Rightarrow> pystr list"
  and results_items :: "json list \<Rightarrow> pystr list"
  and results_members :: "(pystr \<times> json) list \<Rightarrow> pystr list" where
  "json_results (JDict d) = own_result d @ results_members d"
| "json_results (JList xs) = results_items xs"
| "json_results _ = []"
| "results_items [] = []"
| "results_items (x # xs) = json_results x @ results_items xs"
| "results_members [] = []"
| "results_members ((k, x) # xs) = json_results x @ results_members xs"

definition collect :: "runtime \<Rightarrow> pystr list \<Rightarrow> pystr list \<Rightarrow> references \<Rightarrow> references" where
  "collect rt ss results r = r\<lparr>
     files := append_unique (files r) (concat (map (\<lambda>s. file_service_ids s @ file_ids rt s) ss)),
     sediments := append_unique (sediments r) (concat (map sediment_ids ss)),
     direct_images := append_unique (direct_images r) results\<rparr>"

lemma collect_collect:
  "collect rt ss2 rs2 (collect rt ss1 rs1 r) = collect rt (ss1 @ ss2) (rs1 @ rs2) r"
  by (simp add: collect_def append_unique_append)

lemma walk_result_collect: "walk_result d r = collect rt [] (own_result d) r"
  unfolding own_result_def walk_result_def collect_def
  by (auto split: json.splits)

lemma walk_collect:
  shows "walk rt v r = collect rt (json_strings v) (json_results v) r"
    and "walk_items rt xs r = collect rt (strings_items xs) (results_items xs) r"
    and "walk_members rt ms r = collect rt (strings_members ms) (results_members ms) r"
proof (induction rt v r and rt xs r and rt ms r rule: walk_walk_items_walk_members.induct)
  case (1 rt s r)
  then show ?case by (simp add: walk_string_def collect_def append_unique_append)
next
  case (2 rt d r)
  then show ?case by (simp add: walk_result_collect [of d r rt] collect_collect)
qed (simp_all add: collect_collect, simp_all add: collect_def)

section \<open>Conversation ids and credential errors, flattened\<close>

fun conversation_ids :: "json \<Rightarrow> pystr list"
  and ids_items :: "json list \<Rightarrow> pystr list"
  and ids_members :: "(pystr \<times> json) list \<Rightarrow> pystr list" where
  "conversation_ids (JDict d) =
     (if own_conversation_id d \<noteq> [] then [own_conversation_id d] else []) @ ids_members d"
| "conversation_ids (JList xs) = ids_items xs"
| "conversation_ids _ = []"
| "ids_items [] = []"
| "ids_items (x # xs) = conversation_ids x @ ids_items xs"
| "ids_members [] = []"
| "ids_members ((k, x) # xs) = conversation_ids x @ ids_members xs"

definition first_or_empty :: "pystr list \<Rightarrow> pystr" where
  "first_or_empty xs = (case xs of [] \<Rightarrow> [] | x # _ \<Rightarrow> x)"

lemma conversation_ids_nonempty:
  shows "\<forall>i \<in> set (conversation_ids v). i \<noteq> []"
    and "\<forall>i \<in> set (ids_items xs). i \<noteq> []"
    and "\<forall>i \<in> set (ids_members ms). i \<noteq> []"
  by (induction v and xs and ms rule: conversation_ids_ids_items_ids_members.induct) auto

lemma first_or_empty_append:
  "\<forall>x \<in> set xs. x \<noteq> [] \<Longrightarrow>
   first_or_empty (xs @ ys) = (if first_or_empty xs \<noteq> [] then first_or_empty xs else first_or_empty ys)"
  by (auto simp: first_or_empty_def split: list.splits)

lemma conversation_id_first:
  shows "extract_conversation_id v = first_or_empty (conversation_ids v)"
    and "conversation_id_items xs = first_or_empty (ids_items xs)"
    and "conversation_id_members ms = first_or_empty (ids_members ms)"
proof (induction v and xs and ms rule:
    extract_conversation_id_conversation_id_items_conversation_id_members.induct)
  case (1 d)
  then show ?case by (simp add: first_or_empty_def)
qed (simp_all add: Let_def first_or_empty_append conversation_ids_nonempty, simp_all add: first_or_empty_def)

text \<open>
  The error texts of a value: all strings, however deep, of a member with one of the error names, all strings
  of an object with the type of an error event, and no others.
\<close>

definition named_error :: "pystr \<Rightarrow> bool" where
  "named_error k \<longleftrightarrow>
     py_lower k \<in> {lit ''error'', lit ''errors'', lit ''code'', lit ''detail'', lit ''status_message''}"

definition typed_error :: "runtime \<Rightarrow> (pystr \<times> json) list \<Rightarrow> bool" where
  "typed_error rt d \<longleftrightarrow> (let t = py_lower (py_str rt (py_or (dict_get (lit ''type'') d) (JStr [])))
     in t = lit ''error'' \<or> t = lit ''conversation.error'')"

fun error_texts :: "runtime \<Rightarrow> json \<Rightarrow> pystr list"
  and error_texts_items :: "runtime \<Rightarrow> json list \<Rightarrow> pystr list"
  and error_texts_members :: "runtime \<Rightarrow> (pystr \<times> json) list \<Rightarrow> pystr list" where
  "error_texts rt (JDict d) = (if typed_error rt d then strings_members d else error_texts_members rt d)"
| "error_texts rt (JList xs) = error_texts_items rt xs"
| "error_texts rt _ = []"
| "error_texts_items rt [] = []"
| "error_texts_items rt (x # xs) = error_texts rt x @ error_texts_items rt xs"
| "error_texts_members rt [] = []"
| "error_texts_members rt ((k, x) # xs) =
     (if named_error k then json_strings x else error_texts rt x) @ error_texts_members rt xs"

lemma error_names: "typed_error rt d = event_error rt d" "named_error k \<longleftrightarrow> py_lower k \<in> set error_field_names"
  by (auto simp: typed_error_def event_error_def str_or_empty_def Let_def named_error_def error_field_names_def)

lemma invalid_token_inside:
  shows "contains_invalid_token_error rt v True \<longleftrightarrow> list_ex contains_invalid_token_text (json_strings v)"
    and "invalid_token_items rt xs True \<longleftrightarrow> list_ex contains_invalid_token_text (strings_items xs)"
    and "invalid_token_members rt ms True \<longleftrightarrow> list_ex contains_invalid_token_text (strings_members ms)"
  by (induction v and xs and ms rule: json_strings_strings_items_strings_members.induct) auto

lemma invalid_token_outside:
  shows "contains_invalid_token_error rt v False \<longleftrightarrow> list_ex contains_invalid_token_text (error_texts rt v)"
    and "invalid_token_items rt xs False \<longleftrightarrow> list_ex contains_invalid_token_text (error_texts_items rt xs)"
    and "invalid_token_members rt ms False \<longleftrightarrow> list_ex contains_invalid_token_text (error_texts_members rt ms)"
proof (induction rt v and rt xs and rt ms rule: error_texts_error_texts_items_error_texts_members.induct)
  case (1 rt d)
  then show ?case by (cases "event_error rt d") (simp_all add: error_names invalid_token_inside)
next
  case (7 rt k x xs)
  then show ?case by (cases "named_error k") (simp_all add: error_names invalid_token_inside)
qed simp_all

section \<open>Matches of the identifier patterns\<close>

lemma find_runs_sound:
  "i \<in> set (find_runs p s) \<Longrightarrow> i \<noteq> [] \<and> list_all id_char i \<and> (\<exists>a b. s = a @ p @ i @ b)"
proof (induction p s rule: find_runs.induct)
  case (2 p c s)
  define run where "run = takeWhile id_char (drop (length p) (c # s))"
  show ?case
  proof (cases "starts_with p (c # s) \<and> run \<noteq> []")
    case True
    then obtain t where t: "c # s = p @ t" by (auto simp: text_simps)
    then have run_t: "t = run @ dropWhile id_char t" by (simp add: run_def)
    have step: "find_runs p (c # s) = run # find_runs p (drop (length p + length run) (c # s))"
      using True by (simp add: run_def Let_def)
    from "2.prems" step consider "i = run" | "i \<in> set (find_runs p (drop (length p + length run) (c # s)))"
      by auto
    then show ?thesis
    proof cases
      case 1
      have "list_all id_char run" by (auto simp: run_def list_all_iff dest: set_takeWhileD)
      moreover have "c # s = [] @ p @ run @ dropWhile id_char t" using t run_t by simp
      ultimately show ?thesis using True 1 by blast
    next
      case 2
      from "2.IH"(1) [OF run_def True 2] obtain a b
        where i: "i \<noteq> []" "list_all id_char i"
          and ab: "drop (length p + length run) (c # s) = a @ p @ i @ b" by blast
      have "c # s = (take (length p + length run) (c # s) @ a) @ p @ i @ b"
        using ab by (metis append.assoc append_take_drop_id)
      with i show ?thesis by blast
    qed
  next
    case False
    then have "find_runs p (c # s) = find_runs p s" by (auto simp: run_def Let_def)
    with "2.IH"(2) [OF run_def False] "2.prems" obtain a b
      where "i \<noteq> []" "list_all id_char i" "s = a @ p @ i @ b" by auto
    then show ?thesis by (metis append_Cons)
  qed
qed simp

lemma find_runs_complete:
  assumes "s = a @ p @ c # b" "id_char c"
  shows "find_runs p s \<noteq> []"
  using assms
proof (induction p s arbitrary: a rule: find_runs.induct)
  case (2 p d s)
  define run where "run = takeWhile id_char (drop (length p) (d # s))"
  show ?case
  proof (cases "starts_with p (d # s) \<and> run \<noteq> []")
    case True
    then show ?thesis by (simp add: run_def Let_def)
  next
    case False
    have "a \<noteq> []"
    proof
      assume "a = []"
      with "2.prems" have "d # s = p @ c # b" by simp
      with "2.prems"(2) have "starts_with p (d # s)" "run \<noteq> []" by (auto simp: run_def)
      with False show False by simp
    qed
    with "2.prems" obtain a' where "s = a' @ p @ c # b" by (cases a) auto
    with "2.IH"(2) [OF run_def False] "2.prems"(2) have "find_runs p s \<noteq> []" by blast
    with False show ?thesis by (auto simp: run_def Let_def)
  qed
qed simp

section \<open>Event streams\<close>

lemma py_strip_id:
  assumes "s \<noteq> []" "\<not> is_space (hd s)" "\<not> is_space (last s)"
  shows "py_strip s = s"
proof -
  have "dropWhile is_space s = s" using assms by (cases s) auto
  moreover have "dropWhile is_space (rev s) = rev s"
    using assms by (cases s rule: rev_cases) auto
  ultimately show ?thesis by (simp add: py_strip_def py_lstrip_def py_rstrip_if_def)
qed

lemma dumps_dict_payload:
  shows "py_strip (dumps rt fm (JDict d)) = dumps rt fm (JDict d)"
    and "py_lstrip (dumps rt fm (JDict d)) = dumps rt fm (JDict d)"
    and "dumps rt fm (JDict d) \<noteq> lit ''[DONE]''"
  by (auto simp: py_lstrip_def is_space_def lit_Cons intro!: py_strip_id)

text \<open>
  The bytes of the data line of one event, as an upstream that prints compact JSON sends it; the
  blank line that ends the event follows it.
\<close>

definition data_line :: "runtime \<Rightarrow> json \<Rightarrow> bytes option" where
  "data_line rt v = utf8_encode (lit ''data: '' @ dumps rt compact_format v)"

definition event_lines :: "bytes list \<Rightarrow> raw_line list" where
  "event_lines bss = concat (map (\<lambda>bs. [RawBytes bs, RawBytes []]) bss)"

lemma data_line_text:
  assumes "data_line rt (JDict d) = Some bs"
  defines "line \<equiv> lit ''data: '' @ dumps rt compact_format (JDict d)"
  shows "line_text (RawBytes bs) = Inr line" "line \<noteq> []" "starts_with (lit ''data:'') line"
    "py_lstrip (drop 5 line) = dumps rt compact_format (JDict d)"
proof -
  show "line_text (RawBytes bs) = Inr line"
    using utf8_decode_encode(3) assms by (simp add: data_line_def line_text_def)
  have l: "line = lit ''data:'' @ 32 # dumps rt compact_format (JDict d)"
    by (simp add: line_def lit_def)
  then show "line \<noteq> []" "starts_with (lit ''data:'') line" by (simp_all del: dumps.simps)
  have "drop 5 line = 32 # dumps rt compact_format (JDict d)"
    unfolding l by (simp del: dumps.simps)
  then show "py_lstrip (drop 5 line) = dumps rt compact_format (JDict d)"
    using dumps_dict_payload(2) [of rt compact_format d]
    by (simp add: py_lstrip_def is_space_def del: dumps.simps)
qed

lemma empty_line_text: "line_text (RawBytes []) = Inr []"
  by (simp add: line_text_def utf8_decode_replace_def of_bytes_def)

lemma sse_event_dumps:
  assumes "plain (JDict d)"
  shows "sse_event rt [dumps rt compact_format (JDict d)] =
    (if contains_invalid_token_error rt (JDict d) False then Inl sse_invalid_error
     else Inr (Some (JDict d)))"
proof -
  have "loads_text rt (dumps rt compact_format (JDict d)) = Inr (JDict d)"
    using loads_dumps [OF assms, of rt] by (auto simp: loads_def split: sum.splits)
  moreover have "dumps rt compact_format (JDict d) \<noteq> []" by simp
  ultimately show ?thesis
    using dumps_dict_payload(1,3) [of rt compact_format d]
    by (simp add: sse_event_def del: dumps.simps)
qed

lemma iter_sse_one_event:
  assumes "data_line rt (JDict d) = Some bs" "plain (JDict d)"
    "raw a = RawBytes bs" "raw b = RawBytes []" "line_check ct a = Inr ()" "line_check ct b = Inr ()"
  shows "iter_sse_json rt ct [] (a # b # rest) =
    (if contains_invalid_token_error rt (JDict d) False then Inl sse_invalid_error
     else bindR (iter_sse_json rt ct [] rest) (\<lambda>events. Inr (JDict d # events)))"
  using data_line_text [OF assms(1)] sse_event_dumps [OF assms(2), of rt] assms(3-6)
  by (simp add: empty_line_text del: dumps.simps)

lemma iter_sse_events:
  assumes "list_all2 (\<lambda>v bs. data_line rt v = Some bs) vs bss"
    and "\<forall>v \<in> set vs. (\<exists>d. v = JDict d) \<and> plain v \<and> \<not> contains_invalid_token_error rt v False"
    and "map raw as = event_lines bss" "\<forall>a \<in> set as. line_check ct a = Inr ()"
  shows "iter_sse_json rt ct [] (as @ rest) =
    bindR (iter_sse_json rt ct [] rest) (\<lambda>events. Inr (vs @ events))"
  using assms
proof (induction vs bss arbitrary: as rule: list_all2_induct)
  case Nil
  then show ?case by (cases "iter_sse_json rt ct [] rest") (auto simp: event_lines_def)
next
  case (Cons v vs bs bss)
  then obtain d where v: "v = JDict d" by auto
  from Cons.prems obtain a b as' where as: "as = a # b # as'" "raw a = RawBytes bs" "raw b = RawBytes []"
    "map raw as' = event_lines bss"
    by (auto simp: event_lines_def map_eq_Cons_conv)
  have "iter_sse_json rt ct [] (as' @ rest) =
      bindR (iter_sse_json rt ct [] rest) (\<lambda>events. Inr (vs @ events))"
    using Cons.IH Cons.prems as by auto
  moreover have "iter_sse_json rt ct [] (a # b # as' @ rest) =
      bindR (iter_sse_json rt ct [] (as' @ rest)) (\<lambda>events. Inr (v # events))"
    using Cons.hyps Cons.prems as v iter_sse_one_event [of rt d bs a b ct "as' @ rest"] by auto
  ultimately show ?case using as
    by (cases "iter_sse_json rt ct [] rest") auto
qed

section \<open>Event texts of a stream\<close>

text \<open>
  The lines of a stream in blocks, each closed by an empty line (what follows the last one is no block), and the
  event text of each block with data lines.
\<close>

function closed_blocks :: "pystr list \<Rightarrow> pystr list list" where
  "closed_blocks texts =
     (if [] \<in> set texts
      then takeWhile (\<lambda>t. t \<noteq> []) texts # closed_blocks (tl (dropWhile (\<lambda>t. t \<noteq> []) texts)) else [])"
  by pat_completeness auto
termination
proof (relation "measure length")
  fix texts :: "pystr list"
  assume "[] \<in> set texts"
  then have "dropWhile (\<lambda>t. t \<noteq> []) texts \<noteq> []" by (auto simp: dropWhile_eq_Nil_conv)
  then show "(tl (dropWhile (\<lambda>t. t \<noteq> []) texts), texts) \<in> measure length"
    using length_dropWhile_le [of "\<lambda>t. t \<noteq> []" texts] by (cases "dropWhile (\<lambda>t. t \<noteq> []) texts") auto
qed simp

declare closed_blocks.simps [simp del]

definition data_of :: "pystr list \<Rightarrow> pystr list" where
  "data_of block = map (\<lambda>t. py_lstrip (drop 5 t)) (filter (starts_with (lit ''data:'')) block)"

definition event_text :: "pystr list \<Rightarrow> pystr" where
  "event_text ds = py_strip (py_join [10] ds)"

definition event_texts :: "pystr list \<Rightarrow> pystr list" where
  "event_texts texts = map event_text (filter (\<lambda>ds. ds \<noteq> []) (map data_of (closed_blocks texts)))"

text \<open>
  What an event text says of the credential: it reports an invalid one as a JSON object or as text that is no JSON;
  it is harmless if it does not and can be parsed at all, or fails as text that is no JSON does.
\<close>

definition reports_invalid :: "runtime \<Rightarrow> pystr \<Rightarrow> bool" where
  "reports_invalid rt p \<longleftrightarrow> (case loads_text rt p of
     Inl k \<Rightarrow> k = JSONDecodeError \<and> contains_invalid_token_text p
   | Inr v \<Rightarrow> (case v of JDict d \<Rightarrow> list_ex contains_invalid_token_text (error_texts rt v) | _ \<Rightarrow> False))"

definition harmless :: "runtime \<Rightarrow> pystr \<Rightarrow> bool" where
  "harmless rt p \<longleftrightarrow> \<not> reports_invalid rt p \<and>
     (case loads_text rt p of Inl k \<Rightarrow> k = JSONDecodeError | Inr v \<Rightarrow> True)"

text \<open>The same texts read line by line, with the data lines of the open block.\<close>

fun texts_from :: "pystr list \<Rightarrow> pystr list \<Rightarrow> pystr list" where
  "texts_from ds [] = []"
| "texts_from ds (t # ts) =
     (if t = [] then (if ds = [] then [] else [event_text ds]) @ texts_from [] ts
      else texts_from (ds @ data_of [t]) ts)"

lemma texts_from_block:
  "texts_from ds ts = (if [] \<in> set ts
     then (let b = ds @ data_of (takeWhile (\<lambda>t. t \<noteq> []) ts) in if b = [] then [] else [event_text b]) @
       texts_from [] (tl (dropWhile (\<lambda>t. t \<noteq> []) ts))
     else [])"
  by (induction ds ts rule: texts_from.induct) (auto simp: data_of_def Let_def)

lemma event_texts_from: "event_texts ts = texts_from [] ts"
proof (induction ts rule: closed_blocks.induct)
  case (1 ts)
  then show ?case
    by (subst texts_from_block) (auto simp: event_texts_def closed_blocks.simps [of ts] Let_def)
qed

lemma blank_no_report: "contains_invalid_token_text [] = False" "contains_invalid_token_text (lit ''[DONE]'') = False"
  by (simp_all add: contains_invalid_token_text_def invalid_token_patterns_def lit_def py_lower_def lower_cp_def starts_with_def)

text \<open>The decoder on a text given as a literal.\<close>

lemmas json_numerals = jvalue.simps(2) [where n = "pred_numeral k" for k, folded numeral_eq_Suc]
  jitems.simps(2) [where n = "pred_numeral k" for k, folded numeral_eq_Suc]
  jmembers.simps(2) [where n = "pred_numeral k" for k, folded numeral_eq_Suc]

lemmas json_reading = loads_text_def jws_def json_space_def starts_with_def jscalar_def jnumber_def is_digit_def json_numerals

lemma blank_loads: "loads_text rt [] = Inl JSONDecodeError" "loads_text rt (lit ''[DONE]'') = Inl JSONDecodeError"
  by (simp_all add: json_reading lit_def)

lemma sse_event_cases:
  "sse_event rt ds =
     (if reports_invalid rt (event_text ds) then Inl sse_invalid_error
      else (case loads_text rt (event_text ds) of
        Inl k \<Rightarrow> if k = JSONDecodeError then Inr None else Inl (py_exn rt k (event_text ds))
      | Inr v \<Rightarrow> Inr (case v of JDict d \<Rightarrow> Some v | _ \<Rightarrow> None)))"
proof (cases "event_text ds = [] \<or> event_text ds = lit ''[DONE]''")
  case True
  then show ?thesis
    using blank_loads [of rt] blank_no_report
    by (elim disjE) (simp_all add: sse_event_def reports_invalid_def flip: event_text_def)
next
  case False
  show ?thesis
  proof (cases "loads_text rt (event_text ds)")
    case (Inl k)
    with False show ?thesis
      by (cases k) (simp_all add: sse_event_def reports_invalid_def Let_def flip: event_text_def)
  next
    case (Inr v)
    with False show ?thesis
      by (cases v) (simp_all add: sse_event_def reports_invalid_def invalid_token_outside(1) Let_def flip: event_text_def)
  qed
qed

lemma sse_event_report: "reports_invalid rt (event_text ds) \<Longrightarrow> sse_event rt ds = Inl sse_invalid_error"
  by (simp add: sse_event_cases)

lemma sse_event_harmless: "harmless rt (event_text ds) \<Longrightarrow> \<exists>event. sse_event rt ds = Inr event"
  by (auto simp: sse_event_cases harmless_def split: sum.splits)

lemma iter_sse_reports:
  assumes "mapR (\<lambda>a. line_text (raw a)) as = Inr texts" "\<forall>a \<in> set as. line_check ct a = Inr ()"
    and "texts_from ds texts = before @ report # after"
    and "\<forall>p \<in> set before. harmless rt p" "reports_invalid rt report"
  shows "iter_sse_json rt ct ds (as @ rest) = Inl sse_invalid_error"
  using assms
proof (induction as arbitrary: texts ds before)
  case (Cons a as)
  then obtain t ts where a: "line_text (raw a) = Inr t" "line_check ct a = Inr ()" "texts = t # ts"
    "mapR (\<lambda>a. line_text (raw a)) as = Inr ts" "\<forall>a \<in> set as. line_check ct a = Inr ()"
    by (auto simp: res_simps)
  have arrives: "(case raw a of Broken e \<Rightarrow> Inl e | _ \<Rightarrow> line_check ct a) = Inr ()"
    using a(1,2) by (auto simp: line_text_def split: raw_line.splits)
  note go = Cons.IH [OF a(4,5) _ _ Cons.prems(5)]
  show ?case
  proof (cases "t = [] \<and> ds \<noteq> []")
    case True
    then have ev: "event_text ds # texts_from [] ts = before @ report # after" using Cons.prems(3) a(3) by simp
    show ?thesis
    proof (cases before)
      case Nil
      then show ?thesis using ev Cons.prems(5) sse_event_report True a(1) arrives by simp
    next
      case (Cons p before')
      then have "texts_from [] ts = before' @ report # after" "harmless rt (event_text ds)" "\<forall>p \<in> set before'. harmless rt p"
        using ev Cons.prems(4) by auto
      then show ?thesis using go [of "[]" before'] sse_event_harmless [of rt ds] True a(1) arrives by auto
    qed
  next
    case False
    then have "texts_from (if t = [] then [] else ds @ data_of [t]) ts = before @ report # after"
      using Cons.prems(3) a(3) by auto
    then show ?thesis using go [OF _ Cons.prems(4)] False a(1) arrives by (auto simp: data_of_def)
  qed
qed simp

section \<open>Properties\<close>

lemma file_id_chars: "file_id_at rt s \<Longrightarrow> take 37 s \<noteq> [] \<and> list_all id_char (take 37 s)"
proof -
  assume at: "file_id_at rt s"
  then obtain t where s: "s = file_id_prefix @ t" and len: "37 \<le> length s"
    and hex: "list_all lower_hex (take 24 (drop 13 s))"
    by (auto simp: file_id_at_def text_simps)
  have p: "length file_id_prefix = 13" "list_all id_char file_id_prefix"
    by (simp_all add: file_id_prefix_def lit_def id_char_def is_digit_def)
  have "take 37 s = file_id_prefix @ take 24 (drop 13 s)"
    using s p(1) by simp
  with p(2) hex len show ?thesis
    by (auto simp: list_all_iff lower_hex_def id_char_def)
qed

lemma find_file_ids_sound:
  "list_all (\<lambda>i. i \<noteq> [] \<and> list_all id_char i) (find_file_ids rt w s)"
proof (induction rt w s rule: find_file_ids.induct)
  case (2 rt w c s)
  then show ?case
    using file_id_chars [of rt "c # s"] by (cases "\<not> w \<and> file_id_at rt (c # s)") auto
qed simp

lemma references_flat:
  "extract_references rt v =
    \<lparr>files = append_unique [] (concat (map (\<lambda>s. file_service_ids s @ file_ids rt s) (json_strings v))),
     sediments = append_unique [] (concat (map sediment_ids (json_strings v))),
     direct_images = append_unique [] (json_results v)\<rparr>"
  by (simp add: extract_references_def walk_collect(1) collect_def)

text \<open>
  C21. \<^verbatim>\<open>extract_references\<close> walks the value once, appending as it goes; the result is the same as
  first listing every string of the value in document order, then every match of the three
  patterns in these strings, without repetitions. Direct results are those of the
  \<^verbatim>\<open>image_generation_call\<close> objects, in document order.
\<close>

theorem extract_references_flat:
  "extract_references rt value =
    \<lparr>files = append_unique [] (concat (map (\<lambda>s. file_service_ids s @ file_ids rt s) (json_strings value))),
     sediments = append_unique [] (concat (map sediment_ids (json_strings value))),
     direct_images = append_unique [] (json_results value)\<rparr>"
  by (rule references_flat)

text \<open>
  C35. The identifiers that \<^verbatim>\<open>extract_references\<close> finds in upstream text are spliced into request paths.
  Each is non-empty, contains only letters, digits, hyphens and underscores (no slash, no dot, no
  query), and is listed once.
\<close>

theorem extracted_ids_are_path_safe:
  "list_all (\<lambda>i. i \<noteq> [] \<and> list_all id_char i)
     (files (extract_references rt value) @ sediments (extract_references rt value)) \<and>
   distinct (files (extract_references rt value)) \<and> distinct (sediments (extract_references rt value))"
proof -
  have runs: "i \<noteq> [] \<and> list_all id_char i" if "i \<in> set (find_runs p s)" for i p s
    using find_runs_sound [OF that] by blast
  have ids: "i \<noteq> [] \<and> list_all id_char i" if "i \<in> set (file_ids rt s)" for i s
    using that find_file_ids_sound [of rt False s] by (auto simp: file_ids_def list_all_iff)
  have "\<forall>i \<in> set (files (extract_references rt value)). i \<noteq> [] \<and> list_all id_char i"
    and "\<forall>i \<in> set (sediments (extract_references rt value)). i \<noteq> [] \<and> list_all id_char i"
    using runs ids
    by (auto simp: references_flat uniq.set_add file_service_ids_def sediment_ids_def)
  moreover have "distinct (files (extract_references rt value))"
    and "distinct (sediments (extract_references rt value))"
    by (simp_all add: references_flat uniq.distinct_add)
  ultimately show ?thesis
    unfolding list_all_iff [where P = "\<lambda>i. i \<noteq> [] \<and> list_all id_char i"] set_append by blast
qed

text \<open>
  \<^verbatim>\<open>extract_conversation_id\<close> returns the first non-empty \<^verbatim>\<open>conversation_id\<close> string of the value in
  document order (an object before its members), the empty string exactly if there is none.
\<close>

lemma conversation_id_is_first:
  "extract_conversation_id value =
     (case conversation_ids value of [] \<Rightarrow> [] | i # _ \<Rightarrow> i) \<and>
   (extract_conversation_id value = [] \<longleftrightarrow> conversation_ids value = [])"
  using conversation_id_first(1) [of "value"] conversation_ids_nonempty(1) [of "value"]
  by (auto simp: first_or_empty_def split: list.splits)

text \<open>
  C36. The credential check looks at error text only, and at all of it: a value reports an invalid token exactly if
  one of its error texts contains one of the patterns. A string outside the members with an error name and
  outside the objects with the type of an error event never counts, whatever its neighbours are.
\<close>

theorem token_errors_are_error_texts:
  "contains_invalid_token_error rt value False \<longleftrightarrow> list_ex contains_invalid_token_text (error_texts rt value)"
  by (rule invalid_token_outside(1))

text \<open>
  C12. Events survive the wire: if an upstream sends each JSON object compactly printed on one
  \<^verbatim>\<open>data:\<close> line with a blank line after it, and no line comes after the deadline, then
  \<^verbatim>\<open>iter_sse_json\<close> yields exactly these objects, in order, and a terminating \<^verbatim>\<open>[DONE]\<close> line adds none.
\<close>

theorem sse_roundtrip:
  assumes "list_all2 (\<lambda>v bs. data_line rt v = Some bs) vs bss"
    and "\<forall>v \<in> set vs. (\<exists>d. v = JDict d) \<and> plain v \<and> \<not> contains_invalid_token_error rt v False"
    and "map raw as = event_lines bss @ [RawText (lit ''data: [DONE]''), RawText []]"
    and "\<forall>a \<in> set as. line_check ct a = Inr ()"
  shows "iter_sse_json rt ct [] as = Inr vs"
proof -
  obtain as1 a b where as: "as = as1 @ [a, b]" "map raw as1 = event_lines bss"
    "raw a = RawText (lit ''data: [DONE]'')" "raw b = RawText []"
    using assms(3) by (auto simp: map_eq_append_conv map_eq_Cons_conv)
  have "py_lstrip (drop 5 (lit ''data: [DONE]'')) = lit ''[DONE]''"
    and "starts_with (lit ''data:'') (lit ''data: [DONE]'')"
    and "sse_event rt [lit ''[DONE]''] = Inr None"
    by (simp_all add: sse_event_def lit_def starts_with_def py_lstrip_def py_strip_def
        py_rstrip_if_def is_space_def)
  then have "iter_sse_json rt ct [] [a, b] = Inr []"
    using as assms(4) by (simp add: line_text_def)
  then show ?thesis
    using iter_sse_events [OF assms(1,2) as(2), of ct "[a, b]"] as assms(4) by simp
qed

definition sse_example :: json where
  "sse_example = JDict [(lit ''conversation_id'', JStr (lit ''conv'')), (lit ''n'', JInt 2)]"

definition sse_example_line :: bytes where
  "sse_example_line = to_bytes (lit ''data: {\"conversation_id\":\"conv\",\"n\":2}'')"

theorem sse_roundtrip_witness:
  "iter_sse_json example_runtime None []
     (map (\<lambda>x. \<lparr>at_time = 0, flag = False, raw = x\<rparr>)
        (event_lines [sse_example_line] @ [RawText (lit ''data: [DONE]''), RawText []])) =
   Inr [sse_example]"
proof (rule sse_roundtrip)
  have "dumps example_runtime compact_format sse_example = lit ''{\"conversation_id\":\"conv\",\"n\":2}''"
    by (simp add: sse_example_def compact_format_def quoted_def lit_def escape_cp_def show_int_def
        show_nat.simps)
  then have "data_line example_runtime sse_example = Some sse_example_line"
    unfolding data_line_def sse_example_line_def
    by (simp flip: lit_append) (rule utf8_encode_ascii, simp add: lit_def)
  then show "list_all2 (\<lambda>v bs. data_line example_runtime v = Some bs) [sse_example] [sse_example_line]"
    by simp
  have "plain sse_example"
    by (simp add: sse_example_def int_ok_def show_nat.simps)
  moreover have "\<not> contains_invalid_token_error example_runtime sse_example False"
    by (simp add: sse_example_def event_error_def dict_get_def py_lower_def lower_cp_def lit_def
        error_field_names_def)
  ultimately show "\<forall>v \<in> set [sse_example]. (\<exists>d. v = JDict d) \<and> plain v \<and>
      \<not> contains_invalid_token_error example_runtime v False"
    by (simp add: sse_example_def)
qed (simp_all add: comp_def line_check_def)

text \<open>
  C18. A stream that reports the credential as invalid fails with the 401 that cools the credential down. The data lines
  of every block that an empty line closes are one event text, in whatever layout the upstream prints it; if
  the first of these texts that is not harmless reports an invalid credential, as a JSON object or as text that is
  no JSON, \<^verbatim>\<open>iter_sse_json\<close> raises the error when the block closes, whatever follows, a broken connection included.
\<close>

theorem invalid_credential_ends_stream:
  assumes "mapR (\<lambda>a. line_text (raw a)) as = Inr texts" "\<forall>a \<in> set as. line_check ct a = Inr ()"
    and "event_texts texts = before @ report # after"
    and "\<forall>p \<in> set before. harmless rt p" "reports_invalid rt report"
  shows "iter_sse_json rt ct [] (as @ rest) = Inl (UpstreamError msg_sse_invalid 401 False)"
  using iter_sse_reports [of as texts ct "[]" before report after rt rest] assms
  by (simp add: event_texts_from sse_invalid_error_def)

definition report_lines :: "string list" where
  "report_lines = ['': ping'', ''data: one moment'', [], ''event: error'',
     ''data:{\"type\": \"error\", '', ''data: \"error\": {\"code\": \"token_invalidated\"}}'', []]"

definition report_text :: pystr where
  "report_text = lit (''{\"type\": \"error\", '' @ [CHR 0x0A] @ ''\"error\": {\"code\": \"token_invalidated\"}}'')"

lemma report_texts: "event_texts (map lit report_lines) = [lit ''one moment''] @ report_text # []"
  by (simp add: event_texts_from report_lines_def report_text_def data_of_def event_text_def starts_with_def lit_def
      py_lstrip_def py_strip_def py_rstrip_if_def is_space_def)

lemma report_invalid: "reports_invalid example_runtime report_text"
proof -
  have "loads_text example_runtime report_text =
      Inr (JDict [(lit ''type'', JStr (lit ''error'')), (lit ''error'', JDict [(lit ''code'', JStr (lit ''token_invalidated''))])])"
    by (simp add: json_reading report_text_def lit_def)
  then show ?thesis
    by (simp add: reports_invalid_def typed_error_def contains_invalid_token_text_def invalid_token_patterns_def
        dict_get_def py_or_def py_lower_def lower_cp_def starts_with_def lit_def)
qed

theorem invalid_credential_ends_stream_witness:
  "iter_sse_json example_runtime None []
     (map (\<lambda>t. \<lparr>at_time = 0, flag = False, raw = RawText (lit t)\<rparr>) report_lines @
      [\<lparr>at_time = 0, flag = False, raw = Broken (PyError OSError [])\<rparr>]) = Inl (UpstreamError msg_sse_invalid 401 False)"
proof (rule invalid_credential_ends_stream)
  show "event_texts (map lit report_lines) = [lit ''one moment''] @ report_text # []"
    by (rule report_texts)
  show "reports_invalid example_runtime report_text" by (rule report_invalid)
  have "loads_text example_runtime (lit ''one moment'') = Inl JSONDecodeError"
    by (simp add: json_reading lit_def)
  moreover have "\<not> contains_invalid_token_text (lit ''one moment'')"
    by (simp add: contains_invalid_token_text_def invalid_token_patterns_def py_lower_def lower_cp_def starts_with_def lit_def)
  ultimately show "\<forall>p \<in> set [lit ''one moment'']. harmless example_runtime p"
    by (simp add: harmless_def reports_invalid_def)
qed (simp_all add: report_lines_def line_text_def line_check_def)

end
