(* ===== verification/Credential_Pool.thy ===== *)
theory Credential_Pool
  imports Backend_Events_Props
begin

text \<open>
  The module-level state of \<^verbatim>\<open>helper/protocol.py\<close> that all generations of the process share: the
  rotation cursor, one non-blocking lock per credential, and the cooldown table. Every operation
  here runs under \<^verbatim>\<open>_cursor_lock\<close> or \<^verbatim>\<open>_state_lock\<close> or is one call of a lock method, so it is atomic.
\<close>

section \<open>State and operations\<close>

text \<open>\<open>credential_locks\<close> maps a key to whether its lock is held; a lock exists from its first use.\<close>

record pool =
  credential_cursor :: nat
  credential_locks :: "pystr \<rightharpoonup> bool"
  cooldowns :: "pystr \<rightharpoonup> time"

definition hexdigest :: "bytes \<Rightarrow> pystr" where
  "hexdigest bs = concat (map (\<lambda>n. [hex_digit (n div 16), hex_digit (n mod 16)]) (of_bytes bs))"

definition credential_key :: "runtime \<Rightarrow> json \<Rightarrow> pystr res" where
  "credential_key rt credential =
     (case credential of
        JDict d \<Rightarrow>
          (let token = str_or_empty rt (dict_get (lit ''access_token'') d)
           in bindR (or_raise rt UnicodeError token (utf8_encode token))
                (\<lambda>bs. Inr (hexdigest (rt_sha256 rt bs))))
      | v \<Rightarrow> Inl (py_exn rt AttributeError (py_str rt v)))"

definition credential_lock :: "pystr \<Rightarrow> pool \<Rightarrow> pool" where
  "credential_lock key p = (case credential_locks p key of
     None \<Rightarrow> p\<lparr>credential_locks := (credential_locks p)(key \<mapsto> False)\<rparr> | Some held \<Rightarrow> p)"

text \<open>\<^verbatim>\<open>lock.acquire(blocking=False)\<close> and \<^verbatim>\<open>lock.release()\<close> of the lock of a key.\<close>

definition lock_held :: "pool \<Rightarrow> pystr \<Rightarrow> bool" where
  "lock_held p key \<longleftrightarrow> credential_locks p key = Some True"

definition try_acquire :: "pystr \<Rightarrow> pool \<Rightarrow> bool \<times> pool" where
  "try_acquire key p =
     (if lock_held p key then (False, p)
      else (True, p\<lparr>credential_locks := (credential_locks p)(key \<mapsto> True)\<rparr>))"

definition release_lock :: "runtime \<Rightarrow> pystr \<Rightarrow> pool \<Rightarrow> unit res \<times> pool" where
  "release_lock rt key p =
     (if lock_held p key
      then (Inr (), p\<lparr>credential_locks := (credential_locks p)(key \<mapsto> False)\<rparr>)
      else (Inl (py_exn rt RuntimeError key), p))"

definition credential_cooling :: "pystr \<Rightarrow> time \<Rightarrow> pool \<Rightarrow> bool" where
  "credential_cooling key wall p \<longleftrightarrow>
     (case cooldowns p key of None \<Rightarrow> 0 | Some until \<Rightarrow> until) > wall"

definition set_credential_cooldown :: "pystr \<Rightarrow> time \<Rightarrow> time \<Rightarrow> pool \<Rightarrow> pool" where
  "set_credential_cooldown key seconds wall p =
     p\<lparr>cooldowns := (cooldowns p)(key \<mapsto> wall + seconds)\<rparr>"

definition rotate_credentials ::
    "runtime \<Rightarrow> json list \<Rightarrow> nat \<Rightarrow> pool \<Rightarrow> json list res \<times> pool" where
  "rotate_credentials rt credentials offset p =
     (if credentials = [] then (Inl (py_exn rt ZeroDivisionError []), p)
      else (let start = (credential_cursor p + offset) mod length credentials
            in (Inr (drop start credentials @ take start credentials),
                p\<lparr>credential_cursor := (credential_cursor p + 1) mod length credentials\<rparr>)))"

section \<open>The lock table as an interface\<close>

text \<open>
  What a user of the locks relies on: acquiring a free lock takes it and no other, acquiring a
  held one changes nothing, releasing a held one frees it and no other. \<open>own\<close> says which key each
  thread holds; \<open>lock_consistent\<close> that the table and the owners agree.
\<close>

definition lock_consistent :: "('k \<Rightarrow> bool) \<Rightarrow> ('i \<Rightarrow> 'k option) \<Rightarrow> bool" where
  "lock_consistent held own \<longleftrightarrow>
     (\<forall>k. held k \<longleftrightarrow> (\<exists>i. own i = Some k)) \<and> (\<forall>i j k. own i = Some k \<and> own j = Some k \<longrightarrow> i = j)"

locale lock_table =
  fixes acquire :: "'k \<Rightarrow> 's \<Rightarrow> bool \<times> 's"
    and release :: "'k \<Rightarrow> 's \<Rightarrow> 'r \<times> 's"
    and held :: "'s \<Rightarrow> 'k \<Rightarrow> bool"
  assumes acquire_free: "\<not> held s k \<Longrightarrow> fst (acquire k s) \<and> held (snd (acquire k s)) = (held s)(k := True)"
    and acquire_held: "held s k \<Longrightarrow> \<not> fst (acquire k s) \<and> held (snd (acquire k s)) = held s"
    and release_held: "held s k \<Longrightarrow> held (snd (release k s)) = (held s)(k := False)"
begin

lemma acquire_success:
  assumes "acquire k s = (True, s')"
  shows "\<not> held s k" "held s' = (held s)(k := True)"
  using assms acquire_free [of s k] acquire_held [of s k] by (auto split: if_splits)

lemma acquire_failure:
  assumes "acquire k s = (False, s')"
  shows "held s k" "held s' = held s"
  using assms acquire_free [of s k] acquire_held [of s k] by (auto split: if_splits)

lemma consistent_exclusive: "lock_consistent (held s) own \<Longrightarrow> own i = Some k \<Longrightarrow> own j = Some k \<Longrightarrow> i = j"
  by (auto simp: lock_consistent_def)

lemma consistent_held: "lock_consistent (held s) own \<Longrightarrow> own i = Some k \<Longrightarrow> held s k"
  by (auto simp: lock_consistent_def)

lemma consistent_acquire:
  assumes c: "lock_consistent (held s) own" and o: "own i = None" and a: "acquire k s = (True, s')"
  shows "lock_consistent (held s') (own(i := Some k))"
proof -
  have free: "\<not> held s k" and held': "held s' = (held s)(k := True)"
    using acquire_success [OF a] by simp_all
  have nobody: "own j \<noteq> Some k" for j
    using free consistent_held [OF c] by blast
  have "held s' k' \<longleftrightarrow> (\<exists>j. (own(i := Some k)) j = Some k')" for k'
  proof (cases "k' = k")
    case True
    then show ?thesis by (auto simp: held')
  next
    case False
    then have "held s' k' \<longleftrightarrow> (\<exists>j. own j = Some k')" using c by (simp add: held' lock_consistent_def)
    also have "\<dots> \<longleftrightarrow> (\<exists>j. (own(i := Some k)) j = Some k')"
      using False o by (metis fun_upd_apply option.distinct(1) option.inject)
    finally show ?thesis .
  qed
  moreover have "j = l" if "(own(i := Some k)) j = Some m" "(own(i := Some k)) l = Some m" for j l m
    using that nobody consistent_exclusive [OF c, of j m l] by (auto split: if_splits)
  ultimately show ?thesis by (simp only: lock_consistent_def) blast
qed

lemma consistent_refused:
  assumes "lock_consistent (held s) own" "acquire k s = (False, s')"
  shows "lock_consistent (held s') own"
  using assms acquire_failure [OF assms(2)] by simp

lemma consistent_release:
  assumes c: "lock_consistent (held s) own" and o: "own i = Some k" and r: "release k s = (r, s')"
  shows "lock_consistent (held s') (own(i := None))"
proof -
  have held': "held s' = (held s)(k := False)"
    using release_held [OF consistent_held [OF c o]] r by simp
  have only: "own j = Some k \<Longrightarrow> j = i" for j
    by (rule consistent_exclusive [OF c _ o])
  have "held s' k' \<longleftrightarrow> (\<exists>j. (own(i := None)) j = Some k')" for k'
  proof (cases "k' = k")
    case True
    then show ?thesis using only by (auto simp: held')
  next
    case False
    then have "held s' k' \<longleftrightarrow> (\<exists>j. own j = Some k')" using c by (simp add: held' lock_consistent_def)
    also have "\<dots> \<longleftrightarrow> (\<exists>j. (own(i := None)) j = Some k')"
      using False o by (metis fun_upd_apply option.distinct(1) option.inject)
    finally show ?thesis .
  qed
  moreover have "j = l" if "(own(i := None)) j = Some m" "(own(i := None)) l = Some m" for j l m
    using that consistent_exclusive [OF c, of j m l] by (auto split: if_splits)
  ultimately show ?thesis by (simp only: lock_consistent_def) blast
qed

end

interpretation credential_table: lock_table try_acquire "release_lock rt" lock_held
  by unfold_locales (auto simp: try_acquire_def release_lock_def lock_held_def fun_eq_iff)

section \<open>Facts about the operations\<close>

lemma hex_digit_inj: "a < 16 \<Longrightarrow> b < 16 \<Longrightarrow> hex_digit a = hex_digit b \<Longrightarrow> a = b"
  by (auto simp: hex_digit_def split: if_splits)

lemma hexdigest_inj: "hexdigest a = hexdigest b \<longleftrightarrow> a = b"
proof
  assume eq: "hexdigest a = hexdigest b"
  have "ns = ms" if "concat (map (\<lambda>n. [hex_digit (n div 16), hex_digit (n mod 16)]) ns) =
      concat (map (\<lambda>n. [hex_digit (n div 16), hex_digit (n mod 16)]) ms)"
    "\<forall>n \<in> set ns. n < 256" "\<forall>n \<in> set ms. n < 256" for ns ms :: "nat list"
    using that
  proof (induction ns arbitrary: ms)
    case Nil
    then show ?case by (cases ms) auto
  next
    case (Cons n ns)
    from Cons.prems(1) obtain m ms' where ms: "ms = m # ms'" by (cases ms) auto
    with Cons.prems have "n div 16 = m div 16" "n mod 16 = m mod 16"
      by (auto intro!: hex_digit_inj)
    then have "n = m" by (metis div_mult_mod_eq)
    with Cons ms show ?case by auto
  qed
  from this [of "of_bytes a" "of_bytes b"] eq have "of_bytes a = of_bytes b"
    by (auto simp: hexdigest_def of_bytes_less)
  then show "a = b" by (metis to_bytes_of_bytes)
qed simp

lemma credential_cooling_set:
  "credential_cooling k now (set_credential_cooldown key seconds wall p) \<longleftrightarrow>
     (if k = key then now < wall + seconds else credential_cooling k now p)"
  by (simp add: credential_cooling_def set_credential_cooldown_def)

lemma lock_held_frame [simp]:
  "lock_held (set_credential_cooldown k x w p) = lock_held p"
  "lock_held (p\<lparr>credential_cursor := n\<rparr>) = lock_held p"
  "lock_held (credential_lock k p) = lock_held p"
  by (auto simp: lock_held_def set_credential_cooldown_def credential_lock_def fun_eq_iff split: option.splits)

lemma rotate_credentials_frame:
  "rotate_credentials rt cs i p = (r, p') \<Longrightarrow>
   lock_held p' = lock_held p \<and> cooldowns p' = cooldowns p"
  by (auto simp: rotate_credentials_def Let_def lock_held_def split: if_splits)

lemma rotate_credentials_Inr:
  "rotate_credentials rt cs i p = (Inr ordered, p') \<Longrightarrow>
   cs \<noteq> [] \<and> ordered = rotate ((credential_cursor p + i) mod length cs) cs"
  by (auto simp: rotate_credentials_def Let_def rotate_drop_take split: if_splits)

end
