(* ===== verification/Generate_One.thy ===== *)
theory Generate_One
  imports Credential_Pool
begin

text \<open>
  \<^verbatim>\<open>generate_one\<close> of \<^verbatim>\<open>helper/protocol.py\<close>: the loop that looks for a free credential for one
  image. Many run at once, in the worker threads of one request and of several requests, and they
  share the credential pool. One call is a \<open>gen\<close>, its local variables and its position in
  the code; \<open>gen_step\<close> runs it to its next access to something shared (a lock, the cooldown table, a
  clock, the upstream), so any interleaving of threads is a sequence of these steps.
\<close>

section \<open>State\<close>

text \<open>
  The positions: the test of the outer loop, the inner loop, its first cooldown check, the
  non-blocking acquisition, the second cooldown check under the lock, the release of a cooling
  credential, the call of \<^verbatim>\<open>generate_with_credential\<close>, the exception handlers, the \<^verbatim>\<open>finally\<close>
  block, the tests after the inner loop, the wait, and the classification of the failure.
\<close>

datatype gen_pc =
    AtWhile
  | AtFor
  | AtCooling json pystr
  | AtAcquire json pystr
  | AtRecheck json pystr
  | AtSkip pystr
  | AtGenerate json pystr
  | AtHandler pystr exn
  | AtRelease pystr "json option"
  | AtAfterFor
  | AtSleep
  | Waiting time
  | AtBreak
  | AtEnd
  | Returned "json res"

text \<open>
  The local variables; \<open>todo\<close> is what the inner loop has left of \<open>ordered\<close>. \<open>calls\<close> is no variable
  of the program but a record of it: the key of each credential this call has been admitted to
  use, and the wall clock of the cooldown check that admitted it.
\<close>

record gen =
  ordered :: "json list"
  errors :: "pystr list"
  failure_statuses :: "int list"
  last_error :: "exn option"
  attempted :: "pystr set"
  busy :: bool
  progressed :: bool
  todo :: "json list"
  pc :: gen_pc
  calls :: "(pystr \<times> time) list"

text \<open>
  What a step reads from outside the process's own variables: the two clocks, the control of the
  request, and what \<^verbatim>\<open>generate_with_credential\<close> does with a credential.
\<close>

record gen_env =
  now :: time
  wall :: time
  env_control :: control
  outcome :: "json \<Rightarrow> json res"

abbreviation env_expired :: "gen_env \<Rightarrow> bool" where
  "env_expired e \<equiv> expired (env_control e) (now e)"

section \<open>Steps\<close>

definition generate_one_start :: "runtime \<Rightarrow> json list \<Rightarrow> nat \<Rightarrow> pool \<Rightarrow> pool \<times> gen" where
  "generate_one_start rt credentials index p =
     (let fresh = \<lparr>ordered = [], errors = [], failure_statuses = [], last_error = None, attempted = {},
            busy = False, progressed = False, todo = [], pc = AtWhile, calls = []\<rparr>
      in case rotate_credentials rt credentials index p of
           (Inl e, p') \<Rightarrow> (p', fresh\<lparr>pc := Returned (Inl e)\<rparr>)
         | (Inr cs, p') \<Rightarrow> (p', fresh\<lparr>ordered := cs\<rparr>))"

text \<open>The handlers: which failure cools a credential down, and for how long.\<close>

definition cooldown_of :: "exn \<Rightarrow> time option" where
  "cooldown_of e = (case e of
     UpstreamError message status retryable \<Rightarrow>
       if status = 401 \<or> status = 403 then Some 300
       else if status = 429 then Some 120
       else if retryable then Some 30 else None
   | HelperError message status code \<Rightarrow> None
   | PyError k message \<Rightarrow> Some 15)"

definition handle_failure :: "exn \<Rightarrow> gen \<Rightarrow> gen" where
  "handle_failure e g =
     (case exn_status e of
        Some status \<Rightarrow> g\<lparr>errors := errors g @ [exn_str e],
          failure_statuses := failure_statuses g @ [status], last_error := Some e\<rparr>
      | None \<Rightarrow> g\<lparr>errors := errors g @ [exn_str e]\<rparr>)"

definition cool_down :: "pystr \<Rightarrow> exn \<Rightarrow> time \<Rightarrow> pool \<Rightarrow> pool" where
  "cool_down key e w p = (case cooldown_of e of None \<Rightarrow> p
     | Some seconds \<Rightarrow> set_credential_cooldown key seconds w p)"

text \<open>The exception after the loop.\<close>

definition wait_timeout_error :: exn where
  "wait_timeout_error = HelperError msg_wait_timeout 504 (lit ''image_timeout'')"

definition failure_verdict :: "gen \<Rightarrow> exn" where
  "failure_verdict g =
     (if failure_statuses g \<noteq> [] \<and> list_all (\<lambda>status. status = 401 \<or> status = 403) (failure_statuses g)
      then HelperError (case last_error g of None \<Rightarrow> lit ''None'' | Some e \<Rightarrow> exn_str e) 401 (lit ''credential_expired'')
      else HelperError (if errors g \<noteq> [] then last (errors g) else msg_all_busy) 503
             (lit ''all_credentials_failed''))"

text \<open>The inner loop takes its next credential.\<close>

definition for_step :: "runtime \<Rightarrow> gen \<Rightarrow> gen" where
  "for_step rt g = (case todo g of
     [] \<Rightarrow> g\<lparr>pc := AtAfterFor\<rparr>
   | credential # rest \<Rightarrow>
       (case credential_key rt credential of
          Inl e \<Rightarrow> g\<lparr>pc := Returned (Inl e)\<rparr>
        | Inr key \<Rightarrow> g\<lparr>todo := rest, pc := if key \<in> attempted g then AtFor else AtCooling credential key\<rparr>))"

definition while_step :: "runtime \<Rightarrow> gen_env \<Rightarrow> gen \<Rightarrow> gen" where
  "while_step rt e g =
     (case mapR (credential_key rt) (ordered g) of
        Inl ex \<Rightarrow> g\<lparr>pc := Returned (Inl ex)\<rparr>
      | Inr keys \<Rightarrow>
          if card (attempted g) < card (set keys) \<and> \<not> env_expired e
          then g\<lparr>busy := False, progressed := False, todo := ordered g, pc := AtFor\<rparr>
          else g\<lparr>pc := AtEnd\<rparr>)"

definition gen_step :: "runtime \<Rightarrow> gen_env \<Rightarrow> pool \<Rightarrow> gen \<Rightarrow> pool \<times> gen" where
  "gen_step rt e p g = (case pc g of
     AtWhile \<Rightarrow> (p, while_step rt e g)
   | AtFor \<Rightarrow> (p, for_step rt g)
   | AtCooling c key \<Rightarrow>
       if credential_cooling key (wall e) p
       then (p, g\<lparr>attempted := insert key (attempted g), pc := AtFor\<rparr>)
       else (p, g\<lparr>pc := AtAcquire c key\<rparr>)
   | AtAcquire c key \<Rightarrow>
       (case try_acquire key (credential_lock key p) of
          (True, p') \<Rightarrow> (p', g\<lparr>pc := AtRecheck c key\<rparr>)
        | (False, p') \<Rightarrow> (p', g\<lparr>busy := True, pc := AtFor\<rparr>))
   | AtRecheck c key \<Rightarrow>
       if credential_cooling key (wall e) p
       then (p, g\<lparr>attempted := insert key (attempted g), pc := AtSkip key\<rparr>)
       else (p, g\<lparr>attempted := insert key (attempted g), progressed := True,
                  calls := calls g @ [(key, wall e)], pc := AtGenerate c key\<rparr>)
   | AtSkip key \<Rightarrow>
       (case release_lock rt key p of
          (Inl ex, p') \<Rightarrow> (p', g\<lparr>pc := Returned (Inl ex)\<rparr>)
        | (Inr _, p') \<Rightarrow> (p', g\<lparr>pc := AtFor\<rparr>))
   | AtGenerate c key \<Rightarrow>
       (case outcome e c of
          Inl ex \<Rightarrow> (p, g\<lparr>pc := AtHandler key ex\<rparr>)
        | Inr item \<Rightarrow> (p, g\<lparr>pc := AtRelease key (Some item)\<rparr>))
   | AtHandler key ex \<Rightarrow> (cool_down key ex (wall e) p, (handle_failure ex g)\<lparr>pc := AtRelease key None\<rparr>)
   | AtRelease key result \<Rightarrow>
       (case release_lock rt key p of
          (Inl ex, p') \<Rightarrow> (p', g\<lparr>pc := Returned (Inl ex)\<rparr>)
        | (Inr _, p') \<Rightarrow> (p', g\<lparr>pc := case result of None \<Rightarrow> AtFor | Some item \<Rightarrow> Returned (Inr item)\<rparr>))
   | AtAfterFor \<Rightarrow> (p, g\<lparr>pc := if busy g \<and> \<not> progressed g \<and> \<not> env_expired e then AtSleep else AtBreak\<rparr>)
   | AtSleep \<Rightarrow>
       (case sleep_time (env_control e) (now e) (2 / 100) of
          Inl ex \<Rightarrow> (p, g\<lparr>pc := Returned (Inl ex)\<rparr>)
        | Inr t \<Rightarrow> (p, g\<lparr>pc := Waiting (now e + t)\<rparr>))
   | Waiting until \<Rightarrow>
       if until \<le> now e \<or> cancelled (env_control e)
       then (case after_sleep (env_control e) (now e) of
               Inl ex \<Rightarrow> (p, g\<lparr>pc := Returned (Inl ex)\<rparr>)
             | Inr _ \<Rightarrow> (p, g\<lparr>pc := AtWhile\<rparr>))
       else (p, g)
   | AtBreak \<Rightarrow> (p, g\<lparr>pc := if \<not> busy g \<or> env_expired e then AtEnd else AtWhile\<rparr>)
   | AtEnd \<Rightarrow> (p, g\<lparr>pc := Returned (Inl (if env_expired e then wait_timeout_error else failure_verdict g))\<rparr>)
   | Returned r \<Rightarrow> (p, g))"

section \<open>All threads together\<close>

text \<open>
  Each thread that has started has its \<open>gen\<close>. A step starts a thread or runs one of those
  started, with any clocks, any control and any upstream.
\<close>

record sched =
  shared :: pool
  threads :: "nat \<Rightarrow> gen option"

inductive sched_step :: "runtime \<Rightarrow> sched \<Rightarrow> sched \<Rightarrow> bool" for rt :: runtime where
  spawn: "threads s i = None \<Longrightarrow> generate_one_start rt credentials index (shared s) = (p, g) \<Longrightarrow>
    sched_step rt s (s\<lparr>shared := p, threads := (threads s)(i \<mapsto> g)\<rparr>)"
| run: "threads s i = Some g \<Longrightarrow> gen_step rt e (shared s) g = (p, g') \<Longrightarrow>
    sched_step rt s (s\<lparr>shared := p, threads := (threads s)(i \<mapsto> g')\<rparr>)"

inductive sched_reachable :: "runtime \<Rightarrow> sched \<Rightarrow> bool" for rt :: runtime where
  start: "(\<forall>k. \<not> lock_held (shared s) k) \<Longrightarrow> (\<forall>i. threads s i = None) \<Longrightarrow> sched_reachable rt s"
| step: "sched_reachable rt s \<Longrightarrow> sched_step rt s t \<Longrightarrow> sched_reachable rt t"

end
