(* ===== verification/Generate_One_Props.thy ===== *)
theory Generate_One_Props
  imports Generate_One
begin

text \<open>
  What holds of the credential loop: exclusive use of a credential under any interleaving, no use
  during a cooldown, at most one use per credential and image, the answer within a bounded number
  of steps of the deadline, and the shape of the exception.
\<close>

section \<open>Locks\<close>

text \<open>The credential whose lock a thread holds, read off its position.\<close>

fun holding_pc :: "gen_pc \<Rightarrow> pystr option" where
  "holding_pc (AtRecheck c k) = Some k"
| "holding_pc (AtSkip k) = Some k"
| "holding_pc (AtGenerate c k) = Some k"
| "holding_pc (AtHandler k e) = Some k"
| "holding_pc (AtRelease k r) = Some k"
| "holding_pc _ = None"

definition owners :: "sched \<Rightarrow> nat \<Rightarrow> pystr option" where
  "owners s i = (case threads s i of None \<Rightarrow> None | Some g \<Rightarrow> holding_pc (pc g))"

definition lock_step :: "gen_pc \<Rightarrow> bool" where
  "lock_step q \<longleftrightarrow> (case q of AtAcquire c k \<Rightarrow> True | AtSkip k \<Rightarrow> True | AtRelease k r \<Rightarrow> True | _ \<Rightarrow> False)"

lemma cool_down_locks [simp]: "lock_held (cool_down k ex w p) = lock_held p"
  by (simp add: cool_down_def split: option.splits)

lemma cool_down_other: "k' \<noteq> k \<Longrightarrow> cooldowns (cool_down k ex w p) k' = cooldowns p k'"
  by (simp add: cool_down_def set_credential_cooldown_def split: option.splits)

lemma for_step_holding [simp]: "holding_pc (pc (for_step rt g)) = (if todo g = [] then None else None)"
  by (simp add: for_step_def split: list.splits sum.splits)

lemma while_step_holding [simp]: "holding_pc (pc (while_step rt e g)) = None"
  by (simp add: while_step_def split: sum.splits)

lemma gen_step_frame:
  assumes "gen_step rt e p g = (p', g')" "\<not> lock_step (pc g)"
  shows "lock_held p' = lock_held p" "holding_pc (pc g') = holding_pc (pc g)"
  using assms
  by (auto simp: gen_step_def lock_step_def split: gen_pc.splits if_splits sum.splits)

lemma gen_step_locks:
  assumes c: "lock_consistent (lock_held p) own" and o: "own i = holding_pc (pc g)"
    and st: "gen_step rt e p g = (p', g')"
  shows "lock_consistent (lock_held p') (own(i := holding_pc (pc g')))"
proof (cases "lock_step (pc g)")
  case False
  from gen_step_frame [OF st False] c o show ?thesis by (metis fun_upd_triv)
next
  case True
  then consider cr k where "pc g = AtAcquire cr k" | k where "pc g = AtSkip k"
    | k r where "pc g = AtRelease k r"
    by (auto simp: lock_step_def split: gen_pc.splits)
  then show ?thesis
  proof cases
    case (1 cr k)
    obtain b q where a: "try_acquire k (credential_lock k p) = (b, q)" by (cases "try_acquire k (credential_lock k p)")
    from c have c': "lock_consistent (lock_held (credential_lock k p)) own" by simp
    have free: "own i = None" using o 1 by simp
    show ?thesis
    proof (cases b)
      case True
      with 1 st a have "p' = q" "holding_pc (pc g') = Some k" by (auto simp: gen_step_def)
      moreover have "try_acquire k (credential_lock k p) = (True, q)" using a True by simp
      ultimately show ?thesis using credential_table.consistent_acquire [OF c' free] by simp
    next
      case False
      with 1 st a have "p' = q" "holding_pc (pc g') = None" by (auto simp: gen_step_def)
      moreover have "try_acquire k (credential_lock k p) = (False, q)" using a False by simp
      ultimately show ?thesis
        using credential_table.consistent_refused [OF c'] free by (metis fun_upd_triv)
    qed
  next
    case (2 k)
    then have "own i = Some k" using o by simp
    moreover obtain r q where r: "release_lock rt k p = (r, q)" by (cases "release_lock rt k p")
    ultimately have "lock_consistent (lock_held q) (own(i := None))"
      using credential_table.consistent_release [OF c] by blast
    with 2 st r show ?thesis by (cases r) (auto simp: gen_step_def)
  next
    case (3 k x)
    then have "own i = Some k" using o by simp
    moreover obtain r q where r: "release_lock rt k p = (r, q)" by (cases "release_lock rt k p")
    ultimately have "lock_consistent (lock_held q) (own(i := None))"
      using credential_table.consistent_release [OF c] by blast
    with 3 st r show ?thesis by (cases r) (auto simp: gen_step_def split: option.splits)
  qed
qed

lemma start_frame:
  assumes "generate_one_start rt cs i p = (p', g)"
  shows "lock_held p' = lock_held p" "cooldowns p' = cooldowns p" "holding_pc (pc g) = None"
    "calls g = []" "attempted g = {}"
  using assms rotate_credentials_frame [of rt cs i p]
  by (auto simp: generate_one_start_def Let_def split: prod.splits sum.splits)

lemma owners_update:
  "owners (s\<lparr>shared := p, threads := (threads s)(i \<mapsto> g)\<rparr>) = (owners s)(i := holding_pc (pc g))"
  by (auto simp: owners_def)

lemma sched_locks: "sched_reachable rt s \<Longrightarrow> lock_consistent (lock_held (shared s)) (owners s)"
proof (induction rule: sched_reachable.induct)
  case (start s)
  then show ?case by (simp add: lock_consistent_def owners_def)
next
  case (step s t)
  from step.hyps(2) show ?case
  proof cases
    case (spawn i credentials index p g)
    have "(owners s)(i := holding_pc (pc g)) = owners s"
      using spawn(2) start_frame(3) [OF spawn(3)] by (auto simp: owners_def)
    then show ?thesis
      using step.IH start_frame(1) [OF spawn(3)] spawn(1) by (simp add: owners_update)
  next
    case (run i g e p g')
    then have "owners s i = holding_pc (pc g)" by (simp add: owners_def)
    from gen_step_locks [OF step.IH this run(3)]
    have "lock_consistent (lock_held p) ((owners s)(i := holding_pc (pc g')))" .
    moreover have "shared t = p" "owners t = (owners s)(i := holding_pc (pc g'))"
      by (simp add: run(1), simp only: run(1) owners_update)
    ultimately show ?thesis by (simp only:)
  qed
qed


section \<open>Cooldowns\<close>

text \<open>
  Where a thread is admitted to a credential, the credential is not cooling; until it has
  released the lock nobody else touches the credential's cooldown, so this stays true until its
  own handler sets one.
\<close>

definition admitted :: "gen \<Rightarrow> pool \<Rightarrow> bool" where
  "admitted g p \<longleftrightarrow> (case pc g of
     AtGenerate c k \<Rightarrow> calls g \<noteq> [] \<and> fst (last (calls g)) = k \<and>
       \<not> credential_cooling k (snd (last (calls g))) p
   | _ \<Rightarrow> True)"

lemma gen_step_cooldowns:
  assumes "gen_step rt e p g = (p', g')" "cooldowns p' k \<noteq> cooldowns p k"
  shows "holding_pc (pc g) = Some k"
  using assms
  by (auto simp: gen_step_def credential_lock_def try_acquire_def release_lock_def dest: cool_down_other
      split: gen_pc.splits if_splits sum.splits option.splits prod.splits)
    (metis cool_down_other)

lemma gen_step_admitted: "gen_step rt e p g = (p', g') \<Longrightarrow> admitted g' p'"
  by (auto simp: admitted_def gen_step_def for_step_def while_step_def handle_failure_def
      split: gen_pc.splits if_splits sum.splits option.splits prod.splits list.splits bool.splits)

lemma admitted_frame:
  "admitted g p \<Longrightarrow> (\<And>k. holding_pc (pc g) = Some k \<Longrightarrow> cooldowns p' k = cooldowns p k) \<Longrightarrow> admitted g p'"
  by (auto simp: admitted_def credential_cooling_def split: gen_pc.splits)


section \<open>Bookkeeping of one call\<close>

text \<open>
  What a call of \<^verbatim>\<open>generate_one\<close> knows of the credentials it has tried: each admission is to a
  credential not attempted before, and the statuses and the last error are those of the failures.
\<close>

definition fresh_key :: "gen \<Rightarrow> bool" where
  "fresh_key g \<longleftrightarrow> (case pc g of AtCooling c k \<Rightarrow> k \<notin> attempted g | AtAcquire c k \<Rightarrow> k \<notin> attempted g
     | AtRecheck c k \<Rightarrow> k \<notin> attempted g | _ \<Rightarrow> True)"

definition key_in_order :: "runtime \<Rightarrow> gen \<Rightarrow> bool" where
  "key_in_order rt g \<longleftrightarrow> set (todo g) \<subseteq> set (ordered g) \<and>
     (case pc g of AtCooling c k \<Rightarrow> c \<in> set (ordered g) \<and> credential_key rt c = Inr k
      | AtAcquire c k \<Rightarrow> c \<in> set (ordered g) \<and> credential_key rt c = Inr k
      | AtRecheck c k \<Rightarrow> c \<in> set (ordered g) \<and> credential_key rt c = Inr k
      | AtGenerate c k \<Rightarrow> c \<in> set (ordered g) \<and> credential_key rt c = Inr k
      | _ \<Rightarrow> True)"

definition gen_inv :: "runtime \<Rightarrow> gen \<Rightarrow> bool" where
  "gen_inv rt g \<longleftrightarrow> distinct (map fst (calls g)) \<and> fst ` set (calls g) \<subseteq> attempted g \<and> fresh_key g \<and>
     key_in_order rt g \<and> (\<forall>k \<in> fst ` set (calls g). \<exists>c \<in> set (ordered g). credential_key rt c = Inr k)"

lemmas gen_inv_defs = gen_inv_def fresh_key_def key_in_order_def

lemma gen_inv_while:
  assumes "gen_inv rt g" "pc g = AtWhile"
  shows "gen_inv rt (while_step rt e g)"
  using assms by (auto simp: gen_inv_defs while_step_def split: sum.splits)

lemma gen_inv_for:
  assumes "gen_inv rt g" "pc g = AtFor"
  shows "gen_inv rt (for_step rt g)"
  using assms by (auto simp: gen_inv_defs for_step_def split: sum.splits list.splits)

lemma handle_failure_fields [simp]:
  "pc (handle_failure ex g) = pc g" "calls (handle_failure ex g) = calls g"
  "attempted (handle_failure ex g) = attempted g" "ordered (handle_failure ex g) = ordered g"
  "todo (handle_failure ex g) = todo g"
  by (simp_all add: handle_failure_def split: option.splits)

lemma gen_inv_move:
  assumes "gen_inv rt g" "ordered g' = ordered g" "todo g' = todo g" "calls g' = calls g"
    "attempted g \<subseteq> attempted g'"
    "case pc g' of AtCooling c k \<Rightarrow> False | AtAcquire c k \<Rightarrow> False | AtRecheck c k \<Rightarrow> False
       | AtGenerate c k \<Rightarrow> False | _ \<Rightarrow> True"
  shows "gen_inv rt g'"
  using assms by (auto simp: gen_inv_defs split: gen_pc.splits)

lemma gen_inv_credential:
  assumes "gen_inv rt g"
  shows "pc g = AtCooling c k \<Longrightarrow> gen_inv rt (g\<lparr>pc := AtAcquire c k\<rparr>)"
    and "pc g = AtAcquire c k \<Longrightarrow> gen_inv rt (g\<lparr>pc := AtRecheck c k\<rparr>)"
    and "pc g = AtRecheck c k \<Longrightarrow> gen_inv rt (g\<lparr>attempted := insert k (attempted g), progressed := True,
      calls := calls g @ [(k, w)], pc := AtGenerate c k\<rparr>)"
  using assms by (auto simp: gen_inv_defs)

lemma gen_step_inv:
  assumes "gen_step rt e p g = (p', g')" "gen_inv rt g"
  shows "gen_inv rt g'"
proof (cases "pc g")
  case AtWhile
  with assms gen_inv_while [OF assms(2) AtWhile] show ?thesis by (auto simp: gen_step_def)
next
  case AtFor
  with assms gen_inv_for [OF assms(2) AtFor] show ?thesis by (auto simp: gen_step_def)
next
  case (AtCooling c k)
  with assms gen_inv_credential(1) [OF assms(2) AtCooling] show ?thesis
    by (auto simp: gen_step_def split: if_splits intro!: gen_inv_move [OF assms(2)])
next
  case (AtAcquire c k)
  with assms gen_inv_credential(2) [OF assms(2) AtAcquire] show ?thesis
    by (auto simp: gen_step_def split: prod.splits bool.splits intro!: gen_inv_move [OF assms(2)])
next
  case (AtRecheck c k)
  show ?thesis
  proof (cases "credential_cooling k (wall e) p")
    case True
    with assms AtRecheck show ?thesis by (auto simp: gen_step_def intro!: gen_inv_move [OF assms(2)])
  next
    case False
    with assms AtRecheck gen_inv_credential(3) [OF assms(2) AtRecheck, of "wall e"] show ?thesis
      by (simp add: gen_step_def)
  qed
qed (use assms(1) in \<open>auto simp: gen_step_def split: if_splits sum.splits prod.splits option.splits
    intro!: gen_inv_move [OF assms(2)]\<close>)

lemma start_inv: "generate_one_start rt cs i p = (p', g) \<Longrightarrow> gen_inv rt g \<and> admitted g q"
  by (auto simp: generate_one_start_def Let_def gen_inv_defs admitted_def split: prod.splits sum.splits)

lemma sched_threads:
  "sched_reachable rt s \<Longrightarrow> threads s i = Some g \<Longrightarrow> gen_inv rt g \<and> admitted g (shared s)"
proof (induction arbitrary: i g rule: sched_reachable.induct)
  case (start s)
  then show ?case by simp
next
  case (step s t)
  from step.hyps(2) show ?case
  proof cases
    case (spawn j cs index p h)
    have "admitted g (shared s) \<Longrightarrow> admitted g p"
      by (erule admitted_frame) (simp add: start_frame(2) [OF spawn(3)])
    with step spawn(1) start_inv [OF spawn(3)] show ?thesis by (auto split: if_splits)
  next
    case (run j h e p h')
    show ?thesis
    proof (cases "i = j")
      case True
      with step run gen_step_inv [OF run(3)] gen_step_admitted [OF run(3)] show ?thesis by auto
    next
      case False
      with step run(1) have g: "threads s i = Some g" by simp
      have "cooldowns p k = cooldowns (shared s) k" if "holding_pc (pc g) = Some k" for k
      proof (rule ccontr)
        assume "cooldowns p k \<noteq> cooldowns (shared s) k"
        then have "holding_pc (pc h) = Some k" by (rule gen_step_cooldowns [OF run(3)])
        then have "owners s i = Some k" "owners s j = Some k" using g run(2) that by (simp_all add: owners_def)
        with False credential_table.consistent_exclusive [OF sched_locks [OF step.hyps(1)]] show False by blast
      qed
      with step.IH [OF g] admitted_frame run(1) show ?thesis by auto
    qed
  qed
qed


section \<open>Answering after the deadline\<close>

text \<open>
  Other threads may do anything to the pool between two steps of a thread: a run of one thread is
  given by the environments and the pools its steps meet.
\<close>

fun gen_run :: "runtime \<Rightarrow> (gen_env \<times> pool) list \<Rightarrow> gen \<Rightarrow> gen" where
  "gen_run rt [] g = g"
| "gen_run rt ((e, p) # rest) g = gen_run rt rest (snd (gen_step rt e p g))"

fun returned :: "gen_pc \<Rightarrow> bool" where
  "returned (Returned r) = True"
| "returned _ = False"

text \<open>
  Once the request has expired the number of steps left is bounded: those of the current position,
  and at most six for each credential the inner loop still has.
\<close>

fun pc_left :: "gen_pc \<Rightarrow> nat" where
  "pc_left (Returned r) = 0"
| "pc_left AtEnd = 1"
| "pc_left AtWhile = 2"
| "pc_left (Waiting u) = 3"
| "pc_left AtBreak = 3"
| "pc_left AtSleep = 4"
| "pc_left AtAfterFor = 5"
| "pc_left AtFor = 6"
| "pc_left (AtSkip k) = 7"
| "pc_left (AtRelease k r) = 7"
| "pc_left (AtHandler k e) = 8"
| "pc_left (AtGenerate c k) = 9"
| "pc_left (AtRecheck c k) = 10"
| "pc_left (AtAcquire c k) = 11"
| "pc_left (AtCooling c k) = 12"

definition steps_left :: "gen \<Rightarrow> nat" where
  "steps_left g = pc_left (pc g) + 7 * length (todo g)"

definition late :: "gen_env \<Rightarrow> gen \<Rightarrow> bool" where
  "late e g \<longleftrightarrow> env_expired e \<and>
     (case pc g of Waiting until \<Rightarrow> until \<le> now e \<or> cancelled (env_control e) | _ \<Rightarrow> True)"

lemma after_sleep_expired: "expired c t \<Longrightarrow> after_sleep c t = Inl total_timeout_error"
  by (simp add: after_sleep_def timeout_expired)

lemma sleep_time_expired: "expired c t \<Longrightarrow> sleep_time c t s = Inl total_timeout_error"
  by (simp add: sleep_time_def timeout_expired)

lemma late_step_decreases:
  assumes "late e g" "\<not> returned (pc g)"
  shows "steps_left (snd (gen_step rt e p g)) < steps_left g"
  using assms
  by (auto simp: late_def steps_left_def gen_step_def while_step_def for_step_def handle_failure_def
      after_sleep_expired sleep_time_expired
      split: gen_pc.splits sum.splits list.splits option.splits prod.splits bool.splits)

text \<open>A thread that is late stays late, and never starts to wait.\<close>

lemma late_step_waits:
  assumes "env_expired e"
  shows "pc (snd (gen_step rt e p g)) = Waiting u \<Longrightarrow> pc g = Waiting u \<and> \<not> late e g"
  using assms
  by (auto simp: late_def gen_step_def while_step_def for_step_def handle_failure_def
      after_sleep_expired sleep_time_expired
      split: gen_pc.splits sum.splits list.splits option.splits prod.splits bool.splits if_splits)

lemma returned_run: "pc g = Returned r \<Longrightarrow> gen_run rt es g = g"
  by (induction es) (auto simp: gen_step_def)

lemma late_run_returns:
  assumes "list_all (\<lambda>(e, p). env_expired e) es" "\<And>e. env_expired e \<Longrightarrow> e \<in> fst ` set es \<Longrightarrow> late e g"
    "steps_left g \<le> length es"
  shows "returned (pc (gen_run rt es g))"
  using assms
proof (induction es arbitrary: g)
  case Nil
  then have "steps_left g = 0" by simp
  then show ?case by (cases "pc g") (simp_all add: steps_left_def)
next
  case (Cons ep es)
  obtain e p where ep: "ep = (e, p)" by fastforce
  let ?g = "snd (gen_step rt e p g)"
  from Cons.prems ep have e: "env_expired e" "late e g" by auto
  show ?case
  proof (cases "returned (pc g)")
    case True
    then obtain r where "pc g = Returned r" by (cases "pc g") auto
    with returned_run [OF this] show ?thesis by simp
  next
    case False
    from late_step_decreases [OF e(2) False] Cons.prems(3) have "steps_left ?g \<le> length es"
      by (metis Suc_le_eq ep le_trans length_Cons not_less_eq_eq linorder_not_le)
    moreover have "late e' ?g" if "env_expired e'" for e'
      using that late_step_waits [OF e(1), where g = g and rt = rt and p = p] e(2)
      by (auto simp: late_def split: gen_pc.splits)
    ultimately show ?thesis using Cons by (auto simp: ep)
  qed
qed


text \<open>A wait that a request starts ends within a millisecond of its deadline.\<close>

definition wait_within :: "time \<Rightarrow> gen \<Rightarrow> bool" where
  "wait_within d g \<longleftrightarrow> (case pc g of Waiting until \<Rightarrow> until \<le> d + 1 / 1000 | _ \<Rightarrow> True)"

lemma sleep_ends: "sleep_time c t s = Inr x \<Longrightarrow> t + x \<le> deadline c + 1 / 1000"
  by (auto simp: sleep_time_def res_simps min_le_iff_disj dest!: timeout_within_deadline)

lemma wait_within_parts [simp]:
  "wait_within d (while_step rt e g)" "wait_within d (for_step rt g)"
  "wait_within d (g\<lparr>pc := q\<rparr>) \<longleftrightarrow> (case q of Waiting until \<Rightarrow> until \<le> d + 1 / 1000 | _ \<Rightarrow> True)"
  by (auto simp: wait_within_def while_step_def for_step_def split: sum.splits list.splits)

lemma wait_within_step:
  assumes "deadline (env_control e) = d" "wait_within d g"
  shows "wait_within d (snd (gen_step rt e p g))"
proof (cases "pc g")
  case AtSleep
  with assms(1) sleep_ends [of "env_control e" "now e"] show ?thesis
    by (auto simp: gen_step_def split: sum.splits)
next
  case (Waiting u)
  with assms show ?thesis by (auto simp: gen_step_def split: sum.splits)
qed (use assms in \<open>auto simp: gen_step_def split: sum.splits prod.splits bool.splits option.splits\<close>)

lemma wait_within_run:
  "list_all (\<lambda>(e, p). deadline (env_control e) = d) es \<Longrightarrow> wait_within d g \<Longrightarrow> wait_within d (gen_run rt es g)"
proof (induction es arbitrary: g)
  case (Cons ep es)
  obtain e p where "ep = (e, p)" by fastforce
  with Cons wait_within_step [of e d g rt p] show ?case by simp
qed simp

lemma gen_run_append: "gen_run rt (xs @ ys) g = gen_run rt ys (gen_run rt xs g)"
  by (induction xs arbitrary: g) auto

text \<open>Every thread of every schedule is such a run, the pool at each of its steps being what the others left.\<close>

lemma thread_is_run:
  assumes "sched_reachable rt s" "threads s i = Some g"
  shows "\<exists>credentials index p es. g = gen_run rt es (snd (generate_one_start rt credentials index p))"
  using assms
proof (induction arbitrary: i g rule: sched_reachable.induct)
  case (step s t)
  from step.hyps(2) show ?case
  proof cases
    case (spawn i' credentials index p g')
    show ?thesis
    proof (cases "i = i'")
      case True
      then have "g = gen_run rt [] (snd (generate_one_start rt credentials index (shared s)))"
        using spawn step.prems by simp
      then show ?thesis by blast
    next
      case False
      then show ?thesis using spawn step by auto
    qed
  next
    case (run i' g0 e p g')
    show ?thesis
    proof (cases "i = i'")
      case True
      obtain credentials index p0 es where "g0 = gen_run rt es (snd (generate_one_start rt credentials index p0))"
        using step.IH run by blast
      then have "g = gen_run rt (es @ [(e, shared s)]) (snd (generate_one_start rt credentials index p0))"
        using True run step.prems by (simp add: gen_run_append)
      then show ?thesis by blast
    next
      case False
      then show ?thesis using run step by auto
    qed
  qed
qed simp

definition todo_ok :: "json list \<Rightarrow> gen \<Rightarrow> bool" where
  "todo_ok cs g \<longleftrightarrow> ordered g = cs \<and> length (todo g) \<le> length cs"

lemma todo_ok_parts [simp]:
  "todo_ok cs g \<Longrightarrow> todo_ok cs (while_step rt e g)" "todo_ok cs g \<Longrightarrow> todo_ok cs (for_step rt g)"
  "todo_ok cs (handle_failure ex g) = todo_ok cs g" "todo_ok cs (g\<lparr>pc := q\<rparr>) = todo_ok cs g"
  "todo_ok cs (g\<lparr>attempted := a\<rparr>) = todo_ok cs g" "todo_ok cs (g\<lparr>busy := b\<rparr>) = todo_ok cs g"
  "todo_ok cs (g\<lparr>progressed := b\<rparr>) = todo_ok cs g" "todo_ok cs (g\<lparr>calls := l\<rparr>) = todo_ok cs g"
  by (auto simp: todo_ok_def while_step_def for_step_def split: sum.splits list.splits)

lemma todo_step: "todo_ok cs g \<Longrightarrow> todo_ok cs (snd (gen_step rt e p g))"
  by (cases "pc g") (auto simp: gen_step_def split: sum.splits prod.splits bool.splits option.splits)

lemma todo_run: "todo_ok cs g \<Longrightarrow> todo_ok cs (gen_run rt es g)"
proof (induction es arbitrary: g)
  case (Cons ep es)
  obtain e p where "ep = (e, p)" by fastforce
  with Cons todo_step [of cs g rt e p] show ?case by simp
qed simp

text \<open>The credentials of a run are those of the call, and a generation under way was recorded last.\<close>

definition last_call :: "gen \<Rightarrow> bool" where
  "last_call g \<longleftrightarrow> (case pc g of AtGenerate c k \<Rightarrow> calls g \<noteq> [] \<and> fst (last (calls g)) = k | _ \<Rightarrow> True)"

lemma last_call_step: "gen_step rt e p g = (p', g') \<Longrightarrow> last_call g'"
  by (cases "pc g") (auto simp: last_call_def gen_step_def while_step_def for_step_def Let_def
      split: if_splits sum.splits prod.splits option.splits list.splits bool.splits)

lemma gen_run_inv: "gen_inv rt g \<Longrightarrow> last_call g \<Longrightarrow> gen_inv rt (gen_run rt es g) \<and> last_call (gen_run rt es g)"
proof (induction es arbitrary: g)
  case (Cons ep es)
  obtain e p where "ep = (e, p)" by fastforce
  with Cons gen_step_inv [of rt e p g] last_call_step [of rt e p g] show ?case
    by (cases "gen_step rt e p g") auto
qed simp

lemma run_of_start:
  "gen_inv rt (gen_run rt es (snd (generate_one_start rt cs i p))) \<and>
   last_call (gen_run rt es (snd (generate_one_start rt cs i p))) \<and>
   set (ordered (gen_run rt es (snd (generate_one_start rt cs i p)))) \<subseteq> set cs"
proof -
  obtain q g where g: "generate_one_start rt cs i p = (q, g)" by fastforce
  then have "todo_ok (ordered g) g" "last_call g" "set (ordered g) \<subseteq> set cs"
    by (auto simp: generate_one_start_def Let_def todo_ok_def last_call_def dest: rotate_credentials_Inr
        split: prod.splits sum.splits)
  with g start_inv [OF g] gen_run_inv [of rt g es] todo_run [of "ordered g" g rt es] show ?thesis
    by (simp add: todo_ok_def)
qed

section \<open>How a call fails\<close>

definition credentials_rejected :: "gen \<Rightarrow> bool" where
  "credentials_rejected g \<longleftrightarrow> failure_statuses g \<noteq> [] \<and>
     list_all (\<lambda>status. status = 401 \<or> status = 403) (failure_statuses g)"

definition verdict_of :: "runtime \<Rightarrow> gen \<Rightarrow> exn \<Rightarrow> bool" where
  "verdict_of rt g ex \<longleftrightarrow>
     (\<exists>m. ex = HelperError m 504 (lit ''image_timeout'')) \<or>
     (\<exists>m. ex = HelperError m 401 (lit ''credential_expired'')) \<and> credentials_rejected g \<or>
     (\<exists>m. ex = HelperError m 503 (lit ''all_credentials_failed'')) \<and> \<not> credentials_rejected g \<or>
     ordered g = [] \<or> (\<exists>c \<in> set (ordered g). credential_key rt c = Inl ex)"

definition verdict_inv :: "runtime \<Rightarrow> gen \<Rightarrow> bool" where
  "verdict_inv rt g \<longleftrightarrow> (case pc g of Returned (Inl ex) \<Rightarrow> verdict_of rt g ex | _ \<Rightarrow> True)"

lemma sleep_time_Inl: "sleep_time c t s = Inl e \<Longrightarrow> e = total_timeout_error"
  by (auto simp: sleep_time_def res_simps timeout_Inl)

lemma after_sleep_Inl: "after_sleep c t = Inl e \<Longrightarrow> e = total_timeout_error"
  by (auto simp: after_sleep_def res_simps timeout_Inl)

lemma verdict_timeout [simp]:
  "verdict_of rt g total_timeout_error" "verdict_of rt g wait_timeout_error"
  by (simp_all add: verdict_of_def total_timeout_error_def wait_timeout_error_def)

lemma verdict_failure: "failure_statuses h = failure_statuses g \<Longrightarrow> verdict_of rt h (failure_verdict g)"
  by (auto simp: verdict_of_def failure_verdict_def credentials_rejected_def)

lemma verdict_key: "c \<in> set (ordered g) \<Longrightarrow> credential_key rt c = Inl ex \<Longrightarrow> verdict_of rt g ex"
  by (auto simp: verdict_of_def)

lemma release_lock_ok: "lock_held p k \<Longrightarrow> \<exists>q. release_lock rt k p = (Inr (), q)"
  by (simp add: release_lock_def)

lemma verdict_for: "key_in_order rt g \<Longrightarrow> pc g = AtFor \<Longrightarrow> verdict_inv rt (for_step rt g)"
  by (auto simp: verdict_inv_def for_step_def verdict_of_def key_in_order_def
      split: list.splits sum.splits gen_pc.splits)

lemma verdict_while: "verdict_inv rt (while_step rt e g)"
  by (auto simp: verdict_inv_def while_step_def verdict_of_def dest: mapR_Inl split: sum.splits)

lemma gen_step_verdict:
  assumes st: "gen_step rt e p g = (p', g')" and inv: "gen_inv rt g" "verdict_inv rt g"
    and held: "\<And>k. holding_pc (pc g) = Some k \<Longrightarrow> lock_held p k"
  shows "verdict_inv rt g'"
proof (cases "pc g")
  case AtWhile
  with st verdict_while show ?thesis by (auto simp: gen_step_def)
next
  case AtFor
  with st inv verdict_for show ?thesis by (auto simp: gen_step_def gen_inv_def)
next
  case (AtSkip k)
  then obtain q where "release_lock rt k p = (Inr (), q)" using release_lock_ok held by fastforce
  with AtSkip st show ?thesis by (auto simp: gen_step_def verdict_inv_def)
next
  case (AtRelease k r)
  then obtain q where "release_lock rt k p = (Inr (), q)" using release_lock_ok held by fastforce
  with AtRelease st show ?thesis by (auto simp: gen_step_def verdict_inv_def split: option.splits)
next
  case AtEnd
  with st show ?thesis by (auto simp: gen_step_def verdict_inv_def intro!: verdict_failure)
next
  case AtSleep
  with st show ?thesis
    by (auto simp: gen_step_def verdict_inv_def dest: sleep_time_Inl split: sum.splits)
next
  case (Waiting u)
  with st show ?thesis
    by (auto simp: gen_step_def verdict_inv_def dest: after_sleep_Inl split: sum.splits if_splits)
qed (use st inv in \<open>auto simp: gen_step_def verdict_inv_def split: if_splits sum.splits prod.splits bool.splits\<close>)

lemma sched_verdict: "sched_reachable rt s \<Longrightarrow> threads s i = Some g \<Longrightarrow> verdict_inv rt g"
proof (induction arbitrary: i g rule: sched_reachable.induct)
  case (start s)
  then show ?case by simp
next
  case (step s t)
  from step.hyps(2) show ?case
  proof cases
    case (spawn j cs index p h)
    have "verdict_inv rt h"
      using spawn(3) by (auto simp: generate_one_start_def Let_def verdict_inv_def verdict_of_def
          split: prod.splits sum.splits)
    with step spawn(1) show ?thesis by (auto split: if_splits)
  next
    case (run j h e p h')
    have "lock_held (shared s) k" if "holding_pc (pc h) = Some k" for k
    proof -
      have "owners s j = Some k" using that run(2) by (simp add: owners_def)
      with credential_table.consistent_held [OF sched_locks [OF step.hyps(1)]] show ?thesis by blast
    qed
    with sched_threads [OF step.hyps(1) run(2)] step.IH [OF run(2)] have "verdict_inv rt h'"
      by (auto intro: gen_step_verdict [OF run(3)])
    with step run(1) show ?thesis by (auto split: if_splits)
  qed
qed


section \<open>Executions for examples\<close>

fun exec :: "runtime \<Rightarrow> (nat \<times> gen_env) list \<Rightarrow> sched \<Rightarrow> sched" where
  "exec rt [] s = s"
| "exec rt ((i, e) # rest) s = (case threads s i of
     None \<Rightarrow> exec rt rest s
   | Some g \<Rightarrow> (case gen_step rt e (shared s) g of
       (p, g') \<Rightarrow> exec rt rest (s\<lparr>shared := p, threads := (threads s)(i \<mapsto> g')\<rparr>)))"

lemma exec_reachable: "sched_reachable rt s \<Longrightarrow> sched_reachable rt (exec rt es s)"
proof (induction es arbitrary: s)
  case (Cons ie es)
  obtain i e where ie: "ie = (i, e)" by fastforce
  show ?case
  proof (cases "threads s i")
    case None
    with Cons ie show ?thesis by simp
  next
    case (Some g)
    obtain p g' where "gen_step rt e (shared s) g = (p, g')" by fastforce
    with Cons Some ie sched_reachable.step [OF Cons.prems sched_step.run [OF Some]] show ?thesis by simp
  qed
qed simp

text \<open>A request with one credential, of token \<^verbatim>\<open>a\<close>, on an idle helper, with a given upstream.\<close>

definition demo_token :: json where
  "demo_token = JDict [(lit ''access_token'', JStr [97])]"

definition demo_key :: pystr where
  "demo_key = hexdigest (rt_sha256 example_runtime (to_bytes [97]))"

definition demo_pool :: pool where
  "demo_pool = \<lparr>credential_cursor = 0, credential_locks = Map.empty, cooldowns = Map.empty\<rparr>"

definition demo_env :: "time \<Rightarrow> json res \<Rightarrow> gen_env" where
  "demo_env t r = \<lparr>now = t, wall = 1000 + t, env_control = new_control 0 30, outcome = (\<lambda>_. r)\<rparr>"

definition demo_start :: sched where
  "demo_start = \<lparr>shared = demo_pool, threads = Map.empty\<rparr>"

definition demo_spawned :: sched where
  "demo_spawned = demo_start\<lparr>threads := [0 \<mapsto> snd (generate_one_start example_runtime [demo_token] 0 demo_pool)]\<rparr>"

lemma demo_credential_key: "credential_key example_runtime demo_token = Inr demo_key"
  using utf8_encode_ascii [of "[97]"]
  by (simp add: credential_key_def demo_token_def demo_key_def dict_get_def)

lemma demo_start_gen: "generate_one_start example_runtime [demo_token] 0 demo_pool =
    (demo_pool, \<lparr>ordered = [demo_token], errors = [], failure_statuses = [], last_error = None, attempted = {},
      busy = False, progressed = False, todo = [], pc = AtWhile, calls = []\<rparr>)"
  by (simp add: generate_one_start_def rotate_credentials_def demo_pool_def)

lemma demo_pool_free [simp]: "lock_held demo_pool = (\<lambda>_. False)"
  by (simp add: demo_pool_def lock_held_def fun_eq_iff)

lemma demo_spawned_reachable: "sched_reachable example_runtime demo_spawned"
proof -
  have "sched_reachable example_runtime demo_start"
    by (rule sched_reachable.start) (simp_all add: demo_start_def demo_pool_def lock_held_def)
  moreover have "sched_step example_runtime demo_start demo_spawned"
    using sched_step.spawn [of demo_start 0 example_runtime "[demo_token]" 0]
    by (simp add: demo_spawned_def demo_start_def demo_start_gen)
  ultimately show ?thesis by (rule sched_reachable.step)
qed

lemma demo_spawned_eq: "demo_spawned = \<lparr>shared = demo_pool, threads = [0 \<mapsto>
    \<lparr>ordered = [demo_token], errors = [], failure_statuses = [], last_error = None, attempted = {},
      busy = False, progressed = False, todo = [], pc = AtWhile, calls = []\<rparr>]\<rparr>"
  by (simp add: demo_spawned_def demo_start_def demo_start_gen)

lemmas demo_simps = demo_spawned_eq demo_env_def demo_pool_def
  demo_credential_key new_control_def expired_def gen_step_def while_step_def for_step_def
  credential_cooling_def try_acquire_def lock_held_def credential_lock_def release_lock_def

definition demo_busy :: sched where
  "demo_busy = exec example_runtime (replicate 5 (0, demo_env 1 (Inr JNull))) demo_spawned"

lemma demo_busy_reachable: "sched_reachable example_runtime demo_busy"
  unfolding demo_busy_def by (rule exec_reachable [OF demo_spawned_reachable])

lemma demo_busy_thread:
  "threads demo_busy 0 = Some \<lparr>ordered = [demo_token], errors = [], failure_statuses = [], last_error = None,
     attempted = {demo_key}, busy = False, progressed = True, todo = [], pc = AtGenerate demo_token demo_key,
     calls = [(demo_key, 1001)]\<rparr>"
  by (simp add: demo_busy_def numeral_eq_Suc demo_simps)

definition demo_failed :: sched where
  "demo_failed = exec example_runtime
     (replicate 12 (0, demo_env 1 (Inl (UpstreamError msg_invalid_credential 401 False)))) demo_spawned"

lemma demo_failed_reachable: "sched_reachable example_runtime demo_failed"
  unfolding demo_failed_def by (rule exec_reachable [OF demo_spawned_reachable])

lemma demo_failed_thread:
  "threads demo_failed 0 = Some \<lparr>ordered = [demo_token], errors = [msg_invalid_credential],
     failure_statuses = [401], last_error = Some (UpstreamError msg_invalid_credential 401 False),
     attempted = {demo_key}, busy = False, progressed = True, todo = [],
     pc = Returned (Inl (HelperError msg_invalid_credential 401 (lit ''credential_expired''))),
     calls = [(demo_key, 1001)]\<rparr>"
  by (simp add: demo_failed_def numeral_eq_Suc demo_simps cool_down_def cooldown_of_def
      set_credential_cooldown_def handle_failure_def failure_verdict_def)


section \<open>Properties\<close>

text \<open>
  C1. One credential is used by one generation at a time: in every interleaving of any number of
  \<^verbatim>\<open>generate_one\<close> calls, with any clocks, cancellations and upstream answers, two calls that are
  between taking the lock of a credential and releasing it are the same call, and the lock is held.
\<close>

theorem credential_exclusive:
  assumes "sched_reachable rt s" "threads s i = Some g" "threads s j = Some h"
    and "holding_pc (pc g) = Some k" "holding_pc (pc h) = Some k"
  shows "i = j \<and> lock_held (shared s) k"
proof -
  have "owners s i = Some k" "owners s j = Some k" using assms by (simp_all add: owners_def)
  then show ?thesis
    using credential_table.consistent_exclusive [OF sched_locks [OF assms(1)]]
      credential_table.consistent_held [OF sched_locks [OF assms(1)]] by blast
qed

theorem credential_exclusive_witness: "(0::nat) = 0 \<and> lock_held (shared demo_busy) demo_key"
  by (rule credential_exclusive [OF demo_busy_reachable demo_busy_thread demo_busy_thread]) simp_all

text \<open>
  C23. No credential stays locked: once every call that has started has returned, with an image or
  with an exception, no lock is held, whatever the interleaving was.
\<close>

theorem returned_calls_leave_no_lock:
  assumes "sched_reachable rt s" "\<forall>i g. threads s i = Some g \<longrightarrow> returned (pc g)"
  shows "\<not> lock_held (shared s) k"
proof
  assume "lock_held (shared s) k"
  with sched_locks [OF assms(1)] obtain i where "owners s i = Some k" by (auto simp: lock_consistent_def)
  then obtain g where g: "threads s i = Some g" "holding_pc (pc g) = Some k"
    by (auto simp: owners_def split: option.splits)
  with assms(2) have "returned (pc g)" by blast
  with g(2) show False by (cases "pc g") auto
qed

theorem returned_calls_leave_no_lock_witness: "\<not> lock_held (shared demo_failed) demo_key"
proof (rule returned_calls_leave_no_lock [OF demo_failed_reachable])
  have "dom (threads demo_failed) = {0}"
    by (simp add: demo_failed_def numeral_eq_Suc demo_simps cool_down_def cooldown_of_def
      set_credential_cooldown_def handle_failure_def failure_verdict_def)
  then show "\<forall>i g. threads demo_failed i = Some g \<longrightarrow> returned (pc g)"
    using demo_failed_thread by (metis domI option.inject returned.simps(1) gen.select_convs(9) singletonD)
qed

text \<open>
  C8. A cooling credential is not used. Whenever a call is using a credential, the cooldown that any
  thread has set for it was over at the moment the call was admitted: the second check under the lock
  closes the window between the first check and the acquisition, and while the call runs nobody else
  can set a cooldown for its credential.
\<close>

theorem generation_never_cooling:
  assumes "sched_reachable rt s" "threads s i = Some g" "pc g = AtGenerate c k"
  shows "calls g \<noteq> [] \<and> fst (last (calls g)) = k \<and> \<not> credential_cooling k (snd (last (calls g))) (shared s)"
  using sched_threads [OF assms(1,2)] assms(3) by (simp add: admitted_def)

theorem generation_never_cooling_witness: "\<not> credential_cooling demo_key 1001 (shared demo_busy)"
  using generation_never_cooling [OF demo_busy_reachable demo_busy_thread, of demo_token demo_key] by simp

text \<open>
  C24. One image never uses a credential twice, and only credentials of its request. Take any call of \<^verbatim>\<open>generate_one\<close>
  for some credentials, and let it run with any clocks, controls, upstream answers and states of the pool between
  its steps, as in any interleaving (\<open>thread_is_run\<close>): the keys it has been admitted to use are pairwise different, each
  is the key of a credential handed to the call, and the credential it calls the upstream with is one of
  these, under the key admitted last.
\<close>

theorem each_credential_once:
  "let g = gen_run rt es (snd (generate_one_start rt credentials index p)) in
   distinct (map fst (calls g)) \<and>
   list_all (\<lambda>k. list_ex (\<lambda>c. credential_key rt c = Inr k) credentials) (map fst (calls g)) \<and>
   (case pc g of
      AtGenerate c k \<Rightarrow> List.member credentials c \<and> credential_key rt c = Inr k \<and> k = last (map fst (calls g))
    | _ \<Rightarrow> True)"
proof -
  let ?g = "gen_run rt es (snd (generate_one_start rt credentials index p))"
  have inv: "gen_inv rt ?g" "last_call ?g" and o: "set (ordered ?g) \<subseteq> set credentials"
    using run_of_start by blast+
  have "list_all (\<lambda>k. list_ex (\<lambda>c. credential_key rt c = Inr k) credentials) (map fst (calls ?g))"
  proof -
    have "\<exists>c \<in> set credentials. credential_key rt c = Inr k" if "k \<in> fst ` set (calls ?g)" for k
      using inv(1) o that unfolding gen_inv_def by (meson subsetD)
    then show ?thesis unfolding list_all_iff list_ex_iff set_map by blast
  qed
  moreover have "case pc ?g of
      AtGenerate c k \<Rightarrow> List.member credentials c \<and> credential_key rt c = Inr k \<and> k = last (map fst (calls ?g))
    | _ \<Rightarrow> True"
    using inv o by (auto simp: gen_inv_def key_in_order_def last_call_def last_map split: gen_pc.splits)
  ultimately show ?thesis using inv(1) by (simp add: gen_inv_def Let_def)
qed

text \<open>A call whose first credential is rejected and that goes on with the second one.\<close>

definition other_token :: json where
  "other_token = JDict [(lit ''access_token'', JStr [98])]"

definition other_key :: pystr where
  "other_key = hexdigest (rt_sha256 example_runtime (to_bytes [98]))"

lemma other_credential_key: "credential_key example_runtime other_token = Inr other_key"
  using utf8_encode_ascii [of "[98]"] by (simp add: credential_key_def other_token_def other_key_def dict_get_def)

lemma other_key_neq: "demo_key \<noteq> other_key"
  by (simp add: demo_key_def other_key_def hexdigest_inj example_runtime_def to_bytes_def)

definition rejecting :: gen_env where
  "rejecting = demo_env 1 (Inl (UpstreamError msg_invalid_credential 401 False))"

definition two_calls :: "(gen_env \<times> pool) list" where
  "two_calls = replicate 7 (rejecting, demo_pool) @
     [(rejecting, demo_pool\<lparr>credential_locks := [demo_key \<mapsto> True]\<rparr>)] @ replicate 4 (rejecting, demo_pool)"

lemma two_calls_run:
  "let g = gen_run example_runtime two_calls (snd (generate_one_start example_runtime [demo_token, other_token] 0 demo_pool))
   in map fst (calls g) = [demo_key, other_key] \<and> pc g = AtGenerate other_token other_key"
  using other_key_neq
  by (simp add: two_calls_def rejecting_def numeral_eq_Suc demo_simps generate_one_start_def rotate_credentials_def
      other_credential_key release_lock_def lock_held_def handle_failure_def card_insert_if)

theorem each_credential_once_witness:
  "let g = gen_run example_runtime two_calls (snd (generate_one_start example_runtime [demo_token, other_token] 0 demo_pool))
   in calls g \<noteq> [] \<and> distinct [demo_key, other_key] \<and> List.member [demo_token, other_token] other_token"
  using each_credential_once [of example_runtime two_calls "[demo_token, other_token]" 0 demo_pool] two_calls_run
  by (auto simp: Let_def)

text \<open>
  C22. Failures are classified. When a call of a request with well-formed credentials fails, its exception
  is one of three: 504 \<^verbatim>\<open>image_timeout\<close>; 401 \<^verbatim>\<open>credential_expired\<close>, only if some credential answered and every answer was 401 or 403; or
  503 \<^verbatim>\<open>all_credentials_failed\<close>, only if that is not so. In particular releasing a lock never raises.
\<close>

theorem failure_classification:
  assumes "sched_reachable rt s" "threads s i = Some g" "pc g = Returned (Inl ex)"
    and "ordered g \<noteq> []" "list_all (\<lambda>c. \<exists>k. credential_key rt c = Inr k) (ordered g)"
  shows "exn_code ex = Some (lit ''image_timeout'') \<and> exn_status ex = Some 504 \<or>
    exn_code ex = Some (lit ''credential_expired'') \<and> exn_status ex = Some 401 \<and> credentials_rejected g \<or>
    exn_code ex = Some (lit ''all_credentials_failed'') \<and> exn_status ex = Some 503 \<and> \<not> credentials_rejected g"
proof -
  have "verdict_of rt g ex" using sched_verdict [OF assms(1,2)] assms(3) by (simp add: verdict_inv_def)
  then show ?thesis using assms(4,5) by (auto simp: verdict_of_def list_all_iff)
qed

theorem failure_classification_witness:
  "exn_code (HelperError msg_invalid_credential 401 (lit ''credential_expired'')) = Some (lit ''credential_expired'')"
  using failure_classification [OF demo_failed_reachable demo_failed_thread] demo_credential_key by fastforce

text \<open>
  C4. Every call answers: whatever the environment and the other threads do up to the deadline, once a millisecond has passed after the
  deadline or the request is cancelled, the call returns within twelve own steps and seven more for each credential,
  the step of \<^verbatim>\<open>generate_with_credential\<close> counted as one.
\<close>

theorem call_answers_after_deadline:
  assumes "generate_one_start rt credentials index p = (q, g)"
    and "list_all (\<lambda>(e, p). deadline (env_control e) = d) before"
    and "list_all (\<lambda>(e, p). deadline (env_control e) = d \<and> (cancelled (env_control e) \<or> d + 1 / 1000 \<le> now e)) after"
    and "7 * length credentials + 12 \<le> length after"
  shows "returned (pc (gen_run rt (before @ after) g))"
proof -
  let ?g = "gen_run rt before g"
  have "todo_ok (ordered g) g \<and> length (ordered g) \<le> length credentials" "wait_within d g"
    using assms(1) by (auto simp: generate_one_start_def Let_def todo_ok_def wait_within_def
        rotate_credentials_def split: prod.splits sum.splits if_splits)
  then have t: "length (todo ?g) \<le> length credentials" and w: "wait_within d ?g"
    using todo_run [of "ordered g" g rt before] wait_within_run [OF assms(2)] by (auto simp: todo_ok_def)
  have "pc_left (pc ?g) \<le> 12" by (cases "pc ?g") auto
  with t assms(4) have "steps_left ?g \<le> length after" by (simp add: steps_left_def)
  moreover have "list_all (\<lambda>(e, p). env_expired e) after"
    using assms(3) by (auto simp: list_all_iff expired_def)
  moreover have "late e ?g" if "e \<in> fst ` set after" for e
    using that assms(3) w by (auto simp: list_all_iff late_def expired_def wait_within_def split: gen_pc.splits)
  ultimately have "returned (pc (gen_run rt after ?g))" by (intro late_run_returns)
  then show ?thesis by (simp only: gen_run_append)
qed

text \<open>A request that meets a credential held elsewhere waits, and gives up after its deadline.\<close>

theorem call_answers_after_deadline_witness:
  "returned (pc (gen_run example_runtime
     (replicate 9 (demo_env 1 (Inr JNull), demo_pool\<lparr>credential_locks := [demo_key \<mapsto> True]\<rparr>) @
      replicate 19 (demo_env 31 (Inr JNull), demo_pool))
     (snd (generate_one_start example_runtime [demo_token] 0 demo_pool))))"
  by (rule call_answers_after_deadline [where d = 30 and q = demo_pool and credentials = "[demo_token]" and p = demo_pool and index = 0])
    (simp_all add: demo_start_gen list_all_iff demo_env_def new_control_def)

end
