(* ===== verification/Generate_One_Serial.thy ===== *)
theory Generate_One_Serial
  imports Generate_One_Props
begin

text \<open>
  What \<^verbatim>\<open>generate_one\<close> computes when no other thread holds a credential and the request is in time: the
  credentials in rotation order, each key once and without those that are cooling, are tried until
  one succeeds. The specification is a recursion over that list; the step model implements it.
\<close>

section \<open>Specification\<close>

fun candidates :: "runtime \<Rightarrow> time \<Rightarrow> pool \<Rightarrow> pystr set \<Rightarrow> json list \<Rightarrow> (json \<times> pystr) list" where
  "candidates rt w p seen [] = []"
| "candidates rt w p seen (c # cs) =
     (case credential_key rt c of
        Inl e \<Rightarrow> []
      | Inr k \<Rightarrow>
          if k \<in> seen then candidates rt w p seen cs
          else if credential_cooling k w p then candidates rt w p (insert k seen) cs
          else (c, k) # candidates rt w p (insert k seen) cs)"

definition rejected :: "exn \<Rightarrow> bool" where
  "rejected ex \<longleftrightarrow> exn_status ex = Some 401 \<or> exn_status ex = Some 403"

definition overall_failure :: "exn list \<Rightarrow> exn" where
  "overall_failure exs =
     (let answered = filter is_helper_error exs
      in if answered \<noteq> [] \<and> list_all rejected answered
         then HelperError (exn_str (last answered)) 401 (lit ''credential_expired'')
         else HelperError (if exs = [] then msg_all_busy else exn_str (last exs)) 503
                (lit ''all_credentials_failed''))"

fun serial :: "(json \<Rightarrow> json res) \<Rightarrow> time \<Rightarrow> exn list \<Rightarrow> (json \<times> pystr) list \<Rightarrow> pool \<Rightarrow> json res \<times> pool" where
  "serial upstream w exs [] p = (Inl (overall_failure exs), p)"
| "serial upstream w exs ((c, k) # cs) p =
     (case upstream c of
        Inr item \<Rightarrow> (Inr item, p)
      | Inl ex \<Rightarrow> serial upstream w (exs @ [ex]) cs (cool_down k ex w p))"

section \<open>Runs without interference\<close>

definition alone :: "runtime \<Rightarrow> gen_env \<Rightarrow> pool \<times> gen \<Rightarrow> pool \<times> gen" where
  "alone rt e x = gen_step rt e (fst x) (snd x)"

definition reaches :: "runtime \<Rightarrow> gen_env \<Rightarrow> pool \<times> gen \<Rightarrow> pool \<times> gen \<Rightarrow> bool" where
  "reaches rt e x y \<longleftrightarrow> (\<exists>n. (alone rt e ^^ n) x = y)"

lemma reaches_refl: "reaches rt e x x"
  unfolding reaches_def by (rule exI [of _ 0]) simp

lemma reaches_step: "reaches rt e (gen_step rt e p g) y \<Longrightarrow> reaches rt e (p, g) y"
  unfolding reaches_def by (metis alone_def comp_apply fst_conv funpow_Suc_right snd_conv)

lemma reaches_step_eq: "gen_step rt e p g = x \<Longrightarrow> reaches rt e x y \<Longrightarrow> reaches rt e (p, g) y"
  using reaches_step by blast

lemma try_acquire_free:
  assumes "\<not> lock_held p k" "try_acquire k (credential_lock k p) = (b, q)"
  shows "b \<and> lock_held q = (lock_held p)(k := True) \<and> cooldowns q = cooldowns p"
  using assms by (auto simp: try_acquire_def lock_held_def credential_lock_def fun_eq_iff split: option.splits if_splits)

lemma release_lock_held:
  assumes "lock_held p k"
  obtains q where "release_lock rt k p = (Inr (), q)" "lock_held q = (lock_held p)(k := False)"
    "cooldowns q = cooldowns p"
  using assms by (auto simp: release_lock_def lock_held_def fun_eq_iff)

lemma cool_down_cong: "cooldowns p = cooldowns q \<Longrightarrow> cooldowns (cool_down k ex w p) = cooldowns (cool_down k ex w q)"
  by (simp add: cool_down_def set_credential_cooldown_def split: option.splits)

lemma serial_cong: "cooldowns p = cooldowns q \<Longrightarrow>
    fst (serial f w exs cs p) = fst (serial f w exs cs q) \<and>
    cooldowns (snd (serial f w exs cs p)) = cooldowns (snd (serial f w exs cs q))"
proof (induction cs arbitrary: exs p q)
  case (Cons ck cs)
  obtain c k where "ck = (c, k)" by fastforce
  with Cons.IH [OF cool_down_cong [OF Cons.prems]] Cons.prems show ?case by (cases "f c") auto
qed auto

lemma credential_cooling_cong: "cooldowns p k = cooldowns q k \<Longrightarrow> credential_cooling k w p = credential_cooling k w q"
  by (simp add: credential_cooling_def)

lemma candidates_cong:
  "(\<And>k. k \<notin> seen \<Longrightarrow> cooldowns p k = cooldowns q k) \<Longrightarrow> candidates rt w p seen cs = candidates rt w q seen cs"
proof (induction cs arbitrary: seen)
  case (Cons c cs)
  show ?case
  proof (cases "credential_key rt c")
    case (Inr k)
    with Cons.IH [of seen] Cons.IH [of "insert k seen"] Cons.prems credential_cooling_cong [of p k q w]
    show ?thesis by auto
  qed simp
qed simp

section \<open>One turn of the inner loop\<close>

text \<open>The failures so far, against the variables that record them.\<close>

definition records :: "exn list \<Rightarrow> gen \<Rightarrow> bool" where
  "records exs g \<longleftrightarrow> errors g = map exn_str exs \<and>
     failure_statuses g = map (\<lambda>ex. the (exn_status ex)) (filter is_helper_error exs) \<and>
     last_error g = (if filter is_helper_error exs = [] then None else Some (last (filter is_helper_error exs)))"

lemma is_helper_error_status: "is_helper_error ex \<longleftrightarrow> (\<exists>s. exn_status ex = Some s)"
  by (cases ex) auto

lemma records_handle: "records exs g \<Longrightarrow> records (exs @ [ex]) (handle_failure ex g)"
  by (cases ex) (auto simp: records_def handle_failure_def)

lemma records_frame [simp]:
  "records exs (g\<lparr>pc := q\<rparr>) = records exs g" "records exs (g\<lparr>todo := t\<rparr>) = records exs g"
  "records exs (g\<lparr>attempted := a\<rparr>) = records exs g" "records exs (g\<lparr>progressed := b\<rparr>) = records exs g"
  "records exs (g\<lparr>calls := l\<rparr>) = records exs g"
  by (simp_all add: records_def)

lemma records_verdict: "records exs g \<Longrightarrow> failure_verdict g = overall_failure exs"
proof -
  assume r: "records exs g"
  let ?as = "filter is_helper_error exs"
  have "list_all (\<lambda>status. status = 401 \<or> status = 403) (failure_statuses g) \<longleftrightarrow> list_all rejected ?as"
    using r by (auto simp: records_def list_all_iff rejected_def is_helper_error_status)
  moreover have "failure_statuses g = [] \<longleftrightarrow> ?as = []" using r by (simp add: records_def)
  moreover have "errors g \<noteq> [] \<Longrightarrow> last (errors g) = exn_str (last exs)" "errors g = [] \<longleftrightarrow> exs = []"
    using r by (auto simp: records_def last_map)
  moreover have "last_error g = (if ?as = [] then None else Some (last ?as))" using r by (simp add: records_def)
  ultimately show ?thesis by (auto simp: failure_verdict_def overall_failure_def Let_def)
qed

lemma turn_seen:
  assumes "pc g = AtFor" "todo g = c # rest" "credential_key rt c = Inr k" "k \<in> attempted g"
    "reaches rt e (p, g\<lparr>todo := rest\<rparr>) y"
  shows "reaches rt e (p, g) y"
proof -
  have "gen_step rt e p g = (p, g\<lparr>todo := rest\<rparr>)"
    using assms by (simp add: gen_step_def for_step_def)
  with assms(5) show ?thesis by (auto intro: reaches_step_eq)
qed

lemma turn_cooling:
  assumes "pc g = AtFor" "todo g = c # rest" "credential_key rt c = Inr k" "k \<notin> attempted g"
    "credential_cooling k (wall e) p"
    "reaches rt e (p, g\<lparr>todo := rest, attempted := insert k (attempted g), pc := AtFor\<rparr>) y"
  shows "reaches rt e (p, g) y"
  by (rule reaches_step, use assms in \<open>simp add: gen_step_def for_step_def\<close>,
      rule reaches_step, use assms in \<open>simp add: gen_step_def\<close>)

text \<open>The key is free: the credential is used under its lock.\<close>

definition admit :: "time \<Rightarrow> pystr \<Rightarrow> json list \<Rightarrow> gen \<Rightarrow> gen" where
  "admit w k rest g = g\<lparr>todo := rest, attempted := insert k (attempted g), progressed := True,
     calls := calls g @ [(k, w)]\<rparr>"

lemma turn_admit:
  assumes "pc g = AtFor" "todo g = c # rest" "credential_key rt c = Inr k" "k \<notin> attempted g"
    "\<not> credential_cooling k (wall e) p" "\<not> lock_held p k"
  obtains q where "lock_held q = (lock_held p)(k := True)" "cooldowns q = cooldowns p"
    "\<And>y. reaches rt e (q, (admit (wall e) k rest g)\<lparr>pc := AtGenerate c k\<rparr>) y \<Longrightarrow> reaches rt e (p, g) y"
proof -
  obtain q where q: "try_acquire k (credential_lock k p) = (True, q)"
    "lock_held q = (lock_held p)(k := True)" "cooldowns q = cooldowns p"
    using try_acquire_free [OF assms(6)] by (cases "try_acquire k (credential_lock k p)") auto
  then have qc: "\<not> credential_cooling k (wall e) q" using assms(5) by (simp add: credential_cooling_def)
  have "reaches rt e (p, g) y"
    if "reaches rt e (q, (admit (wall e) k rest g)\<lparr>pc := AtGenerate c k\<rparr>) y" for y
    by (rule reaches_step, use assms in \<open>simp add: gen_step_def for_step_def\<close>,
      rule reaches_step, use assms in \<open>simp add: gen_step_def\<close>,
      rule reaches_step, use q in \<open>simp add: gen_step_def\<close>,
      rule reaches_step, use qc that in \<open>simp add: gen_step_def admit_def\<close>)
  with q that show ?thesis by blast
qed

lemma turn_success:
  assumes "pc g = AtGenerate c k" "outcome e c = Inr item" "lock_held p k"
  obtains q where "lock_held q = (lock_held p)(k := False)" "cooldowns q = cooldowns p"
    "reaches rt e (p, g) (q, g\<lparr>pc := Returned (Inr item)\<rparr>)"
proof -
  from release_lock_held [OF assms(3)] obtain q where q: "release_lock rt k p = (Inr (), q)"
    "lock_held q = (lock_held p)(k := False)" "cooldowns q = cooldowns p" .
  have "reaches rt e (p, g) (q, g\<lparr>pc := Returned (Inr item)\<rparr>)"
    by (rule reaches_step, use assms in \<open>simp add: gen_step_def\<close>,
      rule reaches_step, use q in \<open>simp add: gen_step_def reaches_refl\<close>)
  with q that show ?thesis by blast
qed

lemma turn_failure:
  assumes "pc g = AtGenerate c k" "outcome e c = Inl ex" "lock_held p k"
  obtains q where "lock_held q = (lock_held p)(k := False)" "cooldowns q = cooldowns (cool_down k ex (wall e) p)"
    "\<And>y. reaches rt e (q, (handle_failure ex g)\<lparr>pc := AtFor\<rparr>) y \<Longrightarrow> reaches rt e (p, g) y"
proof -
  have "lock_held (cool_down k ex (wall e) p) k" using assms(3) by simp
  from release_lock_held [OF this] obtain q where q: "release_lock rt k (cool_down k ex (wall e) p) = (Inr (), q)"
    "lock_held q = (lock_held p)(k := False)" "cooldowns q = cooldowns (cool_down k ex (wall e) p)" by auto
  have h: "(handle_failure ex (g\<lparr>pc := x\<rparr>))\<lparr>pc := z\<rparr> = (handle_failure ex g)\<lparr>pc := z\<rparr>" for x z
    by (simp add: handle_failure_def split: option.splits)
  have "reaches rt e (p, g) y" if "reaches rt e (q, (handle_failure ex g)\<lparr>pc := AtFor\<rparr>) y" for y
    by (rule reaches_step, use assms in \<open>simp add: gen_step_def\<close>,
      rule reaches_step, simp add: gen_step_def,
      rule reaches_step, use q that in \<open>simp add: gen_step_def h\<close>)
  with q that show ?thesis by blast
qed


section \<open>The whole loop\<close>

definition serial_from :: "runtime \<Rightarrow> gen_env \<Rightarrow> pystr set \<Rightarrow> exn list \<Rightarrow> json list \<Rightarrow> pool \<Rightarrow> json res \<times> pool" where
  "serial_from rt e seen exs cs p = serial (outcome e) (wall e) exs (candidates rt (wall e) p seen cs) p"

definition ends_with :: "runtime \<Rightarrow> gen_env \<Rightarrow> pool \<times> gen \<Rightarrow> json res \<times> pool \<Rightarrow> bool" where
  "ends_with rt e x r \<longleftrightarrow> (\<exists>q h. reaches rt e x (q, h) \<and> pc h = Returned (fst r) \<and>
     lock_held q = (\<lambda>_. False) \<and> cooldowns q = cooldowns (snd r))"

lemma ends_withI: "reaches rt e x (q, h) \<Longrightarrow> pc h = Returned r \<Longrightarrow> lock_held q = (\<lambda>_. False) \<Longrightarrow>
    cooldowns q = cooldowns p \<Longrightarrow> ends_with rt e x (r, p)"
  by (auto simp: ends_with_def)

lemma ends_with_back: "(\<And>y. reaches rt e x' y \<Longrightarrow> reaches rt e x y) \<Longrightarrow> ends_with rt e x' r \<Longrightarrow> ends_with rt e x r"
  by (auto simp: ends_with_def)

lemma ends_with_cong: "fst r = fst r' \<Longrightarrow> cooldowns (snd r) = cooldowns (snd r') \<Longrightarrow> ends_with rt e x r = ends_with rt e x r'"
  by (simp add: ends_with_def)

lemma serial_from_Cons:
  assumes "credential_key rt c = Inr k"
  shows "k \<in> seen \<Longrightarrow> serial_from rt e seen exs (c # cs) p = serial_from rt e seen exs cs p"
    and "k \<notin> seen \<Longrightarrow> credential_cooling k (wall e) p \<Longrightarrow>
      serial_from rt e seen exs (c # cs) p = serial_from rt e (insert k seen) exs cs p"
    and "k \<notin> seen \<Longrightarrow> \<not> credential_cooling k (wall e) p \<Longrightarrow> outcome e c = Inr item \<Longrightarrow>
      serial_from rt e seen exs (c # cs) p = (Inr item, p)"
    and "k \<notin> seen \<Longrightarrow> \<not> credential_cooling k (wall e) p \<Longrightarrow> outcome e c = Inl ex \<Longrightarrow>
      serial_from rt e seen exs (c # cs) p =
        serial_from rt e (insert k seen) (exs @ [ex]) cs (cool_down k ex (wall e) p)"
proof -
  have "candidates rt (wall e) p (insert k seen) cs =
      candidates rt (wall e) (cool_down k ex (wall e) p) (insert k seen) cs" for ex
    by (rule candidates_cong) (simp add: cool_down_other)
  then show "k \<notin> seen \<Longrightarrow> \<not> credential_cooling k (wall e) p \<Longrightarrow> outcome e c = Inl ex \<Longrightarrow>
      serial_from rt e seen exs (c # cs) p =
        serial_from rt e (insert k seen) (exs @ [ex]) cs (cool_down k ex (wall e) p)"
    using assms by (simp add: serial_from_def)
qed (use assms in \<open>simp_all add: serial_from_def\<close>)

lemma serial_from_pool: "cooldowns p = cooldowns q \<Longrightarrow>
    fst (serial_from rt e seen exs cs p) = fst (serial_from rt e seen exs cs q) \<and>
    cooldowns (snd (serial_from rt e seen exs cs p)) = cooldowns (snd (serial_from rt e seen exs cs q))"
  using candidates_cong [of seen p q rt "wall e" cs] serial_cong [of p q]
  unfolding serial_from_def by metis

lemma no_locks_after: "lock_held p = (\<lambda>_. False) \<Longrightarrow> lock_held q = ((lock_held p)(k := True))(k := False) \<Longrightarrow>
    lock_held q = (\<lambda>_. False)"
  by auto

text \<open>The two ways on from a credential that is admitted.\<close>

lemma alone_success:
  assumes g: "todo g = c # cs" "pc g = AtFor" and k: "credential_key rt c = Inr k" "k \<notin> attempted g"
    and free: "\<not> credential_cooling k (wall e) p" "lock_held p = (\<lambda>_. False)" and item: "outcome e c = Inr item"
  shows "ends_with rt e (p, g) (Inr item, p)"
proof -
  have "\<not> lock_held p k" using free(2) by simp
  from turn_admit [OF g(2,1) k free(1) this] obtain q where
      q: "lock_held q = (lock_held p)(k := True)" "cooldowns q = cooldowns p"
      "\<And>y. reaches rt e (q, (admit (wall e) k cs g)\<lparr>pc := AtGenerate c k\<rparr>) y \<Longrightarrow> reaches rt e (p, g) y" by metis
  let ?g = "(admit (wall e) k cs g)\<lparr>pc := AtGenerate c k\<rparr>"
  have "pc ?g = AtGenerate c k" "lock_held q k" by (simp_all add: q)
  from turn_success [OF this(1) item this(2)] obtain q' where
      q': "lock_held q' = (lock_held q)(k := False)" "cooldowns q' = cooldowns q"
      "reaches rt e (q, ?g) (q', ?g\<lparr>pc := Returned (Inr item)\<rparr>)" by metis
  have "lock_held q' = (\<lambda>_. False)" using no_locks_after [OF free(2)] q(1) q'(1) by simp
  moreover have "cooldowns q' = cooldowns p" using q'(2) q(2) by simp
  moreover have "pc (?g\<lparr>pc := Returned (Inr item)\<rparr>) = Returned (Inr item)" by simp
  ultimately show ?thesis using ends_withI [OF q(3) [OF q'(3)]] by blast
qed

lemma alone_failure:
  assumes g: "todo g = c # cs" "pc g = AtFor" and k: "credential_key rt c = Inr k" "k \<notin> attempted g"
    and free: "\<not> credential_cooling k (wall e) p" "lock_held p = (\<lambda>_. False)" and ex: "outcome e c = Inl ex"
    and h: "\<not> busy g" "records exs g"
  obtains q h where "todo h = cs" "pc h = AtFor" "\<not> busy h" "records (exs @ [ex]) h"
    "attempted h = insert k (attempted g)" "lock_held q = (\<lambda>_. False)"
    "cooldowns q = cooldowns (cool_down k ex (wall e) p)"
    "\<And>y. reaches rt e (q, h) y \<Longrightarrow> reaches rt e (p, g) y"
proof -
  have "\<not> lock_held p k" using free(2) by simp
  from turn_admit [OF g(2,1) k free(1) this] obtain q where
      q: "lock_held q = (lock_held p)(k := True)" "cooldowns q = cooldowns p"
      "\<And>y. reaches rt e (q, (admit (wall e) k cs g)\<lparr>pc := AtGenerate c k\<rparr>) y \<Longrightarrow> reaches rt e (p, g) y" by metis
  let ?g = "(admit (wall e) k cs g)\<lparr>pc := AtGenerate c k\<rparr>"
  have "pc ?g = AtGenerate c k" "lock_held q k" by (simp_all add: q)
  from turn_failure [OF this(1) ex this(2)] obtain q' where
      q': "lock_held q' = (lock_held q)(k := False)" "cooldowns q' = cooldowns (cool_down k ex (wall e) q)"
      "\<And>y. reaches rt e (q', (handle_failure ex ?g)\<lparr>pc := AtFor\<rparr>) y \<Longrightarrow> reaches rt e (q, ?g) y" by metis
  let ?h = "(handle_failure ex ?g)\<lparr>pc := AtFor\<rparr>"
  have "todo ?h = cs" "pc ?h = AtFor" "\<not> busy ?h" "records (exs @ [ex]) ?h" "attempted ?h = insert k (attempted g)"
    using h records_handle [of exs ?g ex] by (auto simp: admit_def handle_failure_def split: option.splits)
  moreover have "lock_held q' = (\<lambda>_. False)" using no_locks_after [OF free(2)] q(1) q'(1) by simp
  moreover have "cooldowns q' = cooldowns (cool_down k ex (wall e) p)" using q'(2) q(2) cool_down_cong by metis
  ultimately show ?thesis using that [of ?h q'] q(3) q'(3) by blast
qed

lemma alone_loop:
  assumes "todo g = cs" "pc g = AtFor" "list_all (\<lambda>c. \<exists>k. credential_key rt c = Inr k) cs"
    "lock_held p = (\<lambda>_. False)" "\<not> busy g" "\<not> env_expired e" "records exs g"
  shows "ends_with rt e (p, g) (serial_from rt e (attempted g) exs cs p)"
  using assms
proof (induction cs arbitrary: p g exs)
  case Nil
  have "reaches rt e (p, g) (p, g\<lparr>pc := Returned (Inl (failure_verdict g))\<rparr>)"
    by (rule reaches_step, use Nil in \<open>simp add: gen_step_def for_step_def\<close>,
      rule reaches_step, use Nil in \<open>simp add: gen_step_def\<close>,
      rule reaches_step, use Nil in \<open>simp add: gen_step_def\<close>,
      rule reaches_step, use Nil in \<open>simp add: gen_step_def failure_verdict_def reaches_refl\<close>)
  with Nil records_verdict [OF Nil.prems(7)] show ?case
    unfolding ends_with_def serial_from_def by (intro exI conjI) auto
next
  case (Cons c cs)
  then obtain k where k: "credential_key rt c = Inr k" by auto
  consider "k \<in> attempted g" | "k \<notin> attempted g" "credential_cooling k (wall e) p"
    | item where "k \<notin> attempted g" "\<not> credential_cooling k (wall e) p" "outcome e c = Inr item"
    | ex where "k \<notin> attempted g" "\<not> credential_cooling k (wall e) p" "outcome e c = Inl ex"
    by (cases "outcome e c") blast+
  then show ?case
  proof cases
    case 1
    have "ends_with rt e (p, g\<lparr>todo := cs\<rparr>) (serial_from rt e (attempted g) exs cs p)"
      using Cons.IH [of "g\<lparr>todo := cs\<rparr>" p exs] Cons.prems by simp
    then show ?thesis
      unfolding serial_from_Cons(1) [OF k 1]
      by (rule ends_with_back [rotated]) (rule turn_seen [where rest = cs, OF Cons.prems(2,1) k 1])
  next
    case 2
    let ?g = "g\<lparr>todo := cs, attempted := insert k (attempted g), pc := AtFor\<rparr>"
    have "ends_with rt e (p, ?g) (serial_from rt e (insert k (attempted g)) exs cs p)"
      using Cons.IH [of ?g p exs] Cons.prems by simp
    then show ?thesis
      unfolding serial_from_Cons(2) [OF k 2]
      by (rule ends_with_back [rotated]) (rule turn_cooling [OF Cons.prems(2,1) k 2])
  next
    case 3
    show ?thesis
      unfolding serial_from_Cons(3) [OF k 3] by (rule alone_success [OF Cons.prems(1,2) k 3(1,2) Cons.prems(4) 3(3)])
  next
    case 4
    show ?thesis
    proof (rule alone_failure [OF Cons.prems(1,2) k 4(1,2) Cons.prems(4) 4(3) Cons.prems(5,7)])
      fix q h
      assume h: "todo h = cs" "pc h = AtFor" "\<not> busy h" "records (exs @ [ex]) h" "attempted h = insert k (attempted g)"
        and q: "lock_held q = (\<lambda>_. False)" "cooldowns q = cooldowns (cool_down k ex (wall e) p)"
          "\<And>y. reaches rt e (q, h) y \<Longrightarrow> reaches rt e (p, g) y"
      from Cons.prems(3) have "list_all (\<lambda>c. \<exists>k. credential_key rt c = Inr k) cs" by simp
      from Cons.IH [OF h(1,2) this q(1) h(3) Cons.prems(6) h(4)]
      have "ends_with rt e (q, h) (serial_from rt e (insert k (attempted g)) (exs @ [ex]) cs q)" by (simp only: h(5))
      then have "ends_with rt e (q, h)
          (serial_from rt e (insert k (attempted g)) (exs @ [ex]) cs (cool_down k ex (wall e) p))"
        using ends_with_cong serial_from_pool q(2) by metis
      then show "ends_with rt e (p, g) (serial_from rt e (attempted g) exs (c # cs) p)"
        unfolding serial_from_Cons(4) [OF k 4] by (rule ends_with_back [rotated]) (rule q(3))
    qed
  qed
qed

lemma rotate_Inr: "credentials \<noteq> [] \<Longrightarrow> rotate_credentials rt credentials index p =
    (Inr (rotate ((credential_cursor p + index) mod length credentials) credentials),
     p\<lparr>credential_cursor := (credential_cursor p + 1) mod length credentials\<rparr>)"
  by (simp add: rotate_credentials_def Let_def rotate_drop_take)

text \<open>
  C3. Undisturbed, \<^verbatim>\<open>generate_one\<close> is the serial search: when every credential is a dictionary with a
  token that can be encoded, no credential is in use by another thread and the request is in time,
  the loop takes the credentials from the rotation's start, each key once and only those that are not
  cooling, returns the first item one of them yields or else the overall failure, and leaves the
  locks free and exactly the cooldowns of the credentials that failed. In particular it returns.
\<close>

theorem generate_one_is_serial_search:
  assumes "credentials \<noteq> []" "list_all (\<lambda>c. \<exists>k. credential_key rt c = Inr k) credentials"
    and "lock_held p = (\<lambda>_. False)" "\<not> env_expired e"
  shows "ends_with rt e (generate_one_start rt credentials index p)
    (serial (outcome e) (wall e) [] (candidates rt (wall e) p {}
      (rotate ((credential_cursor p + index) mod length credentials) credentials)) p)"
proof -
  let ?cs = "rotate ((credential_cursor p + index) mod length credentials) credentials"
  let ?p = "p\<lparr>credential_cursor := (credential_cursor p + 1) mod length credentials\<rparr>"
  let ?g = "\<lparr>ordered = ?cs, errors = [], failure_statuses = [], last_error = None, attempted = {},
      busy = False, progressed = False, todo = [], pc = AtWhile, calls = []\<rparr>"
  have start: "generate_one_start rt credentials index p = (?p, ?g)"
    by (simp add: generate_one_start_def rotate_Inr [OF assms(1)])
  have keys: "list_all (\<lambda>c. \<exists>k. credential_key rt c = Inr k) ?cs" using assms(2) by (simp add: list_all_iff)
  then obtain ks where ks: "mapR (credential_key rt) ?cs = Inr ks"
    using mapR_Inl [of "credential_key rt" ?cs] by (cases "mapR (credential_key rt) ?cs") (auto simp: list_all_iff)
  have "ks \<noteq> []" using mapR_Inr_length [OF ks] assms(1) by auto
  then have "gen_step rt e ?p ?g = (?p, ?g\<lparr>todo := ?cs, pc := AtFor\<rparr>)"
    using ks assms(4) by (simp add: gen_step_def while_step_def card_gt_0_iff)
  moreover have "ends_with rt e (?p, ?g\<lparr>todo := ?cs, pc := AtFor\<rparr>) (serial_from rt e {} [] ?cs ?p)"
    using alone_loop [of "?g\<lparr>todo := ?cs, pc := AtFor\<rparr>" ?cs rt ?p e "[]"] keys assms(3,4)
    by (simp add: records_def)
  ultimately have "ends_with rt e (?p, ?g) (serial_from rt e {} [] ?cs ?p)"
    using ends_with_back [of rt e "(?p, ?g\<lparr>todo := ?cs, pc := AtFor\<rparr>)" "(?p, ?g)"] reaches_step_eq by metis
  moreover have "fst (serial_from rt e {} [] ?cs ?p) = fst (serial_from rt e {} [] ?cs p) \<and>
      cooldowns (snd (serial_from rt e {} [] ?cs ?p)) = cooldowns (snd (serial_from rt e {} [] ?cs p))"
    by (rule serial_from_pool) simp
  ultimately have "ends_with rt e (?p, ?g) (serial_from rt e {} [] ?cs p)" using ends_with_cong by metis
  then show ?thesis by (simp only: start serial_from_def)
qed


text \<open>The first credential is refused with 401 and cooled down, the second yields an image.\<close>

theorem generate_one_is_serial_search_witness:
  "let failing = JDict [(lit ''access_token'', JStr [98])];
       e = demo_env 1 (Inr JNull)\<lparr>outcome := (\<lambda>c. if c = failing
             then Inl (UpstreamError msg_invalid_credential 401 False) else Inr (JStr [120]))\<rparr>;
       k = hexdigest (rt_sha256 example_runtime (to_bytes [98]))
   in ends_with example_runtime e (generate_one_start example_runtime [demo_token, failing] 1 demo_pool)
        (Inr (JStr [120]), set_credential_cooldown k 300 1001 demo_pool)"
proof -
  let ?failing = "JDict [(lit ''access_token'', JStr [98])]"
  let ?k = "hexdigest (rt_sha256 example_runtime (to_bytes [98]))"
  have key: "credential_key example_runtime ?failing = Inr ?k"
    using utf8_encode_ascii [of "[98]"] by (simp add: credential_key_def dict_get_def)
  have "to_bytes [98] \<noteq> to_bytes [97]" by (simp add: to_bytes_def)
  then have ne: "demo_key \<noteq> ?k"
    by (simp add: demo_key_def hexdigest_inj example_runtime_def to_bytes_def)
  have two: "rotate ((0 + 1) mod 2) [demo_token, ?failing] = [?failing, demo_token]" by simp
  let ?e = "demo_env 1 (Inr JNull)\<lparr>outcome := (\<lambda>c. if c = ?failing
             then Inl (UpstreamError msg_invalid_credential 401 False) else Inr (JStr [120]))\<rparr>"
  have "ends_with example_runtime ?e (generate_one_start example_runtime [demo_token, ?failing] 1 demo_pool)
    (serial (outcome ?e) (wall ?e) [] (candidates example_runtime (wall ?e) demo_pool {}
      (rotate ((credential_cursor demo_pool + 1) mod length [demo_token, ?failing]) [demo_token, ?failing])) demo_pool)"
    by (rule generate_one_is_serial_search)
      (simp_all add: demo_credential_key key demo_env_def new_control_def expired_def)
  then show ?thesis
    using ne by (simp add: demo_credential_key key demo_pool_def demo_env_def credential_cooling_def
        cool_down_def cooldown_of_def demo_token_def [symmetric] set_credential_cooldown_def)
      (simp add: demo_token_def)
qed

end
