(* ===== verification/Sentinel_Pow.thy ===== *)
theory Sentinel_Pow
  imports Backend_Events_Props
begin

text \<open>
  \<^verbatim>\<open>helper/pow.py\<close>: the proof-of-work resources of the start page, the browser description that goes into
  the tokens, and the search for a number whose digest meets the difficulty. The HTML tokenizer is a
  parameter: it gives the start tags that \<^verbatim>\<open>handle_starttag\<close> is called with.
\<close>

section \<open>Resources of the start page\<close>

type_synonym start_tag = "pystr \<times> (pystr \<times> pystr option) list"

definition default_pow_script :: pystr where
  "default_pow_script = lit ''https://chatgpt.com/backend-api/sentinel/sdk.js''"

text \<open>
  \<^verbatim>\<open>re.search\<close>: the first position at which the pattern matches. A pattern is given by its match at the
  start of a text.
\<close>

fun search_with :: "(pystr \<Rightarrow> pystr option) \<Rightarrow> pystr \<Rightarrow> pystr option" where
  "search_with match_at [] = match_at []"
| "search_with match_at (c # s) = (case match_at (c # s) of None \<Rightarrow> search_with match_at s | Some m \<Rightarrow> Some m)"

text \<open>\<^verbatim>\<open>c/[^/]*/_\<close>, the whole match.\<close>

definition build_path_at :: "pystr \<Rightarrow> pystr option" where
  "build_path_at s =
     (let run = takeWhile (\<lambda>c. c \<noteq> 47) (drop 2 s)
      in if starts_with (lit ''c/'') s \<and> starts_with (lit ''/_'') (drop (2 + length run) s)
         then Some (take (2 + length run + 2) s) else None)"

text \<open>
  \<^verbatim>\<open><html[^>]*data-build="([^"]*)"\<close>, the group: the attribute is the last one in the tag that has a closing
  quote, since the run before it is as long as possible.
\<close>

definition attr_value_at :: "pystr \<Rightarrow> pystr option" where
  "attr_value_at s =
     (let v = drop 12 s
      in if starts_with (lit ''data-build='' @ [34]) s \<and> 34 \<in> set v then Some (takeWhile (\<lambda>c. c \<noteq> 34) v) else None)"

fun last_attr :: "nat \<Rightarrow> pystr \<Rightarrow> pystr option" where
  "last_attr 0 s = attr_value_at s"
| "last_attr (Suc k) s = (case attr_value_at (drop (Suc k) s) of None \<Rightarrow> last_attr k s | Some v \<Rightarrow> Some v)"

definition html_build_at :: "pystr \<Rightarrow> pystr option" where
  "html_build_at s =
     (if starts_with (lit ''<html'') s
      then last_attr (length (takeWhile (\<lambda>c. c \<noteq> 62) (drop 5 s))) (drop 5 s) else None)"

record script_parser =
  script_sources :: "pystr list"
  data_build :: pystr

definition handle_starttag :: "start_tag \<Rightarrow> script_parser \<Rightarrow> script_parser" where
  "handle_starttag t p = (case t of (tag, attrs) \<Rightarrow>
     if tag \<noteq> lit ''script'' then p
     else (case map_of (rev attrs) (lit ''src'') of
         Some (Some source) \<Rightarrow>
           if source = [] then p
           else p\<lparr>script_sources := script_sources p @ [source],
                  data_build := (case search_with build_path_at source of None \<Rightarrow> data_build p | Some m \<Rightarrow> m)\<rparr>
       | _ \<Rightarrow> p))"

definition parse_pow_resources :: "(pystr \<Rightarrow> start_tag list) \<Rightarrow> pystr \<Rightarrow> pystr list \<times> pystr" where
  "parse_pow_resources tags html_content =
     (let p = fold handle_starttag (tags html_content) \<lparr>script_sources = [], data_build = []\<rparr>;
          build = (if data_build p \<noteq> [] then data_build p
                   else (case search_with html_build_at html_content of None \<Rightarrow> [] | Some m \<Rightarrow> m))
      in (if script_sources p = [] then [default_pow_script] else script_sources p, build))"

section \<open>The browser description\<close>

text \<open>
  What one call of \<^verbatim>\<open>build_pow_config\<close> draws from outside: the choices of \<^verbatim>\<open>random.choice\<close>, a random number,
  the two clocks in milliseconds with their difference, the date at UTC-5, and a fresh UUID.
\<close>

record civil =
  weekday :: nat
  month :: nat
  day :: nat
  year :: nat
  hour :: nat
  minute :: nat
  second :: nat

record pow_draw =
  pick :: "nat \<Rightarrow> nat"
  draw_random :: pyfloat
  perf :: pyfloat
  epoch_less_perf :: pyfloat
  draw_date :: civil
  draw_uuid :: pystr

text \<open>\<^verbatim>\<open>random.choice(xs)\<close>, the \<open>i\<close>-th of the call.\<close>

definition choice_of :: "pow_draw \<Rightarrow> nat \<Rightarrow> 'a list \<Rightarrow> 'a" where
  "choice_of d i xs = xs ! (pick d i mod length xs)"

definition two_digits :: "nat \<Rightarrow> pystr" where
  "two_digits n = (if n < 10 then 48 # show_nat n else show_nat n)"

definition weekday_names :: "pystr list" where
  "weekday_names = map lit [''Mon'', ''Tue'', ''Wed'', ''Thu'', ''Fri'', ''Sat'', ''Sun'']"

definition month_names :: "pystr list" where
  "month_names = map lit [''Jan'', ''Feb'', ''Mar'', ''Apr'', ''May'', ''Jun'', ''Jul'', ''Aug'', ''Sep'', ''Oct'',
     ''Nov'', ''Dec'']"

definition legacy_parse_time :: "civil \<Rightarrow> pystr" where
  "legacy_parse_time c =
     py_join [32] [weekday_names ! weekday c, month_names ! (month c - 1), two_digits (day c), show_nat (year c),
       py_join [58] [two_digits (hour c), two_digits (minute c), two_digits (second c)]] @
     lit '' GMT-0500 (Eastern Standard Time)''"

definition navigator_keys :: "pystr list" where
  "navigator_keys = map (\<lambda>(k, v). lit k @ [0x222B] @ lit v)
     [(''vendor'', ''Google Inc.''), (''webdriver'', ''false''), (''cookieEnabled'', ''true''),
      (''language'', ''zh-CN''), (''hardwareConcurrency'', ''32''), (''product'', ''Gecko'')]"

definition window_keys :: "pystr list" where
  "window_keys = map lit [''window'', ''document'', ''location'', ''history'', ''navigator'', ''performance'', ''crypto'']"

definition document_keys :: "pystr list" where
  "document_keys = map lit [''__reactContainer$fzelfjyxej8'', ''_reactListening5dehydibo78'', ''location'']"

definition screen_resolutions :: "int list list" where
  "screen_resolutions = [[1920, 1080], [1440, 900], [2560, 1440], [3840, 2160]]"

definition core_counts :: "int list" where
  "core_counts = [8, 16, 24, 32]"

definition build_pow_config :: "pow_draw \<Rightarrow> pystr \<Rightarrow> pystr list \<Rightarrow> pystr \<Rightarrow> json list" where
  "build_pow_config d user_agent sources build =
     (let navigator_key = choice_of d 0 navigator_keys;
          window_key = choice_of d 1 window_keys;
          source = (if sources = [] then default_pow_script else choice_of d 2 sources)
      in [JInt (sum_list (choice_of d 3 screen_resolutions)), JStr (legacy_parse_time (draw_date d)), JInt 4294705152, JInt 1,
          JStr user_agent, JStr source, JStr build, JStr (lit ''en-US''), JStr (lit ''en-US,es-US,en,es''),
          JFloat (draw_random d),
          JStr navigator_key, JStr (choice_of d 4 document_keys), JStr window_key, JFloat (perf d), JStr (draw_uuid d),
          JStr [],
          JInt (choice_of d 5 core_counts), JFloat (epoch_less_perf d), JInt 0, JInt 0, JInt 0, JInt 0, JInt 0, JInt 0, JInt 0])"

section \<open>Tokens\<close>

definition encode_str :: "runtime \<Rightarrow> pystr \<Rightarrow> bytes res" where
  "encode_str rt s = or_raise rt UnicodeError s (utf8_encode s)"

definition build_legacy_requirements_token :: "runtime \<Rightarrow> pow_draw \<Rightarrow> pystr \<Rightarrow> pystr list \<Rightarrow> pystr \<Rightarrow> pystr res" where
  "build_legacy_requirements_token rt d user_agent sources build =
     bindR (encode_str rt (dumps rt compact_format (JList (build_pow_config d user_agent sources build)))) (\<lambda>raw.
       Inr (lit ''gAAAAAC'' @ b64encode raw))"

text \<open>\<^verbatim>\<open>bytes.fromhex\<close>: pairs of digits with white space allowed between them.\<close>

definition ascii_space :: "nat \<Rightarrow> bool" where
  "ascii_space c \<longleftrightarrow> c = 32 \<or> 9 \<le> c \<and> c \<le> 13"

fun fromhex :: "pystr \<Rightarrow> nat list option" where
  "fromhex [] = Some []"
| "fromhex [c] = (if ascii_space c then Some [] else None)"
| "fromhex (c # d # s) =
     (if ascii_space c then fromhex (d # s)
      else (case (hex_value c, hex_value d) of
          (Some x, Some y) \<Rightarrow> map_option (Cons (16 * x + y)) (fromhex s)
        | _ \<Rightarrow> None))"

text \<open>\<^verbatim>\<open>a <= b\<close> of byte strings: lexicographic, a prefix is smaller.\<close>

fun bytes_le :: "bytes \<Rightarrow> bytes \<Rightarrow> bool" where
  "bytes_le [] ys \<longleftrightarrow> True"
| "bytes_le (x # xs) [] \<longleftrightarrow> False"
| "bytes_le (x # xs) (y # ys) \<longleftrightarrow> x < y \<or> x = y \<and> bytes_le xs ys"

text \<open>The pieces that do not change from number to number.\<close>

record pow_task =
  task_seed :: bytes
  task_target :: bytes
  task_length :: nat
  static1 :: bytes
  static2 :: bytes
  static3 :: bytes

definition pow_task_of :: "runtime \<Rightarrow> pystr \<Rightarrow> pystr \<Rightarrow> json list \<Rightarrow> pow_task res" where
  "pow_task_of rt seed difficulty config =
     bindR (or_raise rt ValueError difficulty (fromhex difficulty)) (\<lambda>target.
     bindR (encode_str rt seed) (\<lambda>seed_bytes.
     bindR (encode_str rt (butlast (dumps rt compact_format (JList (take 3 config))) @ [44])) (\<lambda>s1.
     bindR (encode_str rt (44 # butlast (tl (dumps rt compact_format (JList (take 5 (drop 4 config))))) @ [44])) (\<lambda>s2.
     bindR (encode_str rt (44 # tl (dumps rt compact_format (JList (drop 10 config))))) (\<lambda>s3.
       Inr \<lparr>task_seed = seed_bytes, task_target = to_bytes target, task_length = length difficulty div 2,
            static1 = s1, static2 = s2, static3 = s3\<rparr>)))))"

definition final_json :: "pow_task \<Rightarrow> nat \<Rightarrow> bytes" where
  "final_json t number =
     static1 t @ to_bytes (show_nat number) @ static2 t @ to_bytes (show_nat (drop_bit 1 number)) @ static3 t"

definition accepts :: "runtime \<Rightarrow> pow_task \<Rightarrow> nat \<Rightarrow> bool" where
  "accepts rt t number \<longleftrightarrow>
     bytes_le (take (task_length t) (rt_sha3_512 rt (task_seed t @ to_bytes (b64encode (final_json t number)))))
       (task_target t)"

text \<open>The loop over \<^verbatim>\<open>range(500000)\<close>: how many numbers are left, and the next one.\<close>

fun pow_search :: "runtime \<Rightarrow> pow_task \<Rightarrow> nat \<Rightarrow> nat \<Rightarrow> pystr option" where
  "pow_search rt t 0 number = None"
| "pow_search rt t (Suc left) number =
     (if accepts rt t number then Some (lit ''gAAAAAB'' @ b64encode (final_json t number))
      else pow_search rt t left (Suc number))"

definition pow_limit :: nat where
  "pow_limit = 500000"

definition build_proof_token ::
    "runtime \<Rightarrow> pow_draw \<Rightarrow> pystr \<Rightarrow> pystr \<Rightarrow> pystr \<Rightarrow> pystr list \<Rightarrow> pystr \<Rightarrow> pystr res" where
  "build_proof_token rt d seed difficulty user_agent sources build =
     bindR (pow_task_of rt seed difficulty (build_pow_config d user_agent sources build)) (\<lambda>t.
       case pow_search rt t pow_limit 0 of
         Some token \<Rightarrow> Inr token
       | None \<Rightarrow> Inl (PyError RuntimeError (lit ''failed to solve proof token: difficulty='' @ difficulty)))"

end
