(* ===== verification/Sentinel_Pow_Props.thy ===== *)
theory Sentinel_Pow_Props
  imports Sentinel_Pow
begin

text \<open>
  What holds of the proof of work: the resources found on the start page, the text a token carries, and
  that the search returns the least number that meets the difficulty.
\<close>

section \<open>Encoding in pieces\<close>

lemma utf8_encode_append: "utf8_encode (a @ b) = Some bs \<longleftrightarrow>
    (\<exists>x y. utf8_encode a = Some x \<and> utf8_encode b = Some y \<and> bs = x @ y)"
  by (auto simp: utf8_encode_def to_bytes_def)

lemma encode_str_Inr: "encode_str rt s = Inr bs \<longleftrightarrow> utf8_encode s = Some bs"
  by (simp add: encode_str_def res_simps)

lemma utf8_encode_digits: "utf8_encode (show_nat n) = Some (to_bytes (show_nat n))"
  using show_nat_digits [of n] by (intro utf8_encode_ascii) (auto simp: is_digit_def)

lemma dumps_items_Cons: "xs \<noteq> [] \<Longrightarrow> dumps_items rt fm (x # xs) = dumps rt fm x @ item_separator fm @ dumps_items rt fm xs"
  by (cases xs) auto

lemma dumps_items_append: "xs \<noteq> [] \<Longrightarrow> ys \<noteq> [] \<Longrightarrow>
    dumps_items rt fm (xs @ ys) = dumps_items rt fm xs @ item_separator fm @ dumps_items rt fm ys"
proof (induction xs)
  case (Cons x xs)
  then show ?case by (cases "xs = []") (simp_all add: dumps_items_Cons)
qed simp

text \<open>The configuration with its fourth and tenth field replaced by the number and half of it.\<close>

definition numbered :: "json list \<Rightarrow> nat \<Rightarrow> json list" where
  "numbered config number = config[3 := JInt (int number), 9 := JInt (int (number div 2))]"

lemma length_build_pow_config [simp]: "length (build_pow_config d ua sources build) = 25"
  by (simp add: build_pow_config_def Let_def)

lemma numbered_pieces:
  assumes "length config = 25"
  shows "numbered config n = take 3 config @ [JInt (int n)] @ take 5 (drop 4 config) @ [JInt (int (n div 2))] @ drop 10 config"
proof (rule nth_equalityI)
  show "length (numbered config n) =
      length (take 3 config @ [JInt (int n)] @ take 5 (drop 4 config) @ [JInt (int (n div 2))] @ drop 10 config)"
    using assms by (simp add: numbered_def)
next
  fix i assume i: "i < length (numbered config n)"
  consider "i < 3" | "i = 3" | "3 < i" "i < 9" | "i = 9" | "9 < i" by linarith
  then show "numbered config n ! i =
      (take 3 config @ [JInt (int n)] @ take 5 (drop 4 config) @ [JInt (int (n div 2))] @ drop 10 config) ! i"
    using i assms by cases (auto simp: numbered_def nth_append nth_list_update nth_Cons')
qed

lemma dumps_numbered:
  assumes "length config = 25"
  shows "dumps rt compact_format (JList (numbered config n)) =
    (butlast (dumps rt compact_format (JList (take 3 config))) @ [44]) @ show_nat n @
    (44 # butlast (tl (dumps rt compact_format (JList (take 5 (drop 4 config))))) @ [44]) @ show_nat (n div 2) @
    (44 # tl (dumps rt compact_format (JList (drop 10 config))))"
proof -
  let ?i = "dumps_items rt compact_format"
  have ne: "take 3 config \<noteq> []" "take 5 (drop 4 config) \<noteq> []" "drop 10 config \<noteq> []"
    using assms by auto
  have sep: "item_separator compact_format = [44]" by (simp add: compact_format_def)
  have num: "dumps rt compact_format (JInt (int k)) = show_nat k" for k by (simp add: show_int_def)
  have tail: "?i (JInt (int (n div 2)) # drop 10 config) = show_nat (n div 2) @ [44] @ ?i (drop 10 config)"
    by (simp only: dumps_items_Cons [OF ne(3)] num sep)
  have mid: "?i (JInt (int n) # take 5 (drop 4 config) @ JInt (int (n div 2)) # drop 10 config) =
      show_nat n @ [44] @ ?i (take 5 (drop 4 config)) @ [44] @ ?i (JInt (int (n div 2)) # drop 10 config)"
    using dumps_items_Cons [of "take 5 (drop 4 config) @ JInt (int (n div 2)) # drop 10 config"]
      dumps_items_append [OF ne(2), of "JInt (int (n div 2)) # drop 10 config"] by (simp add: num sep del: dumps_items.simps dumps.simps)
  have "?i (numbered config n) = ?i (take 3 config) @ [44] @ show_nat n @ [44] @ ?i (take 5 (drop 4 config)) @
      [44] @ show_nat (n div 2) @ [44] @ ?i (drop 10 config)"
    using dumps_items_append [OF ne(1), of "JInt (int n) # take 5 (drop 4 config) @ JInt (int (n div 2)) # drop 10 config"]
    unfolding numbered_pieces [OF assms] by (simp add: sep mid tail del: dumps_items.simps)
  then show ?thesis by (simp add: butlast_append)
qed

lemma final_json_text:
  assumes "pow_task_of rt seed difficulty config = Inr t" "length config = 25"
  shows "utf8_encode (dumps rt compact_format (JList (numbered config n))) = Some (final_json t n)"
proof -
  from assms(1) have
    "utf8_encode (butlast (dumps rt compact_format (JList (take 3 config))) @ [44]) = Some (static1 t)"
    "utf8_encode (44 # butlast (tl (dumps rt compact_format (JList (take 5 (drop 4 config))))) @ [44]) = Some (static2 t)"
    "utf8_encode (44 # tl (dumps rt compact_format (JList (drop 10 config)))) = Some (static3 t)"
    by (auto simp: pow_task_of_def res_simps encode_str_Inr simp del: dumps.simps)
  then show ?thesis
    unfolding dumps_numbered [OF assms(2)] final_json_def drop_bit_eq_div
    using utf8_encode_digits by (simp only: utf8_encode_append) auto
qed

section \<open>The search\<close>

lemma pow_search_find:
  "pow_search rt t left from = map_option (\<lambda>n. lit ''gAAAAAB'' @ b64encode (final_json t n))
     (List.find (accepts rt t) [from..<from + left])"
proof (induction left arbitrary: "from")
  case (Suc left)
  have "[from..<from + Suc left] = from # [Suc from..<Suc from + left]" by (simp add: upt_conv_Cons)
  with Suc show ?case by simp
qed simp

lemma find_upt_Some: "List.find P [0..<n] = Some i \<longleftrightarrow> i < n \<and> P i \<and> (\<forall>j<i. \<not> P j)"
  by (auto simp: find_Some_iff)

section \<open>Resources\<close>

definition script_src :: "start_tag \<Rightarrow> pystr list" where
  "script_src t = (case map_of (rev (snd t)) (lit ''src'') of
     Some (Some source) \<Rightarrow> if fst t = lit ''script'' \<and> source \<noteq> [] then [source] else []
   | _ \<Rightarrow> [])"

definition build_marks :: "pystr list \<Rightarrow> pystr list" where
  "build_marks sources = List.map_filter (search_with build_path_at) sources"

definition last_or :: "pystr \<Rightarrow> pystr list \<Rightarrow> pystr" where
  "last_or z xs = (if xs = [] then z else last xs)"

lemma handle_starttag_alt:
  "handle_starttag t p = \<lparr>script_sources = script_sources p @ script_src t,
     data_build = last_or (data_build p) (build_marks (script_src t))\<rparr>"
  by (cases t) (auto simp: handle_starttag_def script_src_def build_marks_def last_or_def map_filter_simps
      split: option.splits)

lemma build_marks_append: "build_marks (a @ b) = build_marks a @ build_marks b"
  by (simp add: build_marks_def map_filter_def)

lemma fold_starttag:
  "fold handle_starttag ts p = \<lparr>script_sources = script_sources p @ concat (map script_src ts),
     data_build = last_or (data_build p) (build_marks (concat (map script_src ts)))\<rparr>"
proof (induction ts arbitrary: p)
  case Nil
  then show ?case by (simp add: build_marks_def last_or_def map_filter_simps)
next
  case (Cons t ts)
  then show ?case by (auto simp: handle_starttag_alt build_marks_append last_or_def)
qed


section \<open>A small task\<close>

text \<open>A draw of the first choices, and a difficulty that the example digest meets at once.\<close>

definition demo_draw :: pow_draw where
  "demo_draw = \<lparr>pick = (\<lambda>i. 0), draw_random = Fin (1 / 2), perf = Fin 1, epoch_less_perf = Fin 2,
     draw_date = \<lparr>weekday = 0, month = 1, day = 5, year = 2026, hour = 1, minute = 2, second = 3\<rparr>,
     draw_uuid = lit ''u''\<rparr>"

lemmas demo_config_simps = build_pow_config_def demo_draw_def choice_of_def navigator_keys_def window_keys_def
  document_keys_def screen_resolutions_def core_counts_def legacy_parse_time_def weekday_names_def month_names_def
  two_digits_def show_nat.simps show_int_def default_pow_script_def

lemma demo_task:
  "\<exists>t. pow_task_of example_runtime (lit ''a'') (lit ''ff'') (build_pow_config demo_draw [] [] []) = Inr t \<and>
     task_seed t = [97] \<and> task_target t = [255] \<and> task_length t = 1"
proof -
  let ?c = "build_pow_config demo_draw [] [] []"
  have enc: "\<exists>bs. encode_str example_runtime s = Inr bs" if "list_all is_scalar s" for s
    using that by (simp add: encode_str_def utf8_encode_def)
  have pieces: "list_all is_scalar (dumps_items example_runtime compact_format (take 3 ?c))"
    "list_all is_scalar (dumps_items example_runtime compact_format (take 5 (drop 4 ?c)))"
    "list_all is_scalar (dumps_items example_runtime compact_format (drop 10 ?c))"
    by (simp_all add: demo_config_simps compact_format_def quoted_def escape_cp_def lit_def is_scalar_def
        is_surrogate_def float_text_def example_runtime_def)
  have scalar: "is_scalar 91" "is_scalar 93" "is_scalar 44" by (simp_all add: is_scalar_def is_surrogate_def)
  obtain s1 where s1: "encode_str example_runtime (butlast (dumps example_runtime compact_format (JList (take 3 ?c))) @ [44]) = Inr s1"
    using enc [of "91 # dumps_items example_runtime compact_format (take 3 ?c) @ [44]"] pieces(1) scalar
    by (auto simp: butlast_append)
  obtain s2 where s2: "encode_str example_runtime (44 # butlast (tl (dumps example_runtime compact_format (JList (take 5 (drop 4 ?c))))) @ [44]) = Inr s2"
    using enc [of "44 # dumps_items example_runtime compact_format (take 5 (drop 4 ?c)) @ [44]"] pieces(2) scalar by auto
  obtain s3 where s3: "encode_str example_runtime (44 # tl (dumps example_runtime compact_format (JList (drop 10 ?c)))) = Inr s3"
    using enc [of "44 # dumps_items example_runtime compact_format (drop 10 ?c) @ [93]"] pieces(3) scalar by auto
  have a: "encode_str example_runtime (lit ''a'') = Inr [97]"
    using utf8_encode_ascii [of "lit ''a''"] by (simp add: encode_str_Inr lit_def to_bytes_def)
  have f: "fromhex (lit ''ff'') = Some [255]" by (simp add: lit_def ascii_space_def hex_value_def is_digit_def)
  show ?thesis
    by (simp add: pow_task_of_def f a s1 s2 s3 to_bytes_def del: dumps.simps)
qed

lemma demo_accepts: "task_seed t = [97] \<Longrightarrow> task_target t = [255] \<Longrightarrow> task_length t = 1 \<Longrightarrow> accepts example_runtime t 0"
  by (simp add: accepts_def example_runtime_def)

section \<open>Properties\<close>

text \<open>
  C11. A proof token is one the server accepts: its payload is the base64 of the compact UTF-8 JSON of the browser
  description with the found number in the fourth field and half of it in the tenth; the digest
  prefix of seed and payload is at most the difficulty; and no smaller number would do.
\<close>

theorem proof_token_is_solution:
  assumes "build_proof_token rt d seed difficulty ua sources build = Inr token"
  shows "\<exists>t n. pow_task_of rt seed difficulty (build_pow_config d ua sources build) = Inr t \<and> n < 500000 \<and>
    utf8_encode (dumps rt compact_format (JList (numbered (build_pow_config d ua sources build) n))) = Some (final_json t n) \<and>
    token = lit ''gAAAAAB'' @ b64encode (final_json t n) \<and> accepts rt t n \<and> (\<forall>m<n. \<not> accepts rt t m)"
proof -
  obtain t where t: "pow_task_of rt seed difficulty (build_pow_config d ua sources build) = Inr t"
    and s: "pow_search rt t pow_limit 0 = Some token"
    using assms by (auto simp: build_proof_token_def res_simps split: option.splits)
  from s obtain n where n: "List.find (accepts rt t) [0..<pow_limit] = Some n"
    "token = lit ''gAAAAAB'' @ b64encode (final_json t n)" by (auto simp: pow_search_find)
  from n(1) have "n < pow_limit" "accepts rt t n" "\<forall>m<n. \<not> accepts rt t m" by (auto simp: find_upt_Some)
  moreover have "utf8_encode (dumps rt compact_format (JList (numbered (build_pow_config d ua sources build) n))) =
      Some (final_json t n)"
    by (rule final_json_text [OF t]) simp
  ultimately show ?thesis using t n(2) unfolding pow_limit_def by blast
qed

theorem proof_token_is_solution_witness:
  "\<exists>t n. pow_task_of example_runtime (lit ''a'') (lit ''ff'') (build_pow_config demo_draw [] [] []) = Inr t \<and>
     n < 500000 \<and> accepts example_runtime t n"
proof -
  obtain t where t: "pow_task_of example_runtime (lit ''a'') (lit ''ff'') (build_pow_config demo_draw [] [] []) = Inr t"
    and a: "accepts example_runtime t 0" using demo_task demo_accepts by blast
  have "pow_search example_runtime t (Suc 499999) 0 = Some (lit ''gAAAAAB'' @ b64encode (final_json t 0))"
    using a by (simp only: pow_search.simps if_True)
  then have "build_proof_token example_runtime demo_draw (lit ''a'') (lit ''ff'') [] [] [] =
      Inr (lit ''gAAAAAB'' @ b64encode (final_json t 0))"
    by (simp add: build_proof_token_def t pow_limit_def)
  from proof_token_is_solution [OF this] show ?thesis by blast
qed

text \<open>
  C27. The search is complete and ends: with a well-formed task it fails exactly when none of the
  500000 numbers meets the difficulty.
\<close>

theorem proof_token_search_complete:
  assumes "pow_task_of rt seed difficulty (build_pow_config d ua sources build) = Inr t"
  shows "build_proof_token rt d seed difficulty ua sources build =
      Inl (PyError RuntimeError (lit ''failed to solve proof token: difficulty='' @ difficulty))
    \<longleftrightarrow> list_all (\<lambda>n. \<not> accepts rt t n) [0..<500000]"
proof -
  have "list_all (\<lambda>n. \<not> accepts rt t n) [0..<500000] \<longleftrightarrow> List.find (accepts rt t) [0..<pow_limit] = None"
    by (auto simp: find_None_iff list_all_iff pow_limit_def)
  then show ?thesis
    using assms by (auto simp: build_proof_token_def pow_search_find split: option.splits)
qed

theorem proof_token_search_complete_witness:
  "build_proof_token example_runtime demo_draw (lit ''a'') (lit ''ff'') [] [] [] \<noteq>
     Inl (PyError RuntimeError (lit ''failed to solve proof token: difficulty='' @ lit ''ff''))"
proof -
  obtain t where t: "pow_task_of example_runtime (lit ''a'') (lit ''ff'') (build_pow_config demo_draw [] [] []) = Inr t"
    and a: "accepts example_runtime t 0" using demo_task demo_accepts by blast
  have "\<not> list_all (\<lambda>n. \<not> accepts example_runtime t n) [0..<500000]"
    using a by (auto simp: list_all_iff intro!: bexI [of _ 0])
  with proof_token_search_complete [OF t] show ?thesis by blast
qed

text \<open>
  C39. The requirements token is \<^verbatim>\<open>gAAAAAC\<close> and the base64 of the UTF-8 text of the description: a decoder gets
  back that text.
\<close>

theorem requirements_token_decodes:
  "case build_legacy_requirements_token rt d ua sources build of
     Inl e \<Rightarrow> e = py_exn rt UnicodeError (dumps rt compact_format (JList (build_pow_config d ua sources build)))
   | Inr token \<Rightarrow> take 7 token = lit ''gAAAAAC'' \<and>
       bindR (b64decode rt (drop 7 token)) (\<lambda>bs. or_raise rt UnicodeError [] (utf8_decode bs)) =
         Inr (dumps rt compact_format (JList (build_pow_config d ua sources build)))"
  by (cases "utf8_encode (dumps rt compact_format (JList (build_pow_config d ua sources build)))")
    (simp_all add: build_legacy_requirements_token_def encode_str_def utf8_decode_encode)

text \<open>
  C38. The resources of the start page: the sources are those of the page's script tags in order, or the default
  script when there is none; the build is the mark of the last source that has one, or else the attribute
  of the page.
\<close>

theorem pow_resources_of_page:
  "parse_pow_resources tags html =
     (let sources = concat (map script_src (tags html));
          marks = filter (\<lambda>m. m \<noteq> []) (build_marks sources)
      in (if sources = [] then [default_pow_script] else sources,
          if marks \<noteq> [] then last marks
          else (case search_with html_build_at html of None \<Rightarrow> [] | Some m \<Rightarrow> m)))"
proof -
  have "search_with build_path_at s = Some m \<Longrightarrow> m \<noteq> []" for s m
    by (induction s) (auto simp: build_path_at_def starts_with_def lit_def Let_def split: if_splits option.splits)
  then have "m \<noteq> []" if "m \<in> set (build_marks sources)" for m sources
    using that by (auto simp: build_marks_def map_filter_def)
  then have marks: "filter (\<lambda>m. m \<noteq> []) (build_marks sources) = build_marks sources" for sources
    by (simp add: filter_id_conv)
  have "build_marks sources \<noteq> [] \<Longrightarrow> last (build_marks sources) \<noteq> []" for sources
    using \<open>\<And>sources m. m \<in> set (build_marks sources) \<Longrightarrow> m \<noteq> []\<close> last_in_set by blast
  then show ?thesis
    by (simp add: parse_pow_resources_def fold_starttag last_or_def marks Let_def)
qed

end
