(* ===== verification/Sentinel_Turnstile.thy ===== *)
theory Sentinel_Turnstile
  imports Sentinel_Pow_Props
begin

text \<open>
  \<^verbatim>\<open>helper/turnstile.py\<close>: the interpreter of the instruction lists the Sentinel sends. Registers are
  a dictionary whose keys and values are whatever the instructions name; the operations are among the
  values, so an instruction can copy, pass and call them. An instruction that raises is abandoned where it is,
  with the effects it had, and the loop goes on with the next.
\<close>

section \<open>Values and registers\<close>

text \<open>
  A Python value of the interpreter: what \<^verbatim>\<open>json.loads\<close> builds, an \<^verbatim>\<open>OrderedMap\<close> by its address, or
  one of the operations by its number.
\<close>

datatype tval =
    TNone | TBool bool | TInt int | TFloat pyfloat | TStr pystr
  | TList "tval list" | TDict "(pystr \<times> tval) list" | TMap nat | TOp nat

fun tval_of :: "json \<Rightarrow> tval" where
  "tval_of JNull = TNone"
| "tval_of (JBool b) = TBool b"
| "tval_of (JInt i) = TInt i"
| "tval_of (JFloat f) = TFloat f"
| "tval_of (JStr s) = TStr s"
| "tval_of (JList xs) = TList (map tval_of xs)"
| "tval_of (JDict d) = TDict (map (\<lambda>(k, v). (k, tval_of v)) d)"

text \<open>
  A dictionary key: equal numbers are the same key whatever their type. Lists and dictionaries
  are no keys. \<^verbatim>\<open>json.loads\<close> returns one and the same object for every NaN, and a dictionary finds a key that
  is the same object, so NaN is one key although it does not equal itself.
\<close>

datatype tkey = KNone | KInt int | KFloat pyfloat | KStr pystr | KMap nat | KOp nat

definition float_key :: "pyfloat \<Rightarrow> tkey" where
  "float_key f = (case f of Fin q \<Rightarrow> if rat_of_int \<lfloor>q\<rfloor> = q then KInt \<lfloor>q\<rfloor> else KFloat f | _ \<Rightarrow> KFloat f)"

fun key_of :: "tval \<Rightarrow> tkey option" where
  "key_of TNone = Some KNone"
| "key_of (TBool b) = Some (KInt (if b then 1 else 0))"
| "key_of (TInt i) = Some (KInt i)"
| "key_of (TFloat f) = Some (float_key f)"
| "key_of (TStr s) = Some (KStr s)"
| "key_of (TMap a) = Some (KMap a)"
| "key_of (TOp n) = Some (KOp n)"
| "key_of _ = None"

text \<open>
  The state of one run: the registers, the objects made by \<^verbatim>\<open>Object.create\<close> with their keys in order of
  first use, the result, and how often the clock or the random generator has been asked.
\<close>

record tvm =
  regs :: "tkey \<Rightarrow> tval option"
  heap :: "nat \<Rightarrow> (pystr \<times> tval) list"
  next_map :: nat
  result :: pystr
  asked :: nat

text \<open>
  What the interpreter takes from outside: \<^verbatim>\<open>str\<close> of containers, objects and functions, the milliseconds since
  the start, and random numbers.
\<close>

record tenv =
  obj_text :: "tval \<Rightarrow> pystr"
  elapsed :: "nat \<Rightarrow> pyfloat"
  random_at :: "nat \<Rightarrow> pyfloat"

definition reg :: "runtime \<Rightarrow> tvm \<Rightarrow> tval \<Rightarrow> tval res" where
  "reg rt s k = (case key_of k of
     None \<Rightarrow> Inl (py_exn rt TypeError [])
   | Some key \<Rightarrow> or_raise rt KeyError [] (regs s key))"

definition set_reg :: "runtime \<Rightarrow> tval \<Rightarrow> tval \<Rightarrow> tvm \<Rightarrow> unit res \<times> tvm" where
  "set_reg rt k v s = (case key_of k of
     None \<Rightarrow> (Inl (py_exn rt TypeError []), s)
   | Some key \<Rightarrow> (Inr (), s\<lparr>regs := (regs s)(key \<mapsto> v)\<rparr>))"

section \<open>Strings\<close>

definition special_texts :: "(pystr \<times> pystr) list" where
  "special_texts = map (\<lambda>(k, v). (lit k, lit v))
     [(''window.Math'', ''[object Math]''), (''window.Reflect'', ''[object Reflect]''),
      (''window.performance'', ''[object Performance]''), (''window.localStorage'', ''[object Storage]''),
      (''window.Object'', ''function Object() { [native code] }''),
      (''window.Reflect.set'', ''function set() { [native code] }''),
      (''window.performance.now'', ''function () { [native code] }''),
      (''window.Object.create'', ''function create() { [native code] }''),
      (''window.Object.keys'', ''function keys() { [native code] }''),
      (''window.Math.random'', ''function random() { [native code] }'')]"

text \<open>\<^verbatim>\<open>str(value)\<close>, as in a format string.\<close>

fun t_str :: "runtime \<Rightarrow> tenv \<Rightarrow> tval \<Rightarrow> pystr" where
  "t_str rt te TNone = lit ''None''"
| "t_str rt te (TBool b) = (if b then lit ''True'' else lit ''False'')"
| "t_str rt te (TInt i) = show_int i"
| "t_str rt te (TFloat f) = rt_float_repr rt f"
| "t_str rt te (TStr s) = s"
| "t_str rt te v = obj_text te v"

definition str_items :: "tval list \<Rightarrow> pystr list option" where
  "str_items xs = all_some (map (\<lambda>x. case x of TStr s \<Rightarrow> Some s | _ \<Rightarrow> None) xs)"

definition to_js_str :: "runtime \<Rightarrow> tenv \<Rightarrow> tval \<Rightarrow> pystr" where
  "to_js_str rt te v = (case v of
     TNone \<Rightarrow> lit ''undefined''
   | TStr s \<Rightarrow> (case map_of special_texts s of None \<Rightarrow> s | Some t \<Rightarrow> t)
   | TList xs \<Rightarrow> (case str_items xs of Some ss \<Rightarrow> py_join [44] ss | None \<Rightarrow> t_str rt te v)
   | _ \<Rightarrow> t_str rt te v)"

text \<open>\<^verbatim>\<open>_xor_string\<close>; \<^verbatim>\<open>chr\<close> raises beyond the last code point.\<close>

definition xor_string :: "runtime \<Rightarrow> pystr \<Rightarrow> pystr \<Rightarrow> pystr res" where
  "xor_string rt txt key =
     (if key = [] then Inr txt
      else mapR (\<lambda>(index, ch). let c = ch XOR (key ! (index mod length key))
             in if c < 0x110000 then Inr c else Inl (py_exn rt ValueError [])) (enumerate 0 txt))"

section \<open>Equality and JSON of values\<close>

text \<open>
  \<^verbatim>\<open>==\<close>: numbers by value, containers by content, objects and functions by identity. Inside containers the
  same object counts as equal to itself, which shows for NaN only.
\<close>

definition num_of :: "tval \<Rightarrow> pyfloat option" where
  "num_of v = (case v of TBool b \<Rightarrow> Some (Fin (if b then 1 else 0)) | TInt i \<Rightarrow> Some (Fin (rat_of_int i))
     | TFloat f \<Rightarrow> Some f | _ \<Rightarrow> None)"

abbreviation nan_pair :: "tval \<Rightarrow> tval \<Rightarrow> bool" where
  "nan_pair x y \<equiv> x = TFloat NotANumber \<and> y = TFloat NotANumber"

fun t_eq :: "tval \<Rightarrow> tval \<Rightarrow> bool"
  and t_eq_list :: "tval list \<Rightarrow> tval list \<Rightarrow> bool"
  and t_eq_members :: "(pystr \<times> tval) list \<Rightarrow> (pystr \<times> tval) list \<Rightarrow> bool" where
  "t_eq (TList xs) w = (case w of TList ys \<Rightarrow> t_eq_list xs ys | _ \<Rightarrow> False)"
| "t_eq (TDict d) w = (case w of TDict d' \<Rightarrow> length d = length d' \<and> t_eq_members d d' | _ \<Rightarrow> False)"
| "t_eq TNone w = (w = TNone)"
| "t_eq (TStr s) w = (w = TStr s)"
| "t_eq (TMap a) w = (w = TMap a)"
| "t_eq (TOp n) w = (w = TOp n)"
| "t_eq v w = (case (num_of v, num_of w) of (Some a, Some b) \<Rightarrow> a = b \<and> a \<noteq> NotANumber | _ \<Rightarrow> False)"
| "t_eq_list [] ys = (ys = [])"
| "t_eq_list (x # xs) ys = (case ys of [] \<Rightarrow> False | y # ys' \<Rightarrow> (nan_pair x y \<or> t_eq x y) \<and> t_eq_list xs ys')"
| "t_eq_members [] d = True"
| "t_eq_members ((k, v) # m) d = ((case map_of d k of None \<Rightarrow> False | Some w \<Rightarrow> nan_pair v w \<or> t_eq v w) \<and>
     t_eq_members m d)"

text \<open>What \<^verbatim>\<open>json.dumps\<close> can print; objects and functions it cannot.\<close>

fun json_of :: "tval \<Rightarrow> json option"
  and json_items :: "tval list \<Rightarrow> json list option"
  and json_members :: "(pystr \<times> tval) list \<Rightarrow> (pystr \<times> json) list option" where
  "json_of TNone = Some JNull"
| "json_of (TBool b) = Some (JBool b)"
| "json_of (TInt i) = Some (JInt i)"
| "json_of (TFloat f) = Some (JFloat f)"
| "json_of (TStr s) = Some (JStr s)"
| "json_of (TList xs) = map_option JList (json_items xs)"
| "json_of (TDict d) = map_option JDict (json_members d)"
| "json_of _ = None"
| "json_items [] = Some []"
| "json_items (x # xs) = (case (json_of x, json_items xs) of (Some v, Some vs) \<Rightarrow> Some (v # vs) | _ \<Rightarrow> None)"
| "json_members [] = Some []"
| "json_members ((k, x) # d) = (case (json_of x, json_members d) of (Some v, Some m) \<Rightarrow> Some ((k, v) # m) | _ \<Rightarrow> None)"


section \<open>Operations\<close>

abbreviation get_r :: "runtime \<Rightarrow> tval \<Rightarrow> (tvm, tval) prog" where
  "get_r rt k \<equiv> (\<lambda>s. (reg rt s k, s))"

definition put_r :: "runtime \<Rightarrow> tval \<Rightarrow> tval \<Rightarrow> (tvm, tval) prog" where
  "put_r rt k v = bindP (set_reg rt k v) (\<lambda>_. retP TNone)"

definition encode_base64 :: "runtime \<Rightarrow> pystr \<Rightarrow> pystr res" where
  "encode_base64 rt s = bindR (encode_str rt s) (\<lambda>bs. Inr (b64encode bs))"

definition decode_base64 :: "runtime \<Rightarrow> pystr \<Rightarrow> pystr res" where
  "decode_base64 rt s = bindR (b64decode rt s) (\<lambda>bs. or_raise rt UnicodeError s (utf8_decode bs))"

definition op1 :: "runtime \<Rightarrow> tenv \<Rightarrow> tval \<Rightarrow> tval \<Rightarrow> (tvm, tval) prog" where
  "op1 rt te e t = bindP (get_r rt e) (\<lambda>x. bindP (get_r rt t) (\<lambda>y.
     bindP (liftP (xor_string rt (to_js_str rt te x) (to_js_str rt te y))) (\<lambda>r. put_r rt e (TStr r))))"

definition op2 :: "runtime \<Rightarrow> tval \<Rightarrow> tval \<Rightarrow> (tvm, tval) prog" where
  "op2 rt e t = put_r rt e t"

definition op3 :: "runtime \<Rightarrow> tval \<Rightarrow> (tvm, tval) prog" where
  "op3 rt e = (case e of
     TStr s \<Rightarrow> bindP (liftP (encode_base64 rt s)) (\<lambda>r. bindP (modifyP (\<lambda>w. w\<lparr>result := r\<rparr>)) (\<lambda>_. retP TNone))
   | _ \<Rightarrow> throwP (py_exn rt AttributeError []))"

definition textual :: "tval \<Rightarrow> bool" where
  "textual v \<longleftrightarrow> (case v of TStr s \<Rightarrow> True | TFloat f \<Rightarrow> True | TInt i \<Rightarrow> True | TBool b \<Rightarrow> True | _ \<Rightarrow> False)"

definition joined :: "runtime \<Rightarrow> tenv \<Rightarrow> tval \<Rightarrow> tval \<Rightarrow> tval" where
  "joined rt te current incoming = (case current of
     TList xs \<Rightarrow> TList (xs @ [incoming])
   | _ \<Rightarrow> if textual current \<or> textual incoming
       then TStr (to_js_str rt te current @ to_js_str rt te incoming) else TStr (lit ''NaN''))"

definition op5 :: "runtime \<Rightarrow> tenv \<Rightarrow> tval \<Rightarrow> tval \<Rightarrow> (tvm, tval) prog" where
  "op5 rt te e t = bindP (get_r rt e) (\<lambda>current. bindP (get_r rt t) (\<lambda>incoming.
     put_r rt e (joined rt te current incoming)))"

definition dotted :: "runtime \<Rightarrow> tenv \<Rightarrow> tval \<Rightarrow> tval \<Rightarrow> pystr" where
  "dotted rt te a b = t_str rt te a @ [46] @ t_str rt te b"

definition op6 :: "runtime \<Rightarrow> tenv \<Rightarrow> tval \<Rightarrow> tval \<Rightarrow> tval \<Rightarrow> (tvm, tval) prog" where
  "op6 rt te e t n = bindP (get_r rt t) (\<lambda>a. bindP (get_r rt n) (\<lambda>b.
     let path = dotted rt te a b
     in put_r rt e (TStr (if path = lit ''window.document.location'' then lit ''https://chatgpt.com/'' else path))))"

definition op8 :: "runtime \<Rightarrow> tval \<Rightarrow> tval \<Rightarrow> (tvm, tval) prog" where
  "op8 rt e t = bindP (get_r rt t) (\<lambda>v. put_r rt e v)"

definition op14 :: "runtime \<Rightarrow> tval \<Rightarrow> tval \<Rightarrow> (tvm, tval) prog" where
  "op14 rt e t = bindP (get_r rt t) (\<lambda>v. case v of
     TStr s \<Rightarrow> bindP (liftP (loads rt s)) (\<lambda>j. put_r rt e (tval_of j))
   | _ \<Rightarrow> throwP (py_exn rt TypeError []))"

definition op15 :: "runtime \<Rightarrow> tval \<Rightarrow> tval \<Rightarrow> (tvm, tval) prog" where
  "op15 rt e t = bindP (get_r rt t) (\<lambda>v. bindP (liftP (or_raise rt TypeError [] (json_of v))) (\<lambda>j.
     put_r rt e (TStr (dumps rt default_format j))))"

definition op18 :: "runtime \<Rightarrow> tenv \<Rightarrow> tval \<Rightarrow> (tvm, tval) prog" where
  "op18 rt te e = bindP (get_r rt e) (\<lambda>v. bindP (liftP (decode_base64 rt (to_js_str rt te v))) (\<lambda>s. put_r rt e (TStr s)))"

definition op19 :: "runtime \<Rightarrow> tenv \<Rightarrow> tval \<Rightarrow> (tvm, tval) prog" where
  "op19 rt te e = bindP (get_r rt e) (\<lambda>v. bindP (liftP (encode_base64 rt (to_js_str rt te v))) (\<lambda>s. put_r rt e (TStr s)))"

definition op24 :: "runtime \<Rightarrow> tenv \<Rightarrow> tval \<Rightarrow> tval \<Rightarrow> tval \<Rightarrow> (tvm, tval) prog" where
  "op24 rt te e t n = bindP (get_r rt t) (\<lambda>a. bindP (get_r rt n) (\<lambda>b. put_r rt e (TStr (dotted rt te a b))))"

text \<open>
  \<^verbatim>\<open>params[0].add(str(params[1]), params[2])\<close> of an object: a new key goes last, a known one keeps its place. The list
  and the dictionary of an \<^verbatim>\<open>OrderedMap\<close>, which \<^verbatim>\<open>add\<close> alone changes, are one association list in the order of the list.
\<close>

definition reflect_set :: "runtime \<Rightarrow> tenv \<Rightarrow> tval list \<Rightarrow> (tvm, tval) prog" where
  "reflect_set rt te params = (case params of
     [] \<Rightarrow> throwP (py_exn rt IndexError [])
   | TMap a # rest \<Rightarrow>
       (case rest of
          k # v # _ \<Rightarrow> bindP (modifyP (\<lambda>w. w\<lparr>heap := (heap w)(a := AList.update (t_str rt te k) v (heap w a))\<rparr>)) (\<lambda>_. retP TNone)
        | _ \<Rightarrow> throwP (py_exn rt IndexError []))
   | _ \<Rightarrow> throwP (py_exn rt AttributeError []))"

text \<open>The browser functions that \<^verbatim>\<open>op17\<close> knows by name: a result, or \<open>None\<close> for another target.\<close>

definition storage_keys :: tval where
  "storage_keys = TList (map (\<lambda>k. TStr (lit k))
     [''STATSIG_LOCAL_STORAGE_INTERNAL_STORE_V4'', ''oai-did'', ''client-correlated-secret''])"

definition browser_call :: "tenv \<Rightarrow> tval \<Rightarrow> tvm \<Rightarrow> (tval \<times> tvm) option" where
  "browser_call te target s =
     (let more = s\<lparr>asked := Suc (asked s)\<rparr>
      in if target = TStr (lit ''window.performance.now'') then Some (TFloat (elapsed te (asked s)), more)
         else if target = TStr (lit ''window.Object.create'')
           then Some (TMap (next_map s), s\<lparr>heap := (heap s)(next_map s := []), next_map := Suc (next_map s)\<rparr>)
         else if target = TStr (lit ''window.Object.keys'') then Some (storage_keys, s)
         else if target = TStr (lit ''window.Math.random'') then Some (TFloat (random_at te (asked s)), more)
         else None)"

text \<open>The operations that call no other, by number; a wrong number of arguments raises \<^verbatim>\<open>TypeError\<close>.\<close>

definition plain_op :: "runtime \<Rightarrow> tenv \<Rightarrow> nat \<Rightarrow> tval list \<Rightarrow> (tvm, tval) prog" where
  "plain_op rt te n args =
     (if n = 21 then retP TNone
      else (case args of
        [e] \<Rightarrow> if n = 3 then op3 rt e else if n = 18 then op18 rt te e else if n = 19 then op19 rt te e
          else throwP (py_exn rt TypeError [])
      | [e, t] \<Rightarrow> if n = 1 then op1 rt te e t else if n = 2 then op2 rt e t else if n = 5 then op5 rt te e t
          else if n = 8 then op8 rt e t else if n = 14 then op14 rt e t else if n = 15 then op15 rt e t
          else throwP (py_exn rt TypeError [])
      | [e, t, m] \<Rightarrow> if n = 6 then op6 rt te e t m else if n = 24 then op24 rt te e t m
          else throwP (py_exn rt TypeError [])
      | _ \<Rightarrow> throwP (py_exn rt TypeError [])))"

text \<open>
  A call of an operation. \<^verbatim>\<open>op7\<close>, \<^verbatim>\<open>op17\<close>, \<^verbatim>\<open>op20\<close> and \<^verbatim>\<open>op23\<close> call the operation they find in a register
  with fewer arguments than they got themselves, so the nesting ends.
\<close>

function call_op :: "runtime \<Rightarrow> tenv \<Rightarrow> nat \<Rightarrow> tval list \<Rightarrow> tvm \<Rightarrow> tval res \<times> tvm" where
  "call_op rt te n args s =
     (if n = 7 then
        (case args of [] \<Rightarrow> (Inl (py_exn rt TypeError []), s)
         | e # rest \<Rightarrow>
           (case (reg rt s e, mapR (reg rt s) rest) of
              (Inr target, Inr params) \<Rightarrow>
                (if target = TStr (lit ''window.Reflect.set'') then reflect_set rt te params s
                 else (case target of
                     TOp m \<Rightarrow> (case call_op rt te m params s of
                         (Inl ex, s') \<Rightarrow> (Inl ex, s') | (Inr _, s') \<Rightarrow> (Inr TNone, s'))
                   | _ \<Rightarrow> (Inr TNone, s)))
            | (Inl ex, _) \<Rightarrow> (Inl ex, s) | (_, Inl ex) \<Rightarrow> (Inl ex, s)))
      else if n = 17 then
        (case args of e # t # rest \<Rightarrow>
           (case (reg rt s t, mapR (reg rt s) rest) of
              (Inr target, Inr params) \<Rightarrow>
                (case browser_call te target s of
                   Some (v, s') \<Rightarrow> put_r rt e v s'
                 | None \<Rightarrow> (case target of
                     TOp m \<Rightarrow> (case call_op rt te m params s of
                         (Inl ex, s') \<Rightarrow> (Inl ex, s') | (Inr v, s') \<Rightarrow> put_r rt e v s')
                   | _ \<Rightarrow> (Inr TNone, s)))
            | (Inl ex, _) \<Rightarrow> (Inl ex, s) | (_, Inl ex) \<Rightarrow> (Inl ex, s))
         | _ \<Rightarrow> (Inl (py_exn rt TypeError []), s))
      else if n = 20 then
        (case args of e # t # m # rest \<Rightarrow>
           (case (reg rt s e, reg rt s t) of
              (Inr a, Inr b) \<Rightarrow>
                (if \<not> t_eq a b then (Inr TNone, s)
                 else (case reg rt s m of
                     Inr (TOp k) \<Rightarrow> (case mapR (reg rt s) rest of
                         Inr params \<Rightarrow> (case call_op rt te k params s of
                             (Inl ex, s') \<Rightarrow> (Inl ex, s') | (Inr _, s') \<Rightarrow> (Inr TNone, s'))
                       | Inl ex \<Rightarrow> (Inl ex, s))
                   | Inr _ \<Rightarrow> (Inr TNone, s)
                   | Inl ex \<Rightarrow> (Inl ex, s)))
            | (Inl ex, _) \<Rightarrow> (Inl ex, s) | (_, Inl ex) \<Rightarrow> (Inl ex, s))
         | _ \<Rightarrow> (Inl (py_exn rt TypeError []), s))
      else if n = 23 then
        (case args of e # t # rest \<Rightarrow>
           (case reg rt s e of
              Inl ex \<Rightarrow> (Inl ex, s)
            | Inr TNone \<Rightarrow> (Inr TNone, s)
            | Inr _ \<Rightarrow> (case reg rt s t of
                Inr (TOp k) \<Rightarrow> (case call_op rt te k rest s of
                    (Inl ex, s') \<Rightarrow> (Inl ex, s') | (Inr _, s') \<Rightarrow> (Inr TNone, s'))
              | Inr _ \<Rightarrow> (Inr TNone, s)
              | Inl ex \<Rightarrow> (Inl ex, s)))
         | _ \<Rightarrow> (Inl (py_exn rt TypeError []), s))
      else plain_op rt te n args s)"
  by pat_completeness auto
termination
  by (relation "measure (\<lambda>(rt, te, n, args, s). length args)") (auto dest!: mapR_Inr_length mapR_Inr_length')

declare call_op.simps [simp del]

section \<open>The program\<close>

text \<open>The registers at the start.\<close>

definition operations :: "nat list" where
  "operations = [1, 2, 3, 5, 6, 7, 8, 14, 15, 17, 18, 19, 20, 21, 23, 24]"

definition start_regs :: "tval \<Rightarrow> pystr \<Rightarrow> tkey \<Rightarrow> tval option" where
  "start_regs tokens p_token k = (case k of
     KInt i \<Rightarrow>
       if i = 9 then Some tokens
       else if i = 10 then Some (TStr (lit ''window''))
       else if i = 16 then Some (TStr p_token)
       else if 0 \<le> i \<and> nat i \<in> set operations then Some (TOp (nat i)) else None
   | _ \<Rightarrow> None)"

text \<open>
  \<^verbatim>\<open>token[0]\<close> and \<^verbatim>\<open>token[1:]\<close> of a list or, character by character, of a string. Every other
  instruction raises: the keys of an object are strings, and a scalar has no items.
\<close>

definition token_first :: "runtime \<Rightarrow> tval \<Rightarrow> tval res" where
  "token_first rt token = (case token of
     TList xs \<Rightarrow> (case xs of [] \<Rightarrow> Inl (py_exn rt IndexError []) | x # _ \<Rightarrow> Inr x)
   | TStr s \<Rightarrow> (case s of [] \<Rightarrow> Inl (py_exn rt IndexError []) | c # _ \<Rightarrow> Inr (TStr [c]))
   | TDict d \<Rightarrow> Inl (py_exn rt KeyError [])
   | _ \<Rightarrow> Inl (py_exn rt TypeError []))"

definition token_rest :: "tval \<Rightarrow> tval list" where
  "token_rest token = (case token of
     TList xs \<Rightarrow> tl xs | TStr s \<Rightarrow> map (\<lambda>c. TStr [c]) (tl s) | _ \<Rightarrow> [])"

text \<open>\<^verbatim>\<open>values.get(k)\<close>: \<^verbatim>\<open>None\<close> for a missing key; a list or a dictionary is no key and raises.\<close>

definition values_get :: "runtime \<Rightarrow> tvm \<Rightarrow> tval \<Rightarrow> tval res" where
  "values_get rt s k = (case key_of k of
     None \<Rightarrow> Inl (py_exn rt TypeError [])
   | Some key \<Rightarrow> Inr (case regs s key of None \<Rightarrow> TNone | Some v \<Rightarrow> v))"

text \<open>
  The body of the \<^verbatim>\<open>try\<close> block, with whatever it raises; the block itself, which drops the exception and
  keeps the effects made before it; and the loop over the instructions.
\<close>

definition token_body :: "runtime \<Rightarrow> tenv \<Rightarrow> tval \<Rightarrow> (tvm, unit) prog" where
  "token_body rt te token =
     bindP (liftP (token_first rt token)) (\<lambda>head.
     bindP (\<lambda>s. (values_get rt s head, s)) (\<lambda>operation.
       case operation of
         TOp n \<Rightarrow> bindP (call_op rt te n (token_rest token)) (\<lambda>_. retP ())
       | _ \<Rightarrow> retP ()))"

definition run_token :: "runtime \<Rightarrow> tenv \<Rightarrow> tval \<Rightarrow> (tvm, unit) prog" where
  "run_token rt te token = catchP (token_body rt te token) (\<lambda>_. retP ())"

fun run_tokens :: "runtime \<Rightarrow> tenv \<Rightarrow> tval list \<Rightarrow> (tvm, unit) prog" where
  "run_tokens rt te [] = retP ()"
| "run_tokens rt te (token # tokens) = bindP (run_token rt te token) (\<lambda>_. run_tokens rt te tokens)"

text \<open>\<^verbatim>\<open>for token in tokens\<close>: what cannot be iterated raises, and this is caught nowhere in the function.\<close>

definition token_list :: "runtime \<Rightarrow> tval \<Rightarrow> tval list res" where
  "token_list rt tokens = (case tokens of
     TList xs \<Rightarrow> Inr xs
   | TStr s \<Rightarrow> Inr (map (\<lambda>c. TStr [c]) s)
   | TDict d \<Rightarrow> Inr (map (\<lambda>m. TStr (fst m)) d)
   | _ \<Rightarrow> Inl (py_exn rt TypeError []))"

definition load_tokens :: "runtime \<Rightarrow> pystr \<Rightarrow> pystr \<Rightarrow> json res" where
  "load_tokens rt dx p_token =
     bindR (decode_base64 rt dx) (\<lambda>txt. bindR (xor_string rt txt p_token) (loads rt))"

definition start_state :: "tval \<Rightarrow> pystr \<Rightarrow> tvm" where
  "start_state tokens p_token =
     \<lparr>regs = start_regs tokens p_token, heap = (\<lambda>a. []), next_map = 0, result = [], asked = 0\<rparr>"

definition solve_turnstile_token :: "runtime \<Rightarrow> tenv \<Rightarrow> pystr \<Rightarrow> pystr \<Rightarrow> pystr option res" where
  "solve_turnstile_token rt te dx p_token = (case load_tokens rt dx p_token of
     Inl e \<Rightarrow> Inr None
   | Inr j \<Rightarrow> bindR (token_list rt (tval_of j)) (\<lambda>tokens.
       case run_tokens rt te tokens (start_state (tval_of j) p_token) of
         (Inl e, _) \<Rightarrow> Inl e
       | (Inr _, s) \<Rightarrow> Inr (if result s = [] then None else Some (result s))))"

end
