(* ===== verification/Sentinel_Turnstile_Props.thy ===== *)
theory Sentinel_Turnstile_Props
  imports Sentinel_Turnstile
begin

text \<open>
  What holds of the interpreter: programs survive their encoding, an instruction that raises ends only
  itself, and the objects the instructions build have each key once.
\<close>

section \<open>The encoding of programs\<close>

text \<open>
  How the Sentinel hides a text: every character is combined with the one of the repeated key that
  stands below it.
\<close>

definition hidden_text :: "pystr \<Rightarrow> pystr \<Rightarrow> pystr" where
  "hidden_text key txt = (if key = [] then txt else map2 (XOR) txt (concat (replicate (length txt) key)))"

lemma nth_repeated: "i < n * length key \<Longrightarrow> concat (replicate n key) ! i = key ! (i mod length key)"
proof (induction n arbitrary: i)
  case (Suc n)
  show ?case
  proof (cases "i < length key")
    case False
    then have "concat (replicate n key) ! (i - length key) = key ! ((i - length key) mod length key)"
      using Suc.prems by (intro Suc.IH) simp
    with False show ?thesis by (simp add: nth_append le_mod_geq)
  qed (simp add: nth_append)
qed simp

lemma length_repeated: "length (concat (replicate n key)) = n * length key"
  by (simp add: length_concat sum_list_replicate)

lemma hidden_length: "length (hidden_text key txt) = length txt"
  by (cases key) (simp_all add: hidden_text_def length_repeated)

lemma hidden_nth:
  assumes "key \<noteq> []" "i < length txt"
  shows "hidden_text key txt ! i = (txt ! i) XOR (key ! (i mod length key))"
proof -
  have "length txt \<le> length txt * length key" using assms(1) by (cases key) auto
  then have i: "i < length txt * length key" using assms(2) by linarith
  then have "i < length (concat (replicate (length txt) key))" by (simp only: length_repeated)
  with assms show ?thesis by (simp add: hidden_text_def nth_repeated [OF i])
qed

lemma xor_string_hidden:
  assumes "list_all (\<lambda>c. c < 0x110000) txt"
  shows "xor_string rt (hidden_text key txt) key = Inr txt"
proof (cases "key = []")
  case True
  then show ?thesis by (simp add: xor_string_def hidden_text_def)
next
  case False
  let ?h = "hidden_text key txt"
  have undo: "(?h ! i) XOR (key ! (i mod length key)) = txt ! i" if "i < length txt" for i
    using hidden_nth [OF False that] by (simp add: xor.assoc)
  have ok: "txt ! i < 0x110000" if "i < length txt" for i using assms that by (simp add: list_all_length)
  have "mapR (\<lambda>(i, ch). let c = ch XOR (key ! (i mod length key))
      in if c < 0x110000 then Inr c else Inl (py_exn rt ValueError [])) (enumerate 0 ?h) =
    Inr (map (\<lambda>(i, ch). ch XOR (key ! (i mod length key))) (enumerate 0 ?h))"
    using undo ok by (intro mapR_total) (auto simp: in_set_enumerate_eq hidden_length)
  moreover have "map (\<lambda>(i, ch). ch XOR (key ! (i mod length key))) (enumerate 0 ?h) = txt"
    using undo by (intro nth_equalityI) (auto simp: hidden_length nth_enumerate_eq)
  ultimately show ?thesis using False by (simp add: xor_string_def)
qed

lemma decode_base64_bytes: "utf8_encode s = Some bs \<Longrightarrow> decode_base64 rt (b64encode bs) = Inr s"
  by (auto simp: decode_base64_def res_simps utf8_decode_encode(1))

section \<open>What operations leave alone\<close>

lemma put_r_heap: "heap (snd (put_r rt k v s)) = heap s"
  by (auto simp: put_r_def set_reg_def prog_simps split: option.splits)

definition keeps_heap :: "(tvm, tval) prog \<Rightarrow> bool" where
  "keeps_heap m \<longleftrightarrow> (\<forall>s. heap (snd (m s)) = heap s)"

lemma keeps_heap_intros:
  "keeps_heap (put_r rt k v)" "keeps_heap (throwP e)" "keeps_heap (retP v)" "keeps_heap (get_r rt k)"
  by (simp_all add: keeps_heap_def put_r_heap)

lemma keeps_heap_bind:
  assumes m: "keeps_heap m" and f: "\<And>x. keeps_heap (f x)"
  shows "keeps_heap (bindP m f)"
  unfolding keeps_heap_def
proof
  fix s
  obtain r s' where r: "m s = (r, s')" by fastforce
  have s': "heap s' = heap s" using m r by (metis keeps_heap_def snd_conv)
  show "heap (snd (bindP m f s)) = heap s"
  proof (cases r)
    case (Inl e)
    with r s' show ?thesis by (simp add: bindP_def)
  next
    case (Inr x)
    with r s' f [of x] show ?thesis by (simp add: bindP_def keeps_heap_def)
  qed
qed

lemma keeps_heap_lift: "(\<And>x. keeps_heap (f x)) \<Longrightarrow> keeps_heap (bindP (liftP r) f)"
  by (cases r) (auto simp: keeps_heap_def bindP_def)

lemmas op_defs = op1_def op2_def op3_def op5_def op6_def op8_def op14_def op15_def op18_def op19_def op24_def

lemma keeps_heap_result: "keeps_heap (bindP (modifyP (\<lambda>w. w\<lparr>result := r\<rparr>)) (\<lambda>_. retP TNone))"
  by (simp add: keeps_heap_def bindP_def)

lemma plain_op_heap: "keeps_heap (plain_op rt te n args)"
proof -
  have "keeps_heap (op1 rt te e t)" "keeps_heap (op2 rt e t)" "keeps_heap (op3 rt e)" "keeps_heap (op5 rt te e t)"
    "keeps_heap (op6 rt te e t m)" "keeps_heap (op8 rt e t)" "keeps_heap (op14 rt e t)" "keeps_heap (op15 rt e t)"
    "keeps_heap (op18 rt te e)" "keeps_heap (op19 rt te e)" "keeps_heap (op24 rt te e t m)" for e t m
    unfolding op_defs Let_def
    by (intro keeps_heap_bind keeps_heap_lift keeps_heap_intros keeps_heap_result | simp split: tval.splits
        | intro conjI allI impI)+
  then show ?thesis
    by (auto simp: plain_op_def keeps_heap_intros split: list.splits)
qed

section \<open>Objects\<close>

definition objects_ok :: "tvm \<Rightarrow> bool" where
  "objects_ok s \<longleftrightarrow> (\<forall>a. distinct (map fst (heap s a)))"

lemma objects_ok_heap: "heap s' = heap s \<Longrightarrow> objects_ok s' = objects_ok s"
  by (simp add: objects_ok_def)

lemma reflect_set_ok: "objects_ok s \<Longrightarrow> objects_ok (snd (reflect_set rt te params s))"
  by (auto simp: reflect_set_def objects_ok_def prog_simps distinct_update split: list.splits tval.splits)

lemma browser_call_ok: "browser_call te t s = Some (v, s') \<Longrightarrow> objects_ok s \<Longrightarrow> objects_ok s'"
  by (auto simp: browser_call_def objects_ok_def Let_def split: if_splits)


lemma put_r_ok: "objects_ok s \<Longrightarrow> objects_ok (snd (put_r rt k v s))"
  by (metis objects_ok_heap put_r_heap)

lemma plain_op_ok: "objects_ok s \<Longrightarrow> objects_ok (snd (plain_op rt te n args s))"
  using plain_op_heap objects_ok_heap unfolding keeps_heap_def by blast

text \<open>A call in the middle of an operation, whose value is dropped or stored.\<close>

lemma after_call_ok:
  assumes "objects_ok (snd (call_op rt te m params s))"
  shows "objects_ok (snd (case call_op rt te m params s of (Inl ex, s') \<Rightarrow> (Inl ex, s') | (Inr v, s') \<Rightarrow> (Inr TNone, s')))"
    and "objects_ok (snd (case call_op rt te m params s of (Inl ex, s') \<Rightarrow> (Inl ex, s') | (Inr v, s') \<Rightarrow> put_r rt e v s'))"
  using assms put_r_ok by (auto split: prod.splits sum.splits)

lemma call_op_ok: "objects_ok s \<Longrightarrow> objects_ok (snd (call_op rt te n args s))"
proof (induction "length args" arbitrary: n args s rule: less_induct)
  case less
  have ih: "length params < length args \<Longrightarrow> objects_ok s' \<Longrightarrow> objects_ok (snd (call_op rt te m params s'))" for m params s'
    using less.hyps by blast
  have par: "mapR (reg rt s) rest = Inr params \<Longrightarrow> length rest < length args \<Longrightarrow>
      objects_ok (snd (call_op rt te m params s))" for rest params m
    using ih [of params s m] less.prems mapR_Inr_length [of "reg rt s" rest params] by simp
  consider "n = 7" | "n = 17" | "n = 20" | "n = 23" | "n \<notin> {7, 17, 20, 23}" by blast
  then show ?case
  proof cases
    case 1
    then show ?thesis
      using less.prems reflect_set_ok [OF less.prems] par after_call_ok(1)
      by (subst call_op.simps) (auto split: list.splits sum.splits tval.splits)
  next
    case 2
    then show ?thesis
      using less.prems put_r_ok browser_call_ok par after_call_ok(2)
      by (subst call_op.simps) (auto split: list.splits sum.splits tval.splits option.splits)
  next
    case 3
    then show ?thesis
      using less.prems par after_call_ok(1)
      by (subst call_op.simps) (auto split: list.splits sum.splits tval.splits)
  next
    case 4
    then show ?thesis
      using less.prems ih after_call_ok(1)
      by (subst call_op.simps) (auto split: list.splits sum.splits tval.splits)
  next
    case 5
    then show ?thesis using plain_op_ok [OF less.prems] by (subst call_op.simps) simp
  qed
qed

lemma token_body_ok: "objects_ok s \<Longrightarrow> objects_ok (snd (token_body rt te token s))"
  by (auto simp: token_body_def bindP_apply call_op_ok split: sum.splits prod.splits tval.splits)
    (metis call_op_ok snd_conv)+

section \<open>Instructions that raise\<close>

lemma run_token_eq: "run_token rt te token s = (Inr (), snd (token_body rt te token s))"
  by (auto simp: run_token_def catchP_apply split: sum.splits prod.splits)

lemma run_tokens_eq: "run_tokens rt te tokens s = (Inr (), foldl (\<lambda>s token. snd (token_body rt te token s)) s tokens)"
  by (induction tokens arbitrary: s) (simp_all add: bindP_apply run_token_eq)

lemma run_tokens_ok: "objects_ok s \<Longrightarrow> objects_ok (snd (run_tokens rt te tokens s))"
  unfolding run_tokens_eq by (induction tokens arbitrary: s) (simp_all add: token_body_ok)

section \<open>Properties\<close>

text \<open>
  C32. A program survives its encoding: a JSON value printed compactly, hidden under the repeated key by exclusive or and
  encoded in base64 is exactly the value that \<^verbatim>\<open>solve_turnstile_token\<close> decodes with that key, registers written
  as floats included.
\<close>

theorem turnstile_program_roundtrip:
  assumes "printable rt program" "list_all (\<lambda>c. c < 0x110000) (dumps rt compact_format program)"
    and "utf8_encode (hidden_text key (dumps rt compact_format program)) = Some bs"
  shows "load_tokens rt (b64encode bs) key = Inr program"
  using decode_base64_bytes [OF assms(3)] xor_string_hidden [OF assms(2)] loads_printed [OF assms(1)]
  by (simp add: load_tokens_def)

definition demo_program :: json where
  "demo_program = JList [JList [JInt 8, JFloat (Fin (1 / 2)), JInt 16], JList [JInt 3, JStr (lit ''hi'')]]"

lemma example_float: "float_reads example_runtime (Fin (1 / 2))"
proof -
  have "float_literal ([] @ [48] @ [46, 53] @ [])"
    by (rule float_literal) (simp_all add: digits_def is_digit_def is_fraction_def is_exponent_def)
  then show ?thesis by (simp add: float_reads_def example_runtime_def lit_def)
qed

lemma demo_text: "dumps example_runtime compact_format demo_program = lit ''[[8,0.5,16],[3,\"hi\"]]''"
  by (simp add: demo_program_def compact_format_def quoted_def lit_def escape_cp_def show_int_def show_nat.simps
      float_text_def example_runtime_def)

definition demo_hidden :: pystr where
  "demo_hidden = hidden_text (lit ''k7'') (lit ''[[8,0.5,16],[3,\"hi\"]]'')"

theorem turnstile_program_roundtrip_witness:
  "load_tokens example_runtime (b64encode (to_bytes demo_hidden)) (lit ''k7'') = Inr demo_program"
proof (rule turnstile_program_roundtrip)
  show "printable example_runtime demo_program"
    using example_float by (simp add: demo_program_def int_ok_def show_nat.simps)
  show "list_all (\<lambda>c. c < 0x110000) (dumps example_runtime compact_format demo_program)"
    unfolding demo_text by (simp add: lit_def)
  show "utf8_encode (hidden_text (lit ''k7'') (dumps example_runtime compact_format demo_program)) = Some (to_bytes demo_hidden)"
    unfolding demo_text demo_hidden_def
    using utf8_encode_ascii [of "hidden_text (lit ''k7'') (lit ''[[8,0.5,16],[3,\"hi\"]]'')"]
    by (simp add: hidden_text_def lit_def)
qed

text \<open>What \<^verbatim>\<open>for token in tokens\<close> goes through, of a program that can be iterated.\<close>

definition program_items :: "json \<Rightarrow> tval list option" where
  "program_items program = (case program of
     JList xs \<Rightarrow> Some (map tval_of xs)
   | JStr t \<Rightarrow> Some (map (\<lambda>c. TStr [c]) t)
   | JDict d \<Rightarrow> Some (map (\<lambda>m. TStr (fst m)) d)
   | _ \<Rightarrow> None)"

lemma token_list_items:
  "token_list rt (tval_of program) = or_raise rt TypeError [] (program_items program)"
  by (cases program) (auto simp: token_list_def program_items_def)

text \<open>
  C33. An instruction that raises ends only itself. The result of \<^verbatim>\<open>solve_turnstile_token\<close> is none when the program
  cannot be decoded, \<^verbatim>\<open>TypeError\<close> when it is a value that cannot be iterated, and otherwise the result left by
  every instruction in turn, each run from the state the one before it left, finished or raised.
\<close>

theorem turnstile_runs_every_instruction:
  "solve_turnstile_token rt te dx key = (case load_tokens rt dx key of
     Inl e \<Rightarrow> Inr None
   | Inr program \<Rightarrow> (case program_items program of
       None \<Rightarrow> Inl (py_exn rt TypeError [])
     | Some tokens \<Rightarrow>
         let s = foldl (\<lambda>s token. snd (token_body rt te token s)) (start_state (tval_of program) key) tokens
         in Inr (if result s = [] then None else Some (result s))))"
  by (simp add: solve_turnstile_token_def token_list_items run_tokens_eq Let_def split: sum.split option.split)

text \<open>
  C34. The objects of a run are ordered dictionaries: after any program each object has every key once, in the order
  of first use.
\<close>

theorem turnstile_objects_have_distinct_keys:
  "list_all (\<lambda>a. distinct (map fst (heap (snd (run_tokens rt te tokens
      \<lparr>regs = start_regs program key, heap = (\<lambda>a. []), next_map = 0, result = [], asked = 0\<rparr>)) a))) addresses"
  using run_tokens_ok [of "\<lparr>regs = start_regs program key, heap = (\<lambda>a. []), next_map = 0, result = [], asked = 0\<rparr>" rt te tokens]
  by (simp add: objects_ok_def list_all_iff)

end
