(* ===== verification/Protocol_Request.thy ===== *)
theory Protocol_Request
  imports Backend_Events_Props
begin

text \<open>
  The request side of \<^verbatim>\<open>helper/protocol.py\<close>: from the body of an Images API call, JSON or multipart,
  to an \<^verbatim>\<open>ImageRequest\<close> or the error the client gets, and the composition of masks into input images.
  The \<^verbatim>\<open>email\<close> package and Pillow are parameters.
\<close>

section \<open>The request\<close>

record image_request =
  req_prompt :: pystr
  req_n :: int
  req_size :: pystr
  req_quality :: pystr
  req_response_format :: pystr
  req_stream :: bool
  req_images :: "pystr list"
  req_masks :: "pystr list"

definition edits_path :: pystr where
  "edits_path = lit ''/v1/images/edits''"

section \<open>Fields\<close>

text \<open>\<^verbatim>\<open>int(value)\<close> truncates a float; an infinite one raises \<^verbatim>\<open>OverflowError\<close>, which is not caught.\<close>

definition truncate_rat :: "rat \<Rightarrow> int" where
  "truncate_rat q = (if 0 \<le> q then \<lfloor>q\<rfloor> else \<lceil>q\<rceil>)"

definition py_int :: "runtime \<Rightarrow> json \<Rightarrow> int res" where
  "py_int rt v = (case v of
     JBool b \<Rightarrow> Inr (if b then 1 else 0)
   | JInt i \<Rightarrow> Inr i
   | JFloat (Fin q) \<Rightarrow> Inr (truncate_rat q)
   | JFloat NotANumber \<Rightarrow> Inl (py_exn rt ValueError (py_str rt v))
   | JFloat _ \<Rightarrow> Inl (py_exn rt OverflowError (py_str rt v))
   | JStr s \<Rightarrow> or_raise rt ValueError s (int_of_str s)
   | _ \<Rightarrow> Inl (py_exn rt TypeError (py_str rt v)))"

definition parse_int :: "runtime \<Rightarrow> json \<Rightarrow> int \<Rightarrow> int res" where
  "parse_int rt value fallback = (case py_int rt value of
     Inl (PyError k message) \<Rightarrow> if k = TypeError \<or> is_value_error k then Inr fallback else Inl (PyError k message)
   | r \<Rightarrow> r)"

definition parse_bool :: "runtime \<Rightarrow> json \<Rightarrow> bool" where
  "parse_bool rt value \<longleftrightarrow>
     py_lower (py_strip (str_or_empty rt value)) \<in> {lit ''1'', lit ''true'', lit ''yes'', lit ''on''}"

definition first :: "pystr list option \<Rightarrow> pystr" where
  "first values = (case values of Some (x # xs) \<Rightarrow> x | _ \<Rightarrow> [])"

definition or_default :: "pystr \<Rightarrow> pystr \<Rightarrow> pystr" where
  "or_default s d = (if s = [] then d else s)"

section \<open>Multipart bodies\<close>

text \<open>
  A part as the \<^verbatim>\<open>email\<close> package hands it over: \<^verbatim>\<open>get_param("name")\<close>, \<^verbatim>\<open>get_payload(decode=True)\<close>,
  \<^verbatim>\<open>get_filename()\<close>, \<^verbatim>\<open>get_content_type()\<close>, \<^verbatim>\<open>get_content_charset()\<close>; and \<^verbatim>\<open>bytes.decode\<close> for other
  charsets than UTF-8.
\<close>

record mime_part =
  part_name :: "pystr option"
  part_payload :: "bytes option"
  part_filename :: "pystr option"
  part_type :: pystr
  part_charset :: "pystr option"

record mime =
  mime_parts :: "bytes \<Rightarrow> mime_part list res"
  mime_decode :: "pystr \<Rightarrow> bytes \<Rightarrow> pystr res"

type_synonym fields = "(pystr \<times> pystr list) list"

definition part_key :: "mime_part \<Rightarrow> pystr" where
  "part_key part = (case part_name part of None \<Rightarrow> [] | Some s \<Rightarrow> s)"

definition part_data :: "mime_part \<Rightarrow> bytes" where
  "part_data part = (case part_payload part of None \<Rightarrow> [] | Some bs \<Rightarrow> bs)"

definition data_url :: "pystr \<Rightarrow> bytes \<Rightarrow> pystr" where
  "data_url mime_type data = lit ''data:'' @ mime_type @ lit '';base64,'' @ b64encode data"

definition part_file :: "mime_part \<Rightarrow> pystr" where
  "part_file part = data_url (or_default (part_type part) (lit ''application/octet-stream'')) (part_data part)"

definition part_text :: "mime \<Rightarrow> mime_part \<Rightarrow> pystr res" where
  "part_text m part =
     (let charset = or_default (case part_charset part of None \<Rightarrow> [] | Some s \<Rightarrow> s) (lit ''utf-8'')
      in if charset = lit ''utf-8'' then Inr (utf8_decode_replace (part_data part))
         else mime_decode m charset (part_data part))"

fun collect_parts :: "mime \<Rightarrow> mime_part list \<Rightarrow> fields \<Rightarrow> fields \<Rightarrow> (fields \<times> fields) res" where
  "collect_parts m [] values uploads = Inr (values, uploads)"
| "collect_parts m (part # parts) values uploads =
     (if part_filename part \<noteq> None
      then collect_parts m parts values (append_at (part_key part) (part_file part) uploads)
      else bindR (part_text m part) (\<lambda>text.
        collect_parts m parts (append_at (part_key part) text values) uploads))"

definition parse_multipart :: "runtime \<Rightarrow> mime \<Rightarrow> bytes \<Rightarrow> pystr \<Rightarrow> (fields \<times> fields) res" where
  "parse_multipart rt m body content_type =
     (let head = lit ''Content-Type: '' @ content_type @ [13, 10] @ lit ''MIME-Version: 1.0'' @ [13, 10, 13, 10]
      in bindR (or_raise rt UnicodeError head (utf8_encode head)) (\<lambda>bs.
         bindR (mime_parts m (bs @ body)) (\<lambda>parts. collect_parts m parts [] [])))"

section \<open>JSON bodies\<close>

text \<open>\<^verbatim>\<open>for item in value\<close>: lists, strings by character, dictionaries by key; other values raise.\<close>

definition iter_json :: "runtime \<Rightarrow> json \<Rightarrow> json list res" where
  "iter_json rt v = (case v of
     JList xs \<Rightarrow> Inr xs
   | JStr s \<Rightarrow> Inr (map (\<lambda>c. JStr [c]) s)
   | JDict d \<Rightarrow> Inr (map (\<lambda>m. JStr (fst m)) d)
   | _ \<Rightarrow> Inl (py_exn rt TypeError (py_str rt v)))"

definition image_url_of :: "runtime \<Rightarrow> (pystr \<times> json) list \<Rightarrow> pystr list" where
  "image_url_of rt d = (let v = dict_get (lit ''image_url'') d in if truthy v then [py_str rt v] else [])"

definition item_image :: "runtime \<Rightarrow> json \<Rightarrow> pystr list" where
  "item_image rt item = (case item of JDict d \<Rightarrow> image_url_of rt d | JStr s \<Rightarrow> [s] | _ \<Rightarrow> [])"

definition request_of_json :: "runtime \<Rightarrow> json \<Rightarrow> bool \<Rightarrow> image_request res" where
  "request_of_json rt value stream_override = (case value of
     JDict d \<Rightarrow>
       (let field = (\<lambda>k. dict_get k d);
            text = (\<lambda>k default. py_str rt (py_or (field k) (JStr default)))
        in bindR (iter_json rt (py_or (field (lit ''images'')) (JList []))) (\<lambda>items.
           bindR (parse_int rt (field (lit ''n'')) 1) (\<lambda>count.
           Inr \<lparr>req_prompt = text (lit ''prompt'') [],
                req_n = count,
                req_size = text (lit ''size'') (lit ''1024x1024''),
                req_quality = text (lit ''quality'') (lit ''auto''),
                req_response_format = text (lit ''response_format'') (lit ''b64_json''),
                req_stream = (truthy (field (lit ''stream'')) \<or> stream_override),
                req_images = concat (map (item_image rt) items) @ image_url_of rt d,
                req_masks = (case field (lit ''mask'') of JDict m \<Rightarrow> image_url_of rt m | _ \<Rightarrow> [])\<rparr>)))
   | v \<Rightarrow> Inl (py_exn rt AttributeError (py_str rt v)))"

definition load_body :: "runtime \<Rightarrow> bytes \<Rightarrow> json res" where
  "load_body rt body = (case loads_bytes rt (if body = [] then to_bytes (lit ''{}'') else body) of
     Inl (PyError JSONDecodeError message) \<Rightarrow> Inl (invalid_request (msg_bad_json @ message))
   | r \<Rightarrow> r)"

section \<open>parse\_image\_request\<close>

definition request_of_multipart :: "runtime \<Rightarrow> fields \<Rightarrow> fields \<Rightarrow> bool \<Rightarrow> image_request res" where
  "request_of_multipart rt values uploads stream_override =
     (let field = (\<lambda>k. first (map_of values k));
          upload = (\<lambda>k. case map_of uploads k of None \<Rightarrow> [] | Some fs \<Rightarrow> fs)
      in bindR (parse_int rt (JStr (field (lit ''n''))) 1) (\<lambda>count.
         Inr \<lparr>req_prompt = field (lit ''prompt''),
              req_n = count,
              req_size = or_default (field (lit ''size'')) (lit ''1024x1024''),
              req_quality = or_default (field (lit ''quality'')) (lit ''auto''),
              req_response_format = or_default (field (lit ''response_format'')) (lit ''b64_json''),
              req_stream = (parse_bool rt (JStr (field (lit ''stream''))) \<or> stream_override),
              req_images = (if upload (lit ''image[]'') \<noteq> [] then upload (lit ''image[]'') else upload (lit ''image'')),
              req_masks = upload (lit ''mask'')\<rparr>))"

definition validate_request :: "image_request \<Rightarrow> pystr \<Rightarrow> image_request res" where
  "validate_request r request_path =
     (if py_strip (req_prompt r) = [] then Inl (invalid_request msg_empty_prompt)
      else if req_n r < 1 \<or> 4 < req_n r then Inl (invalid_request msg_bad_n)
      else if req_images r = [] \<and> request_path = edits_path then Inl (invalid_request msg_no_image)
      else if req_response_format r \<notin> {lit ''b64_json'', lit ''url''}
        then Inr (r\<lparr>req_response_format := lit ''b64_json''\<rparr>)
      else Inr r)"

definition is_multipart :: "pystr \<Rightarrow> bool" where
  "is_multipart content_type \<longleftrightarrow> starts_with (lit ''multipart/form-data'') (py_lower content_type)"

definition parse_image_request ::
    "runtime \<Rightarrow> mime \<Rightarrow> bytes \<Rightarrow> pystr \<Rightarrow> bool \<Rightarrow> pystr \<Rightarrow> image_request res" where
  "parse_image_request rt m body content_type stream_override request_path =
     bindR
       (if is_multipart content_type
        then bindR (parse_multipart rt m body content_type)
               (\<lambda>(values, uploads). request_of_multipart rt values uploads stream_override)
        else bindR (load_body rt body) (\<lambda>value. request_of_json rt value stream_override))
       (\<lambda>r. validate_request r request_path)"

section \<open>Masks\<close>

text \<open>What the helper uses of Pillow, on images of a type of their own; each operation may raise.\<close>

record 'img pillow =
  pil_open :: "bytes \<Rightarrow> 'img res"
  pil_convert :: "pystr \<Rightarrow> 'img \<Rightarrow> 'img res"
  pil_mode :: "'img \<Rightarrow> pystr"
  pil_channel :: "pystr \<Rightarrow> 'img \<Rightarrow> 'img res"
  pil_size :: "'img \<Rightarrow> nat \<times> nat"
  pil_resize :: "nat \<times> nat \<Rightarrow> 'img \<Rightarrow> 'img res"
  pil_putalpha :: "'img \<Rightarrow> 'img \<Rightarrow> 'img res"
  pil_png :: "'img \<Rightarrow> bytes res"
  pil_mime :: "'img \<Rightarrow> pystr option"

text \<open>The \<^verbatim>\<open>decode_data_url\<close> of this module cuts at a comma whatever the value starts with.\<close>

definition protocol_decode_data_url :: "runtime \<Rightarrow> pystr \<Rightarrow> bytes res" where
  "protocol_decode_data_url rt value = b64decode rt (if 44 \<in> set value then split_once 44 value ! 1 else value)"

definition mask_for :: "runtime \<Rightarrow> pystr list \<Rightarrow> nat \<Rightarrow> pystr res" where
  "mask_for rt mask_values index =
     (if index < length mask_values then Inr (mask_values ! index)
      else if mask_values = [] then Inl (py_exn rt IndexError []) else Inr (last mask_values))"

definition composite_one :: "runtime \<Rightarrow> 'img pillow \<Rightarrow> pystr list \<Rightarrow> nat \<times> pystr \<Rightarrow> pystr res" where
  "composite_one rt pil mask_values iv = (case iv of (index, image_value) \<Rightarrow>
     bindR (protocol_decode_data_url rt image_value) (\<lambda>raw_image.
     bindR (pil_open pil raw_image) (\<lambda>opened.
     bindR (pil_convert pil (lit ''RGBA'') opened) (\<lambda>image.
     bindR (mask_for rt mask_values index) (\<lambda>mask_value.
     bindR (protocol_decode_data_url rt mask_value) (\<lambda>raw_mask.
     bindR (pil_open pil raw_mask) (\<lambda>mask.
     bindR (if pil_mode pil mask = lit ''RGBA'' then pil_channel pil (lit ''A'') mask
            else pil_convert pil (lit ''L'') mask) (\<lambda>alpha.
     bindR (pil_resize pil (pil_size pil image) alpha) (\<lambda>resized.
     bindR (pil_putalpha pil image resized) (\<lambda>masked.
     bindR (pil_png pil masked) (\<lambda>png.
     Inr (data_url (lit ''image/png'') png))))))))))))"

definition composite_masks :: "runtime \<Rightarrow> 'img pillow \<Rightarrow> pystr list \<Rightarrow> pystr list \<Rightarrow> pystr list res" where
  "composite_masks rt pil image_values mask_values =
     mapR (composite_one rt pil mask_values) (enumerate 0 image_values)"

end
