(* ===== verification/Protocol_Request_Props.thy ===== *)
theory Protocol_Request_Props
  imports Protocol_Request
begin

text \<open>
  What holds of request parsing: accepted requests are within bounds, a request printed as JSON is
  read back, multipart fields are grouped by name, uploads survive as data URLs, and which errors a
  client can meet.
\<close>

section \<open>Lemmas\<close>

lemma validate_request_Inr:
  "validate_request r path = Inr q \<Longrightarrow>
   py_strip (req_prompt q) \<noteq> [] \<and> 1 \<le> req_n q \<and> req_n q \<le> 4 \<and>
   req_response_format q \<in> {lit ''b64_json'', lit ''url''} \<and> \<not> (req_images q = [] \<and> path = edits_path)"
  by (auto simp: validate_request_def split: if_splits)

lemma validate_request_Inl:
  "validate_request r path = Inl e \<Longrightarrow>
   e \<in> {invalid_request msg_empty_prompt, invalid_request msg_bad_n, invalid_request msg_no_image}"
  by (auto simp: validate_request_def split: if_splits)

lemma py_int_exn: "py_int rt v = Inl e \<Longrightarrow> (\<exists>k. e = py_exn rt k (py_str rt v) \<and>
    (k = TypeError \<or> k = ValueError \<or> k = OverflowError \<and> v \<in> {JFloat PosInf, JFloat NegInf}))"
  by (auto simp: py_int_def or_raise_def split: json.splits pyfloat.splits option.splits)

lemma parse_int_Inl_iff: "(\<exists>e. parse_int rt v d = Inl e) \<longleftrightarrow> v \<in> {JFloat PosInf, JFloat NegInf}"
proof
  assume "\<exists>e. parse_int rt v d = Inl e"
  then obtain e where e: "parse_int rt v d = Inl e" ..
  then obtain e' where e': "py_int rt v = Inl e'"
    by (cases "py_int rt v") (auto simp: parse_int_def)
  from py_int_exn [OF this] e e' show "v \<in> {JFloat PosInf, JFloat NegInf}"
    by (auto simp: parse_int_def py_exn_def split: if_splits)
qed (auto simp: parse_int_def py_int_def py_exn_def)

text \<open>Grouping: what is filed under a name is what was appended under it, in order.\<close>

definition filed :: "pystr \<Rightarrow> fields \<Rightarrow> pystr list" where
  "filed k d = (case map_of d k of None \<Rightarrow> [] | Some xs \<Rightarrow> xs)"

lemma filed_append_at [simp]: "filed k (append_at k' x d) = (if k = k' then filed k d @ [x] else filed k d)"
  by (simp add: filed_def map_of_append_at)

lemma filed_Nil [simp]: "filed k [] = []"
  by (simp add: filed_def)

definition uploads_named :: "pystr \<Rightarrow> mime_part list \<Rightarrow> mime_part list" where
  "uploads_named k parts = filter (\<lambda>part. part_filename part \<noteq> None \<and> part_key part = k) parts"

definition texts_named :: "pystr \<Rightarrow> mime_part list \<Rightarrow> mime_part list" where
  "texts_named k parts = filter (\<lambda>part. part_filename part = None \<and> part_key part = k) parts"

lemma collect_parts_uploads:
  "collect_parts m parts v u = Inr (v', u') \<Longrightarrow> filed k u' = filed k u @ map part_file (uploads_named k parts)"
proof (induction parts arbitrary: v u)
  case Nil
  then show ?case by (simp add: uploads_named_def)
next
  case (Cons part parts)
  then show ?case by (auto simp: uploads_named_def res_simps split: if_splits)
qed

lemma collect_parts_texts:
  "collect_parts m parts v u = Inr (v', u') \<Longrightarrow>
   \<exists>texts. mapR (part_text m) (texts_named k parts) = Inr texts \<and> filed k v' = filed k v @ texts"
proof (induction parts arbitrary: v u)
  case Nil
  then show ?case by (simp add: texts_named_def)
next
  case (Cons part parts)
  show ?case
  proof (cases "part_filename part")
    case None
    with Cons.prems obtain x where t: "part_text m part = Inr x"
      "collect_parts m parts (append_at (part_key part) x v) u = Inr (v', u')" by (auto simp: res_simps)
    from Cons.IH [OF t(2)] t(1) None show ?thesis by (auto simp: texts_named_def)
  next
    case (Some f)
    with Cons show ?thesis by (auto simp: texts_named_def)
  qed
qed

section \<open>A JSON body for a request\<close>

text \<open>How a client writes a request, with the images and the mask as objects.\<close>

definition image_object :: "pystr \<Rightarrow> json" where
  "image_object url = JDict [(lit ''image_url'', JStr url)]"

definition request_json :: "image_request \<Rightarrow> json" where
  "request_json r = JDict
     [(lit ''prompt'', JStr (req_prompt r)), (lit ''n'', JInt (req_n r)), (lit ''size'', JStr (req_size r)),
      (lit ''quality'', JStr (req_quality r)), (lit ''response_format'', JStr (req_response_format r)),
      (lit ''stream'', JBool (req_stream r)), (lit ''images'', JList (map image_object (req_images r))),
      (lit ''mask'', case req_masks r of [] \<Rightarrow> JNull | url # _ \<Rightarrow> image_object url)]"

definition well_formed :: "image_request \<Rightarrow> pystr \<Rightarrow> bool" where
  "well_formed r path \<longleftrightarrow> py_strip (req_prompt r) \<noteq> [] \<and> 1 \<le> req_n r \<and> req_n r \<le> 4 \<and>
     req_size r \<noteq> [] \<and> req_quality r \<noteq> [] \<and> req_response_format r \<in> {lit ''b64_json'', lit ''url''} \<and>
     list_all (\<lambda>url. url \<noteq> []) (req_images r @ req_masks r) \<and> length (req_masks r) \<le> 1 \<and>
     \<not> (req_images r = [] \<and> path = edits_path)"

lemma small_int_ok: "1 \<le> i \<Longrightarrow> i \<le> 4 \<Longrightarrow> int_ok i"
  by (auto simp: int_ok_def show_nat.simps nat_le_iff)

lemma plain_request_json: "well_formed r path \<Longrightarrow> plain (request_json r)"
  by (auto simp: request_json_def well_formed_def image_object_def small_int_ok lit_def
      split: list.splits)

lemma item_image_object: "url \<noteq> [] \<Longrightarrow> item_image rt (image_object url) = [url]"
  by (simp add: item_image_def image_object_def image_url_of_def dict_get_def)

lemma item_image_objects:
  "list_all (\<lambda>url. url \<noteq> []) urls \<Longrightarrow> concat (map (item_image rt) (map image_object urls)) = urls"
  by (induction urls) (auto simp: item_image_object)

lemma request_of_request_json:
  assumes "well_formed r path"
  shows "request_of_json rt (request_json r) False = Inr r"
proof -
  have prompt: "req_prompt r \<noteq> []" using assms by (auto simp: well_formed_def py_strip_def py_lstrip_def py_rstrip_if_def)
  have images: "concat (map (item_image rt) (map image_object (req_images r))) = req_images r"
    using assms by (intro item_image_objects) (simp add: well_formed_def)
  have masks: "(case (case req_masks r of [] \<Rightarrow> JNull | url # _ \<Rightarrow> image_object url) of
      JDict m \<Rightarrow> image_url_of rt m | _ \<Rightarrow> []) = req_masks r"
    using assms by (cases "req_masks r" rule: list.exhaust)
      (auto simp: well_formed_def image_object_def image_url_of_def dict_get_def)
  have fields: "dict_get (lit k) [(lit ''prompt'', a), (lit ''n'', b), (lit ''size'', c), (lit ''quality'', d),
      (lit ''response_format'', e), (lit ''stream'', f), (lit ''images'', g), (lit ''mask'', h)] =
    (if k = ''prompt'' then a else if k = ''n'' then b else if k = ''size'' then c else if k = ''quality'' then d
     else if k = ''response_format'' then e else if k = ''stream'' then f else if k = ''images'' then g
     else if k = ''mask'' then h else JNull)" for k a b c d e f g h
    by (simp add: dict_get_def)
  have imgs: "iter_json rt (py_or (JList (map image_object (req_images r))) (JList [])) =
      Inr (map image_object (req_images r))"
    by (cases "req_images r") (simp_all add: py_or_def iter_json_def)
  have n: "parse_int rt (JInt (req_n r)) 1 = Inr (req_n r)" by (simp add: parse_int_def py_int_def)
  have strs: "py_str rt (py_or (JStr s) (JStr t)) = (if s = [] then t else s)" for s t
    by (simp add: py_or_def)
  have none: "image_url_of rt [(lit ''prompt'', a), (lit ''n'', b), (lit ''size'', c), (lit ''quality'', d),
      (lit ''response_format'', e), (lit ''stream'', f), (lit ''images'', g), (lit ''mask'', h)] = []" for a b c d e f g h
    by (simp add: image_url_of_def fields)
  show ?thesis
    using assms prompt
    by (simp add: request_of_json_def request_json_def fields imgs n strs images masks none well_formed_def
        del: map_map) (auto simp: Let_def)
qed


lemma data_url_split: "data_url t bs = (lit ''data:'' @ t @ lit '';base64'') @ 44 # b64encode bs"
  by (simp add: data_url_def lit_def)

lemma decode_data_url_of:
  assumes "44 \<notin> set t"
  shows "protocol_decode_data_url rt (data_url t bs) = Inr bs" "decode_data_url rt (data_url t bs) = Inr bs"
proof -
  have "44 \<notin> set (lit ''data:'' @ t @ lit '';base64'')" using assms by (auto simp: lit_def)
  then have s: "split_once 44 (data_url t bs) = [lit ''data:'' @ t @ lit '';base64'', b64encode bs]"
    unfolding data_url_split by (rule split_once_at)
  have c: "44 \<in> set (data_url t bs)" by (simp add: data_url_split)
  show "protocol_decode_data_url rt (data_url t bs) = Inr bs"
    by (simp add: protocol_decode_data_url_def s c)
  have "starts_with (lit ''data:'') (data_url t bs)" by (simp add: data_url_def starts_with_def lit_def)
  then show "decode_data_url rt (data_url t bs) = Inr bs" by (simp add: decode_data_url_def s c)
qed

lemma decode_data_url_cut:
  assumes "44 \<in> set t"
  shows "protocol_decode_data_url rt (data_url t bs) = b64decode rt (tl (dropWhile (\<lambda>c. c \<noteq> 44) t) @ lit '';base64,'' @ b64encode bs)"
    and "decode_data_url rt (data_url t bs) = b64decode rt (tl (dropWhile (\<lambda>c. c \<noteq> 44) t) @ lit '';base64,'' @ b64encode bs)"
proof -
  obtain a b where t: "t = a @ 44 # b" "44 \<notin> set a" using split_list_first [OF assms] by blast
  then have rest: "tl (dropWhile (\<lambda>c. c \<noteq> 44) t) = b" by (simp add: dropWhile_append)
  have u: "data_url t bs = (lit ''data:'' @ a) @ 44 # (b @ lit '';base64,'' @ b64encode bs)" by (simp add: data_url_def t)
  have "44 \<notin> set (lit ''data:'' @ a)" using t(2) by (auto simp: lit_def)
  then have s: "split_once 44 (data_url t bs) = [lit ''data:'' @ a, b @ lit '';base64,'' @ b64encode bs]"
    unfolding u by (rule split_once_at)
  have c: "44 \<in> set (data_url t bs)" "starts_with (lit ''data:'') (data_url t bs)"
    by (simp_all add: u starts_with_def)
  show "protocol_decode_data_url rt (data_url t bs) = b64decode rt (tl (dropWhile (\<lambda>c. c \<noteq> 44) t) @ lit '';base64,'' @ b64encode bs)"
    and "decode_data_url rt (data_url t bs) = b64decode rt (tl (dropWhile (\<lambda>c. c \<noteq> 44) t) @ lit '';base64,'' @ b64encode bs)"
    unfolding rest by (simp_all add: protocol_decode_data_url_def decode_data_url_def s c)
qed

section \<open>The rules of a JSON request\<close>

text \<open>The first rule that the members of a JSON object break, stated on the members alone.\<close>

definition iterable :: "json \<Rightarrow> bool" where
  "iterable v \<longleftrightarrow> (case v of JList _ \<Rightarrow> True | JStr _ \<Rightarrow> True | JDict _ \<Rightarrow> True | _ \<Rightarrow> False)"

definition wanted :: "json \<Rightarrow> int" where
  "wanted n = (case n of
     JBool b \<Rightarrow> if b then 1 else 0
   | JInt i \<Rightarrow> i
   | JFloat (Fin q) \<Rightarrow> truncate_rat q
   | JStr s \<Rightarrow> (case int_of_str s of None \<Rightarrow> 1 | Some i \<Rightarrow> i)
   | _ \<Rightarrow> 1)"

definition item_has_image :: "json \<Rightarrow> bool" where
  "item_has_image x \<longleftrightarrow>
     (case x of JStr _ \<Rightarrow> True | JDict m \<Rightarrow> truthy (dict_get (lit ''image_url'') m) | _ \<Rightarrow> False)"

definition has_image :: "(pystr \<times> json) list \<Rightarrow> json \<Rightarrow> bool" where
  "has_image d images \<longleftrightarrow> truthy (dict_get (lit ''image_url'') d) \<or>
     (case images of
        JList xs \<Rightarrow> list_ex item_has_image xs
      | JStr s \<Rightarrow> s \<noteq> []
      | JDict m \<Rightarrow> m \<noteq> []
      | _ \<Rightarrow> False)"

definition body_error :: "runtime \<Rightarrow> (pystr \<times> json) list \<Rightarrow> pystr \<Rightarrow> exn option" where
  "body_error rt d path =
     (let images = py_or (dict_get (lit ''images'') d) (JList []);
          n = dict_get (lit ''n'') d;
          prompt = py_str rt (py_or (dict_get (lit ''prompt'') d) (JStr []))
      in if \<not> iterable images then Some (py_exn rt TypeError (py_str rt images))
         else if n \<in> {JFloat PosInf, JFloat NegInf} then Some (py_exn rt OverflowError (py_str rt n))
         else if py_strip prompt = [] then Some (invalid_request msg_empty_prompt)
         else if wanted n < 1 \<or> 4 < wanted n then Some (invalid_request msg_bad_n)
         else if \<not> has_image d images \<and> path = lit ''/v1/images/edits'' then Some (invalid_request msg_no_image)
         else None)"

lemma iter_json_error: "iter_json rt v = Inl e \<longleftrightarrow> \<not> iterable v \<and> e = py_exn rt TypeError (py_str rt v)"
  by (cases v) (auto simp: iter_json_def iterable_def)

lemma parse_int_wanted: "v \<noteq> JFloat PosInf \<and> v \<noteq> JFloat NegInf \<Longrightarrow> parse_int rt v 1 = Inr (wanted v)"
  by (auto simp: parse_int_def py_int_def wanted_def py_exn_def or_raise_def split: json.splits pyfloat.splits option.splits)

lemma image_url_none: "image_url_of rt d = [] \<longleftrightarrow> \<not> truthy (dict_get (lit ''image_url'') d)"
  by (simp add: image_url_of_def Let_def)

lemma item_image_none: "item_image rt x = [] \<longleftrightarrow> \<not> item_has_image x"
  by (cases x) (simp_all add: item_image_def item_has_image_def image_url_none)

lemma images_of_items: "concat (map (item_image rt) items) = [] \<longleftrightarrow> \<not> list_ex item_has_image items"
  by (simp add: list_ex_iff item_image_none)

lemma images_of_texts: "concat (map (item_image rt) (map (\<lambda>x. JStr (f x)) xs)) = [] \<longleftrightarrow> xs = []"
  by (cases xs) (simp_all add: item_image_def)

lemma no_images_iff:
  assumes "iter_json rt v = Inr items"
  shows "concat (map (item_image rt) items) @ image_url_of rt d = [] \<longleftrightarrow> \<not> has_image d v"
proof (cases v)
  case (JStr s)
  then have "items = map (\<lambda>c. JStr [c]) s" using assms by (simp add: iter_json_def)
  then show ?thesis using images_of_texts [of rt "\<lambda>c. [c]" s] JStr
    by (auto simp: has_image_def image_url_none simp del: concat_eq_Nil_conv)
next
  case (JList xs)
  then have "items = xs" using assms by (simp add: iter_json_def)
  then show ?thesis using images_of_items [of rt xs] JList
    by (auto simp: has_image_def image_url_none simp del: concat_eq_Nil_conv)
next
  case (JDict m)
  then have "items = map (\<lambda>x. JStr (fst x)) m" using assms by (simp add: iter_json_def)
  then show ?thesis using images_of_texts [of rt fst m] JDict
    by (auto simp: has_image_def image_url_none simp del: concat_eq_Nil_conv)
qed (use assms in \<open>simp_all add: iter_json_def\<close>)

section \<open>Properties\<close>

text \<open>
  C28. Only requests within bounds get through: whatever the body, JSON or multipart, a request that
  \<^verbatim>\<open>parse_image_request\<close> returns has a prompt that is not blank, asks for one to four images in one
  of the two formats, and is not an edit without an image.
\<close>

theorem accepted_request_is_valid:
  "case parse_image_request rt m body content_type stream_override path of
     Inl e \<Rightarrow> True
   | Inr r \<Rightarrow> py_strip (req_prompt r) \<noteq> [] \<and> 1 \<le> req_n r \<and> req_n r \<le> 4 \<and>
       req_response_format r \<in> {lit ''b64_json'', lit ''url''} \<and> \<not> (req_images r = [] \<and> path = edits_path)"
proof (cases "parse_image_request rt m body content_type stream_override path")
  case (Inr r)
  then obtain q where "validate_request q path = Inr r" by (auto simp: parse_image_request_def bindR_eq_Inr)
  from validate_request_Inr [OF this] Inr show ?thesis by simp
qed simp

lemma json_request_parsed:
  assumes "well_formed r path" "\<not> is_multipart content_type"
    and "utf8_encode (dumps rt compact_format (request_json r)) = Some body"
  shows "parse_image_request rt m body content_type False path = Inr r"
proof -
  obtain d where d: "request_json r = JDict d" by (simp add: request_json_def)
  have "loads_bytes rt body = Inr (request_json r)"
    using loads_bytes_dumps [of rt d body] assms(1,3) plain_request_json [OF assms(1)] by (simp only: d)
  moreover have "body \<noteq> []" by (rule dumps_dict_nonempty [OF assms(3) [unfolded d]])
  ultimately have "load_body rt body = Inr (request_json r)" by (simp add: load_body_def)
  moreover have "validate_request r path = Inr r"
    using assms(1) by (auto simp: well_formed_def validate_request_def)
  ultimately show ?thesis
    using assms(2) request_of_request_json [OF assms(1), of rt] by (simp add: parse_image_request_def)
qed

text \<open>
  C15. The JSON interface loses nothing: a well-formed request printed as JSON, with its images and its
  mask as objects, and sent in UTF-8 is parsed to exactly that request.
\<close>

theorem json_request_roundtrip:
  assumes "well_formed r path" "\<not> is_multipart content_type"
    and "utf8_encode (dumps rt compact_format (request_json r)) = Some body"
  shows "parse_image_request rt m body content_type False path = Inr r"
  by (rule json_request_parsed [OF assms])

definition example_request :: image_request where
  "example_request = \<lparr>req_prompt = lit ''a cat'', req_n = 2, req_size = lit ''auto'', req_quality = lit ''high'',
     req_response_format = lit ''url'', req_stream = True, req_images = [lit ''aGk=''], req_masks = []\<rparr>"

definition example_body :: pystr where
  "example_body = lit ''{\"prompt\":\"a cat\",\"n\":2,\"size\":\"auto\",\"quality\":\"high\",\"response_format\":\"url\",\"stream\":true,\"images\":[{\"image_url\":\"aGk=\"}],\"mask\":null}''"

definition no_mime :: mime where
  "no_mime = \<lparr>mime_parts = (\<lambda>bs. Inr []), mime_decode = (\<lambda>c bs. Inr [])\<rparr>"

theorem json_request_roundtrip_witness:
  "parse_image_request example_runtime no_mime (to_bytes example_body) (lit ''application/json'') False edits_path =
   Inr example_request"
proof (rule json_request_roundtrip)
  show "well_formed example_request edits_path"
    by (simp add: well_formed_def example_request_def edits_path_def lit_def py_strip_def py_lstrip_def
        py_rstrip_if_def is_space_def)
  show "\<not> is_multipart (lit ''application/json'')"
    by (simp add: is_multipart_def starts_with_def lit_def py_lower_def lower_cp_def)
  have "dumps example_runtime compact_format (request_json example_request) = example_body"
    by (simp add: example_body_def request_json_def example_request_def image_object_def compact_format_def
        quoted_def lit_def escape_cp_def show_int_def show_nat.simps)
  moreover have "utf8_encode example_body = Some (to_bytes example_body)"
    by (rule utf8_encode_ascii) (simp add: example_body_def lit_def)
  ultimately show "utf8_encode (dumps example_runtime compact_format (request_json example_request)) =
      Some (to_bytes example_body)" by simp
qed

text \<open>
  C29. Multipart fields are grouped by name and keep their order: after \<^verbatim>\<open>parse_multipart\<close> the files of a
  name are the data URLs of exactly the parts with that name and a file name, and its values the decoded
  texts of the parts with that name and none.
\<close>

theorem multipart_fields_grouped:
  assumes "utf8_encode (lit ''Content-Type: '' @ ct @ [13, 10] @ lit ''MIME-Version: 1.0'' @ [13, 10, 13, 10]) = Some head"
    and "mime_parts m (head @ body) = Inr parts"
    and "parse_multipart rt m body ct = Inr (values, uploads)"
  shows "filed k uploads = map part_file (uploads_named k parts) \<and>
    mapR (part_text m) (texts_named k parts) = Inr (filed k values)"
proof -
  have "collect_parts m parts [] [] = Inr (values, uploads)"
    using assms by (simp add: parse_multipart_def)
  from collect_parts_uploads [OF this, of k] collect_parts_texts [OF this, of k] show ?thesis by auto
qed

definition example_parts :: "mime_part list" where
  "example_parts =
     [\<lparr>part_name = Some (lit ''prompt''), part_payload = Some [104, 105], part_filename = None,
       part_type = lit ''text/plain'', part_charset = None\<rparr>,
      \<lparr>part_name = Some (lit ''image''), part_payload = Some [1, 2], part_filename = Some (lit ''a.png''),
       part_type = lit ''image/png'', part_charset = None\<rparr>]"

definition example_mime :: mime where
  "example_mime = no_mime\<lparr>mime_parts := (\<lambda>bs. Inr example_parts)\<rparr>"

theorem multipart_fields_grouped_witness:
  "filed (lit ''image'') [(lit ''image'', [data_url (lit ''image/png'') [1, 2]])] =
     [data_url (lit ''image/png'') [1, 2]] \<and>
   filed (lit ''prompt'') [(lit ''prompt'', [utf8_decode_replace [104, 105]])] = [utf8_decode_replace [104, 105]]"
proof -
  let ?head = "lit ''Content-Type: '' @ lit ''m'' @ [13, 10] @ lit ''MIME-Version: 1.0'' @ [13, 10, 13, 10]"
  let ?v = "[(lit ''prompt'', [utf8_decode_replace [104, 105]])]"
  let ?u = "[(lit ''image'', [data_url (lit ''image/png'') [1, 2]])]"
  have h: "utf8_encode ?head = Some (to_bytes ?head)" by (rule utf8_encode_ascii) (simp add: lit_def)
  have p: "mime_parts example_mime (to_bytes ?head @ []) = Inr example_parts" by (simp add: example_mime_def)
  have r: "parse_multipart example_runtime example_mime [] (lit ''m'') = Inr (?v, ?u)"
    using h by (simp add: parse_multipart_def example_mime_def example_parts_def part_text_def or_default_def
        part_file_def part_key_def part_data_def append_at_def)
  from multipart_fields_grouped [OF h p r, of "lit ''image''"] multipart_fields_grouped [OF h p r, of "lit ''prompt''"]
  show ?thesis
    by (simp add: example_parts_def uploads_named_def texts_named_def part_key_def part_text_def part_file_def
        part_data_def or_default_def)
qed

text \<open>
  C30. What becomes of an uploaded file: if the content type of its part has no comma, the data URL that multipart
  parsing makes of it is decoded to the part's payload, byte for byte, by both modules' \<^verbatim>\<open>decode_data_url\<close>. If it has
  one, both cut the data URL at that comma and decode the rest of the content type together with the
  payload.
\<close>

theorem upload_bytes_preserved:
  "let t = (if part_type part = [] then lit ''application/octet-stream'' else part_type part);
       decoded = (if 44 \<in> set t
         then b64decode rt (tl (dropWhile (\<lambda>c. c \<noteq> 44) t) @ lit '';base64,'' @ b64encode (part_data part))
         else Inr (part_data part))
   in protocol_decode_data_url rt (part_file part) = decoded \<and> decode_data_url rt (part_file part) = decoded"
  using decode_data_url_of [of "or_default (part_type part) (lit ''application/octet-stream'')" rt "part_data part"]
    decode_data_url_cut [of "or_default (part_type part) (lit ''application/octet-stream'')" rt "part_data part"]
  by (simp add: part_file_def or_default_def Let_def)

definition comma_part :: mime_part where
  "comma_part = \<lparr>part_name = Some (lit ''image''), part_payload = Some [1, 2], part_filename = Some (lit ''a.png''),
     part_type = lit ''image/png,foo'', part_charset = None\<rparr>"

theorem upload_bytes_preserved_witness:
  "protocol_decode_data_url example_runtime (part_file (example_parts ! 1)) = Inr [1, 2] \<and>
   protocol_decode_data_url example_runtime (part_file comma_part) = Inr (to_bytes [126, 138, 27, 106, 199, 186, 224, 4, 8])"
proof
  show "protocol_decode_data_url example_runtime (part_file (example_parts ! 1)) = Inr [1, 2]"
    using upload_bytes_preserved [of "example_parts ! 1" example_runtime]
    by (simp add: example_parts_def lit_def part_data_def Let_def)
  show "protocol_decode_data_url example_runtime (part_file comma_part) = Inr (to_bytes [126, 138, 27, 106, 199, 186, 224, 4, 8])"
    using upload_bytes_preserved [of comma_part example_runtime]
    by (simp add: comma_part_def lit_def part_data_def Let_def b64encode_def of_bytes_def b64_char_def b64decode_def
        b64decode_bytes_def b64_value_def)
qed

text \<open>
  C31. What a client is told of a JSON object, exactly: \<^verbatim>\<open>TypeError\<close> if \<^verbatim>\<open>images\<close> is a value that cannot be
  iterated, else \<^verbatim>\<open>OverflowError\<close> if \<^verbatim>\<open>n\<close> is infinite, else the 400 error of the first rule it breaks: a
  prompt that is not blank, one to four images (a missing or unreadable \<^verbatim>\<open>n\<close> counts as one), an input image for an edit.
  A request that breaks none is accepted.
\<close>

theorem json_object_errors:
  assumes "\<not> is_multipart content_type" "load_body rt body = Inr (JDict d)"
  shows "(case parse_image_request rt m body content_type stream_override path of Inl e \<Rightarrow> Some e | Inr r \<Rightarrow> None) =
    body_error rt d path"
proof -
  let ?images = "py_or (dict_get (lit ''images'') d) (JList [])"
  let ?n = "dict_get (lit ''n'') d"
  have parse: "parse_image_request rt m body content_type stream_override path =
      bindR (request_of_json rt (JDict d) stream_override) (\<lambda>r. validate_request r path)"
    using assms by (simp add: parse_image_request_def)
  show ?thesis
  proof (cases "iter_json rt ?images")
    case (Inl e)
    then have "body_error rt d path = Some e" by (simp add: body_error_def iter_json_error Let_def)
    with Inl show ?thesis by (simp add: parse request_of_json_def Let_def)
  next
    case (Inr items)
    then have iterable: "iterable ?images" using iter_json_error by (metis Inl_Inr_False)
    have none: "concat (map (item_image rt) items) @ image_url_of rt d = [] \<longleftrightarrow> \<not> has_image d ?images"
      by (rule no_images_iff [OF Inr])
    show ?thesis
    proof (cases "?n \<in> {JFloat PosInf, JFloat NegInf}")
      case True
      then have "parse_int rt ?n 1 = Inl (py_exn rt OverflowError (py_str rt ?n))"
        by (auto simp: parse_int_def py_int_def py_exn_def)
      with True Inr iterable show ?thesis by (simp add: parse request_of_json_def body_error_def Let_def)
    next
      case False
      with Inr iterable none show ?thesis
        by (simp add: parse request_of_json_def body_error_def Let_def parse_int_wanted validate_request_def edits_path_def)
    qed
  qed
qed

definition images_number_body :: bytes where
  "images_number_body = to_bytes (lit ''{\"images\":5}'')"

theorem json_object_errors_witness:
  "parse_image_request example_runtime no_mime images_number_body [] False [] = Inl (PyError TypeError (lit ''error''))"
proof -
  have l: "load_body example_runtime images_number_body = Inr (JDict [(lit ''images'', JInt 5)])"
  proof -
    have "utf8_encode (dumps example_runtime compact_format (JDict [(lit ''images'', JInt 5)])) = Some images_number_body"
      using utf8_encode_ascii [of "lit ''{\"images\":5}''"]
      by (simp add: images_number_body_def compact_format_def quoted_def lit_def escape_cp_def show_int_def show_nat.simps)
    from loads_bytes_dumps [OF this] show ?thesis
      by (simp add: load_body_def images_number_body_def lit_def to_bytes_def int_ok_def show_nat.simps)
  qed
  have n: "\<not> is_multipart []" by (simp add: is_multipart_def starts_with_def py_lower_def lit_def)
  have "body_error example_runtime [(lit ''images'', JInt 5)] [] = Some (PyError TypeError (lit ''error''))"
    by (simp add: body_error_def dict_get_def py_or_def iterable_def py_exn_def example_runtime_def)
  with json_object_errors [OF n l, of no_mime False "[]"] show ?thesis by (auto split: sum.splits)
qed

text \<open>
  An infinite \<^verbatim>\<open>n\<close> is the one value of that field that escapes the fallback: \<^verbatim>\<open>parse_int\<close> fails on it and on
  nothing else, although it is meant to parse any field safely.
\<close>

lemma parse_int_fails_on_infinity_only:
  "(case parse_int rt v fallback of Inl e \<Rightarrow> True | Inr i \<Rightarrow> False) \<longleftrightarrow> v \<in> {JFloat PosInf, JFloat NegInf}"
  using parse_int_Inl_iff [of rt v fallback] by (auto split: sum.splits)

text \<open>
  C40. Masks are paired with images: when \<^verbatim>\<open>composite_masks\<close> succeeds there is one PNG data URL for each image, made
  with the mask of the same position or, beyond the last, with the last mask.
\<close>

theorem masks_paired_with_images:
  "case composite_masks rt pil image_values mask_values of
     Inl e \<Rightarrow> True
   | Inr outs \<Rightarrow> length outs = length image_values \<and>
       list_all (\<lambda>i. composite_one rt pil [mask_values ! min i (length mask_values - 1)] (i, image_values ! i) = Inr (outs ! i))
         [0..<length image_values]"
proof (cases "composite_masks rt pil image_values mask_values")
  case (Inr outs)
  have each: "mapR f xs = Inr ys \<Longrightarrow> i < length xs \<Longrightarrow> f (xs ! i) = Inr (ys ! i)"
    for f :: "nat \<times> pystr \<Rightarrow> pystr res" and xs ys i
  proof (induction xs arbitrary: ys i)
    case (Cons x xs)
    then show ?case by (cases i) (auto simp: res_simps)
  qed simp
  have single: "composite_one rt pil [mask_values ! min i (length mask_values - 1)] (i, v) =
      composite_one rt pil mask_values (i, v)" if "mask_values \<noteq> []" for i v
  proof -
    have "mask_for rt [mask_values ! min i (length mask_values - 1)] i = mask_for rt mask_values i"
      using that by (auto simp: mask_for_def min_def last_conv_nth)
    then show ?thesis by (simp add: composite_one_def)
  qed
  have "length outs = length image_values" using Inr mapR_Inr_length by (fastforce simp: composite_masks_def)
  moreover have "composite_one rt pil mask_values (i, image_values ! i) = Inr (outs ! i)" if "i < length image_values" for i
    using each [of "composite_one rt pil mask_values" "enumerate 0 image_values" outs i] Inr that
    by (simp add: composite_masks_def nth_enumerate_eq)
  moreover have "mask_values \<noteq> []" if "i < length image_values" for i
    using calculation(2) [OF that] by (auto simp: composite_one_def res_simps mask_for_def)
  ultimately have "composite_one rt pil [mask_values ! min i (length mask_values - 1)] (i, image_values ! i) = Inr (outs ! i)"
    if "i < length image_values" for i
    using that single by metis
  with \<open>length outs = length image_values\<close> Inr show ?thesis by (auto simp: list_all_iff)
qed simp

end
