(* ===== verification/Backend_Session.thy ===== *)
theory Backend_Session
  imports Sentinel_Turnstile_Props Protocol_Request_Props
begin

text \<open>
  The class \<^verbatim>\<open>WebImageBackend\<close> of \<^verbatim>\<open>helper/backend.py\<close>: one web session of one credential. The network is
  an environment that answers each request from the history of requests, takes time, and may fail; the
  model keeps the requests that have been sent. The clock moves while the program computes, waits or
  talks to the network, never backwards.
\<close>

section \<open>Requests, responses, the world\<close>

datatype req_body = NoBody | JsonBody json | RawBody bytes

record http_request =
  req_method :: string
  req_url :: pystr
  req_headers :: "(pystr \<times> pystr) list"
  req_body :: req_body
  req_timeout :: time

text \<open>
  A response: \<open>resp_json\<close> is what \<^verbatim>\<open>response.json()\<close> does, \<open>resp_lines\<close> what \<^verbatim>\<open>iter_lines()\<close> hands over.
\<close>

record http_response =
  status_code :: int
  resp_text :: pystr
  content :: bytes
  content_type :: "pystr option"
  resp_json :: "json res"
  resp_lines :: "arrival list"

text \<open>
  The environment: how long each step takes, when the request is cancelled if it is, what the network answers and
  how opening a session can fail, how a session merges its headers with those of a call, and the sources of randomness, each asked by the number of the step.
\<close>

record 'img web_env =
  lag :: "nat \<Rightarrow> time"
  cancel_time :: "time option"
  respond :: "http_request list \<Rightarrow> http_request \<Rightarrow> http_response res"
  open_session :: "pystr \<Rightarrow> nat \<Rightarrow> exn option"
  merged :: "(pystr \<times> pystr) list \<Rightarrow> (pystr \<times> pystr) list \<Rightarrow> (pystr \<times> pystr) list"
  bad_url :: "json \<Rightarrow> exn"
  fresh_uuid :: "nat \<Rightarrow> pystr"
  fresh_random :: "nat \<Rightarrow> time"
  epoch_time :: "nat \<Rightarrow> json"
  draw :: "nat \<Rightarrow> pow_draw"
  html_tags :: "pystr \<Rightarrow> start_tag list"
  turnstile_env :: tenv
  pil :: "'img pillow"

record web =
  clock :: time
  steps :: nat
  web_control :: control
  sessions :: nat
  sent_requests :: "http_request list"

section \<open>Clock, waiting, randomness\<close>

text \<open>One step of the program takes its time and a number; the control as it is at the time.\<close>

definition tick :: "'img web_env \<Rightarrow> web \<Rightarrow> web" where
  "tick env w = w\<lparr>clock := clock w + max 0 (lag env (steps w)), steps := Suc (steps w)\<rparr>"

definition control_at :: "'img web_env \<Rightarrow> web \<Rightarrow> control" where
  "control_at env w = (web_control w)\<lparr>cancelled := cancelled (web_control w) \<or>
     (case cancel_time env of None \<Rightarrow> False | Some t \<Rightarrow> t \<le> clock w)\<rparr>"

definition monotonic :: "'img web_env \<Rightarrow> (web, time) prog" where
  "monotonic env = (\<lambda>w. let w' = tick env w in (Inr (clock w'), w'))"

definition ask :: "'img web_env \<Rightarrow> (nat \<Rightarrow> 'a) \<Rightarrow> (web, 'a) prog" where
  "ask env f = (\<lambda>w. (Inr (f (steps w)), tick env w))"

definition control_timeout :: "'img web_env \<Rightarrow> time option \<Rightarrow> (web, time) prog" where
  "control_timeout env maximum = (\<lambda>w. let w' = tick env w in (timeout (control_at env w') (clock w') maximum, w'))"

text \<open>\<^verbatim>\<open>Event.wait\<close>: until the time is over or the request is cancelled.\<close>

definition wait_end :: "'img web_env \<Rightarrow> time \<Rightarrow> time \<Rightarrow> time" where
  "wait_end env t seconds = (case cancel_time env of
     None \<Rightarrow> t + seconds
   | Some c \<Rightarrow> if c \<le> t then t else min c (t + seconds))"

definition control_sleep :: "'img web_env \<Rightarrow> time \<Rightarrow> (web, unit) prog" where
  "control_sleep env seconds =
     bindP (\<lambda>w. let w' = tick env w in (sleep_time (control_at env w') (clock w') seconds, w')) (\<lambda>wait_seconds.
     bindP (modifyP (\<lambda>w. if cancelled (control_at env w) then w else w\<lparr>clock := wait_end env (clock w) wait_seconds\<rparr>)) (\<lambda>_.
       (\<lambda>w. let w' = tick env w in (after_sleep (control_at env w') (clock w'), w'))))"

definition control_expired :: "'img web_env \<Rightarrow> (web, bool) prog" where
  "control_expired env = (\<lambda>w. let w' = tick env w in (Inr (expired (control_at env w') (clock w')), w'))"

section \<open>The session\<close>

record backend =
  access_token :: pystr
  base_url :: pystr
  session :: nat
  session_headers :: "(pystr \<times> pystr) list"
  cookies :: "(pystr \<times> pystr) list"
  bk_scripts :: "pystr list"
  bk_build :: pystr

record requirements =
  req_token :: pystr
  req_proof :: pystr

definition user_agent :: pystr where
  "user_agent = lit ''Mozilla/5.0 (Windows NT 10.0; Win64; x64) AppleWebKit/537.36 (KHTML, like Gecko) Chrome/143.0.0.0 Safari/537.36 Edg/143.0.0.0''"

text \<open>A string literal with double quotes, written with a tilde for each of them.\<close>

definition quoted_lit :: "string \<Rightarrow> pystr" where
  "quoted_lit s = map (\<lambda>c. if c = 126 then 34 else c) (lit s)"

definition with_headers :: "(pystr \<times> pystr) list \<Rightarrow> (pystr \<times> pystr) list \<Rightarrow> (pystr \<times> pystr) list" where
  "with_headers base extra = fold (\<lambda>(k, v). AList.update k v) extra base"

definition initial_headers :: "pystr \<Rightarrow> pystr \<Rightarrow> pystr \<Rightarrow> pystr \<Rightarrow> (pystr \<times> pystr) list" where
  "initial_headers token base device_id session_id =
     [(lit ''Authorization'', lit ''Bearer '' @ token),
      (lit ''User-Agent'', user_agent),
      (lit ''Origin'', base),
      (lit ''Referer'', base @ [47]),
      (lit ''Accept-Language'', lit ''zh-CN,zh;q=0.9,en;q=0.8,en-US;q=0.7''),
      (lit ''Cache-Control'', lit ''no-cache''),
      (lit ''Pragma'', lit ''no-cache''),
      (lit ''Sec-Ch-Ua'', quoted_lit ''~Microsoft Edge~;v=~143~, ~Chromium~;v=~143~, ~Not A(Brand~;v=~24~''),
      (lit ''Sec-Ch-Ua-Mobile'', lit ''?0''),
      (lit ''Sec-Ch-Ua-Platform'', quoted_lit ''~Windows~''),
      (lit ''OAI-Device-Id'', device_id),
      (lit ''OAI-Session-Id'', session_id),
      (lit ''OAI-Language'', lit ''zh-CN'')]"

text \<open>\<^verbatim>\<open>_set_cookie_header\<close>: what goes into the jar, in order.\<close>

definition parse_cookies :: "pystr \<Rightarrow> (pystr \<times> pystr) list" where
  "parse_cookies cookie_header =
     List.map_filter (\<lambda>part. case py_partition 61 (py_strip part) of
         (name, separator, v) \<Rightarrow> if separator \<and> name \<noteq> [] then Some (name, v) else None)
       (split_on 59 cookie_header)"

text \<open>
  \<^verbatim>\<open>__init__\<close>. A session that cannot be opened or registered raises; the registration of a cancelled request
  closes it first. Setting the headers and cookies of an open session, which comes after the registration, and
  closing it are calls of \<^verbatim>\<open>curl_cffi\<close> that are taken not to raise.
\<close>

definition new_backend :: "'img web_env \<Rightarrow> pystr \<Rightarrow> pystr \<Rightarrow> pystr \<Rightarrow> pystr \<Rightarrow> (web, backend) prog" where
  "new_backend env token base_url_text proxy_url cf_cookies =
     (let base = py_rstrip_if (\<lambda>c. c = 47) base_url_text
      in bindP (ask env (fresh_uuid env)) (\<lambda>device_id.
         bindP (ask env (fresh_uuid env)) (\<lambda>session_id.
         bindP (\<lambda>w. case open_session env proxy_url (steps w) of
             Some e \<Rightarrow> (Inl e, tick env w)
           | None \<Rightarrow> (Inr (sessions w), (tick env w)\<lparr>sessions := Suc (sessions w)\<rparr>)) (\<lambda>s.
         bindP (\<lambda>w. case register s (control_at env w) of (r, c) \<Rightarrow> (r, w\<lparr>web_control := c\<rparr>)) (\<lambda>_.
         retP \<lparr>access_token = token, base_url = base, session = s,
               session_headers = initial_headers token base device_id session_id,
               cookies = parse_cookies cf_cookies, bk_scripts = [], bk_build = []\<rparr>)))))"

definition close_backend :: "backend \<Rightarrow> (web, unit) prog" where
  "close_backend b = modifyP (\<lambda>w. w\<lparr>web_control := close_session (session b) (unregister (session b) (web_control w))\<rparr>)"

text \<open>
  One request on the session. Which headers go with it is up to the session of \<^verbatim>\<open>curl_cffi\<close>, a parameter: its documented
  behaviour, \<open>merges_headers\<close>, is that its own go with every request and those of the call replace them.
\<close>

definition merges_headers :: "'img web_env \<Rightarrow> bool" where
  "merges_headers env \<longleftrightarrow>
     (\<forall>base extra k. map_of (merged env base extra) k = map_of (with_headers base extra) k)"

definition http :: "'img web_env \<Rightarrow> backend \<Rightarrow> string \<Rightarrow> pystr \<Rightarrow> (pystr \<times> pystr) list \<Rightarrow> req_body \<Rightarrow> time \<Rightarrow> (web, http_response) prog" where
  "http env b verb url headers payload seconds =
     (\<lambda>w. let r = \<lparr>req_method = verb, req_url = url, req_headers = merged env (session_headers b) headers,
                   req_body = payload, req_timeout = seconds\<rparr>
          in (respond env (sent_requests w) r, (tick env w)\<lparr>sent_requests := sent_requests w @ [r]\<rparr>))"

text \<open>The usual call: its time-out is taken from the control just before it.\<close>

definition call_http :: "'img web_env \<Rightarrow> backend \<Rightarrow> string \<Rightarrow> pystr \<Rightarrow> (pystr \<times> pystr) list \<Rightarrow> req_body \<Rightarrow> time \<Rightarrow> (web, http_response) prog" where
  "call_http env b verb url headers payload maximum =
     bindP (control_timeout env (Some maximum)) (\<lambda>seconds. http env b verb url headers payload seconds)"

definition target_headers :: "backend \<Rightarrow> pystr \<Rightarrow> (pystr \<times> pystr) list \<Rightarrow> (pystr \<times> pystr) list" where
  "target_headers b path extra =
     with_headers (session_headers b)
       ([(lit ''X-OpenAI-Target-Path'', path), (lit ''X-OpenAI-Target-Route'', path)] @ extra)"

definition json_type :: "(pystr \<times> pystr) list" where
  "json_type = [(lit ''Content-Type'', lit ''application/json'')]"

definition accept_json :: "(pystr \<times> pystr) list" where
  "accept_json = [(lit ''Accept'', lit ''application/json'')]"

text \<open>\<^verbatim>\<open>_check\<close>.\<close>

definition check_response :: "http_response \<Rightarrow> pystr \<Rightarrow> unit res" where
  "check_response r path =
     (let status = status_code r; preview = take 500 (resp_text r)
      in if 200 \<le> status \<and> status < 300 then Inr ()
         else if status = 401 then Inl (UpstreamError msg_invalid_credential 401 False)
         else if status = 403 then Inl (UpstreamError (msg_rejected @ preview) 403 False)
         else if status = 429 then Inl (UpstreamError msg_rate_limited 429 True)
         else Inl (UpstreamError (path @ msg_http_failed @ show_int status @ [32] @ preview) status (500 \<le> status)))"

text \<open>A call whose answer is checked, as most are.\<close>

definition checked_http :: "'img web_env \<Rightarrow> backend \<Rightarrow> string \<Rightarrow> pystr \<Rightarrow> (pystr \<times> pystr) list \<Rightarrow> req_body \<Rightarrow> time \<Rightarrow> pystr \<Rightarrow> (web, http_response) prog" where
  "checked_http env b verb url headers payload maximum path =
     bindP (call_http env b verb url headers payload maximum) (\<lambda>r.
     bindP (liftP (check_response r path)) (\<lambda>_. retP r))"

text \<open>Attribute and index access on values of the upstream.\<close>

definition as_dict :: "runtime \<Rightarrow> json \<Rightarrow> (pystr \<times> json) list res" where
  "as_dict rt v = (case v of JDict d \<Rightarrow> Inr d | _ \<Rightarrow> Inl (py_exn rt AttributeError (py_str rt v)))"

definition json_item :: "runtime \<Rightarrow> pystr \<Rightarrow> json \<Rightarrow> json res" where
  "json_item rt k v = (case v of JDict d \<Rightarrow> or_raise rt KeyError k (map_of d k) | _ \<Rightarrow> Inl (py_exn rt TypeError k))"

definition url_text :: "'img web_env \<Rightarrow> json \<Rightarrow> pystr res" where
  "url_text env v = (case v of JStr s \<Rightarrow> Inr s | _ \<Rightarrow> Inl (bad_url env v))"

definition json_fields :: "runtime \<Rightarrow> http_response \<Rightarrow> (pystr \<times> json) list res" where
  "json_fields rt r = bindR (resp_json r) (as_dict rt)"


section \<open>Bootstrap and requirements\<close>

definition jobj :: "(string \<times> json) list \<Rightarrow> json" where
  "jobj d = JDict (map (\<lambda>(k, v). (lit k, v)) d)"

definition jlit :: "string \<Rightarrow> json" where
  "jlit s = JStr (lit s)"

definition bootstrap_headers :: "(pystr \<times> pystr) list" where
  "bootstrap_headers =
     [(lit ''User-Agent'', user_agent),
      (lit ''Accept'', lit ''text/html,application/xhtml+xml,application/xml;q=0.9,*/*;q=0.8''),
      (lit ''Accept-Language'', lit ''zh-CN,zh;q=0.9,en;q=0.8''),
      (lit ''Sec-Fetch-Dest'', lit ''document''),
      (lit ''Sec-Fetch-Mode'', lit ''navigate''),
      (lit ''Sec-Fetch-Site'', lit ''none''),
      (lit ''Upgrade-Insecure-Requests'', lit ''1'')]"

definition bootstrap :: "'img web_env \<Rightarrow> backend \<Rightarrow> (web, backend) prog" where
  "bootstrap env b =
     bindP (checked_http env b ''GET'' (base_url b @ [47]) bootstrap_headers NoBody 30 (lit ''bootstrap'')) (\<lambda>r.
       case parse_pow_resources (html_tags env) (resp_text r) of (scripts, build) \<Rightarrow>
         retP (b\<lparr>bk_scripts := scripts, bk_build := build\<rparr>))"

definition requirements_path :: pystr where
  "requirements_path = lit ''/backend-api/sentinel/chat-requirements''"

definition sub_dict :: "runtime \<Rightarrow> string \<Rightarrow> (pystr \<times> json) list \<Rightarrow> (pystr \<times> json) list res" where
  "sub_dict rt k d = as_dict rt (py_or (dict_get (lit k) d) (JDict []))"

definition proof_of :: "runtime \<Rightarrow> 'img web_env \<Rightarrow> backend \<Rightarrow> (pystr \<times> json) list \<Rightarrow> (web, pystr) prog" where
  "proof_of rt env b data =
     bindP (liftP (sub_dict rt ''proofofwork'' data)) (\<lambda>p.
       if truthy (dict_get (lit ''required'') p)
       then bindP (ask env (draw env)) (\<lambda>d. liftP (build_proof_token rt d (str_or_empty rt (dict_get (lit ''seed'') p))
              (str_or_empty rt (dict_get (lit ''difficulty'') p)) user_agent (bk_scripts b) (bk_build b)))
       else retP [])"

definition turnstile_of :: "runtime \<Rightarrow> 'img web_env \<Rightarrow> (pystr \<times> json) list \<Rightarrow> pystr \<Rightarrow> (web, pystr) prog" where
  "turnstile_of rt env data p_token =
     bindP (liftP (sub_dict rt ''turnstile'' data)) (\<lambda>t.
       if truthy (dict_get (lit ''required'') t) \<and> truthy (dict_get (lit ''dx'') t)
       then bindP (liftP (solve_turnstile_token rt (turnstile_env env) (py_str rt (dict_get (lit ''dx'') t)) p_token))
              (\<lambda>r. retP (case r of None \<Rightarrow> [] | Some s \<Rightarrow> s))
       else retP [])"

definition arkose_error :: exn where
  "arkose_error = HelperError msg_arkose 403 (lit ''arkose_required'')"

definition get_requirements :: "runtime \<Rightarrow> 'img web_env \<Rightarrow> backend \<Rightarrow> (web, requirements) prog" where
  "get_requirements rt env b =
     bindP (ask env (draw env)) (\<lambda>d.
     bindP (liftP (build_legacy_requirements_token rt d user_agent (bk_scripts b) (bk_build b))) (\<lambda>p_token.
     let prepare_path = requirements_path @ lit ''/prepare''; finalize_path = requirements_path @ lit ''/finalize'' in
     bindP (checked_http env b ''POST'' (base_url b @ prepare_path) (target_headers b prepare_path json_type)
              (JsonBody (jobj [(''p'', JStr p_token)])) 30 prepare_path) (\<lambda>r.
     bindP (liftP (json_fields rt r)) (\<lambda>data.
     bindP (liftP (sub_dict rt ''arkose'' data)) (\<lambda>arkose.
     if truthy (dict_get (lit ''required'') arkose) then throwP arkose_error
     else
     bindP (proof_of rt env b data) (\<lambda>proof_token.
     bindP (turnstile_of rt env data p_token) (\<lambda>turnstile_token.
     bindP (checked_http env b ''POST'' (base_url b @ finalize_path) (target_headers b finalize_path json_type)
              (JsonBody (jobj [(''prepare_token'', case map_of data (lit ''prepare_token'') of None \<Rightarrow> JStr [] | Some v \<Rightarrow> v),
                 (''proof_token'', JStr proof_token), (''turnstile_token'', JStr turnstile_token)])) 30 finalize_path) (\<lambda>r.
     bindP (liftP (json_fields rt r)) (\<lambda>finalized.
     let token = str_or_empty rt (dict_get (lit ''token'') finalized) in
     if token = [] then throwP (helper_error msg_no_token)
     else retP \<lparr>req_token = token, req_proof = proof_token\<rparr>)))))))))"

section \<open>Upload\<close>

definition upload_headers :: "backend \<Rightarrow> pystr \<Rightarrow> (pystr \<times> pystr) list" where
  "upload_headers b mime_type =
     [(lit ''Content-Type'', mime_type), (lit ''x-ms-blob-type'', lit ''BlockBlob''), (lit ''x-ms-version'', lit ''2020-04-08''),
      (lit ''Origin'', base_url b), (lit ''Referer'', base_url b @ [47])]"

definition upload_image :: "runtime \<Rightarrow> 'img web_env \<Rightarrow> backend \<Rightarrow> pystr \<Rightarrow> pystr \<Rightarrow> (web, json) prog" where
  "upload_image rt env b image_url file_name =
     bindP (liftP (decode_data_url rt image_url)) (\<lambda>raw_image.
     bindP (liftP (pil_open (pil env) raw_image)) (\<lambda>image.
     let width = JInt (int (fst (pil_size (pil env) image))); height = JInt (int (snd (pil_size (pil env) image)));
         file_size = JInt (int (length raw_image));
         mime_type = (case pil_mime (pil env) image of None \<Rightarrow> lit ''image/png'' | Some m \<Rightarrow> m);
         path = lit ''/backend-api/files'' in
     bindP (checked_http env b ''POST'' (base_url b @ path) (target_headers b path json_type)
              (JsonBody (jobj [(''file_name'', JStr file_name), (''file_size'', file_size), (''use_case'', jlit ''multimodal''),
                 (''width'', width), (''height'', height)])) 60 path) (\<lambda>r.
     bindP (liftP (resp_json r)) (\<lambda>metadata.
     bindP (liftP (json_item rt (lit ''upload_url'') metadata)) (\<lambda>upload_url.
     bindP (control_timeout env (Some 120)) (\<lambda>seconds.
     bindP (liftP (url_text env upload_url)) (\<lambda>url.
     bindP (http env b ''PUT'' url (upload_headers b mime_type) (RawBody raw_image) seconds) (\<lambda>upload.
     bindP (liftP (check_response upload (lit ''image_upload''))) (\<lambda>_.
     bindP (liftP (json_item rt (lit ''file_id'') metadata)) (\<lambda>file_id.
     let confirm_path = lit ''/backend-api/files/'' @ py_str rt file_id @ lit ''/uploaded'' in
     bindP (checked_http env b ''POST'' (base_url b @ confirm_path) (target_headers b confirm_path json_type)
              (RawBody (to_bytes (lit ''{}''))) 60 confirm_path) (\<lambda>r.
     retP (jobj [(''file_id'', file_id), (''file_name'', JStr file_name), (''file_size'', file_size),
       (''mime_type'', JStr mime_type), (''width'', width), (''height'', height)]))))))))))))"

section \<open>The conversation\<close>

definition image_headers :: "'img web_env \<Rightarrow> backend \<Rightarrow> pystr \<Rightarrow> requirements \<Rightarrow> pystr \<Rightarrow> pystr \<Rightarrow> (web, (pystr \<times> pystr) list) prog" where
  "image_headers env b path req conduit_token accept =
     (let event_stream = (accept = lit ''text/event-stream'');
          extra = json_type @ [(lit ''Accept'', accept), (lit ''OpenAI-Sentinel-Chat-Requirements-Token'', req_token req)] @
            (if req_proof req \<noteq> [] then [(lit ''OpenAI-Sentinel-Proof-Token'', req_proof req)] else []) @
            (if conduit_token \<noteq> [] then [(lit ''X-Conduit-Token'', conduit_token)] else [])
      in if event_stream
         then bindP (ask env (fresh_uuid env)) (\<lambda>u. retP (target_headers b path (extra @ [(lit ''X-Oai-Turn-Trace-Id'', u)])))
         else retP (target_headers b path extra))"

definition hints :: json where
  "hints = JList [jlit ''picture_v2'']"

definition prepare_payload :: "pystr \<Rightarrow> pystr \<Rightarrow> pystr \<Rightarrow> json" where
  "prepare_payload prompt parent_id query_id = jobj
     [(''action'', jlit ''next''), (''fork_from_shared_post'', JBool False), (''parent_message_id'', JStr parent_id),
      (''model'', jlit ''gpt-5-3''), (''client_prepare_state'', jlit ''success''), (''timezone_offset_min'', JInt (- 480)),
      (''timezone'', jlit ''Asia/Shanghai''), (''conversation_mode'', jobj [(''kind'', jlit ''primary_assistant'')]),
      (''system_hints'', hints),
      (''partial_query'', jobj [(''id'', JStr query_id), (''author'', jobj [(''role'', jlit ''user'')]),
         (''content'', jobj [(''content_type'', jlit ''text''), (''parts'', JList [JStr prompt])])]),
      (''supports_buffering'', JBool True), (''supported_encodings'', JList [jlit ''v1'']),
      (''client_contextual_info'', jobj [(''app_name'', jlit ''chatgpt.com'')])]"

definition prepare_conversation :: "runtime \<Rightarrow> 'img web_env \<Rightarrow> backend \<Rightarrow> pystr \<Rightarrow> requirements \<Rightarrow> (web, pystr) prog" where
  "prepare_conversation rt env b prompt req =
     (let path = lit ''/backend-api/f/conversation/prepare'' in
     bindP (ask env (fresh_uuid env)) (\<lambda>parent_id.
     bindP (ask env (fresh_uuid env)) (\<lambda>query_id.
     bindP (image_headers env b path req [] (lit ''*/*'')) (\<lambda>headers.
     bindP (checked_http env b ''POST'' (base_url b @ path) headers (JsonBody (prepare_payload prompt parent_id query_id)) 60 path) (\<lambda>r.
     bindP (liftP (json_fields rt r)) (\<lambda>d. retP (str_or_empty rt (dict_get (lit ''conduit_token'') d))))))))"

text \<open>The items that \<open>upload_image\<close> returned, as parts and attachments of the message.\<close>

definition item_field :: "string \<Rightarrow> json \<Rightarrow> json" where
  "item_field k item = (case item of JDict d \<Rightarrow> dict_get (lit k) d | _ \<Rightarrow> JNull)"

definition image_part :: "runtime \<Rightarrow> json \<Rightarrow> json" where
  "image_part rt item = jobj
     [(''content_type'', jlit ''image_asset_pointer''),
      (''asset_pointer'', JStr (lit ''file-service://'' @ py_str rt (item_field ''file_id'' item))),
      (''width'', item_field ''width'' item), (''height'', item_field ''height'' item),
      (''size_bytes'', item_field ''file_size'' item)]"

definition attachment :: "json \<Rightarrow> json" where
  "attachment item = jobj
     [(''id'', item_field ''file_id'' item), (''mimeType'', item_field ''mime_type'' item), (''name'', item_field ''file_name'' item),
      (''size'', item_field ''file_size'' item), (''width'', item_field ''width'' item), (''height'', item_field ''height'' item)]"

definition generation_payload :: "runtime \<Rightarrow> pystr \<Rightarrow> json list \<Rightarrow> pystr \<Rightarrow> json \<Rightarrow> pystr \<Rightarrow> json" where
  "generation_payload rt prompt uploads message_id created parent_id =
     (let msg_content = (if uploads = [] then jobj [(''content_type'', jlit ''text''), (''parts'', JList [JStr prompt])]
            else jobj [(''content_type'', jlit ''multimodal_text''), (''parts'', JList (map (image_part rt) uploads @ [JStr prompt]))]);
          metadata = jobj ([(''system_hints'', hints),
              (''serialization_metadata'', jobj [(''custom_symbol_offsets'', JList [])])] @
            (if uploads = [] then [] else [(''attachments'', JList (map attachment uploads))]))
      in jobj
       [(''action'', jlit ''next''),
        (''messages'', JList [jobj [(''id'', JStr message_id), (''author'', jobj [(''role'', jlit ''user'')]),
           (''create_time'', created), (''content'', msg_content), (''metadata'', metadata)]]),
        (''parent_message_id'', JStr parent_id), (''model'', jlit ''gpt-5-3''), (''client_prepare_state'', jlit ''sent''),
        (''timezone_offset_min'', JInt (- 480)), (''timezone'', jlit ''Asia/Shanghai''),
        (''conversation_mode'', jobj [(''kind'', jlit ''primary_assistant'')]), (''enable_message_followups'', JBool True),
        (''system_hints'', hints), (''supports_buffering'', JBool True), (''supported_encodings'', JList [jlit ''v1'']),
        (''client_contextual_info'', jobj [(''app_name'', jlit ''chatgpt.com'')]),
        (''paragen_cot_summary_display_override'', jlit ''allow''), (''force_parallel_switch'', jlit ''auto'')])"

text \<open>
  \<^verbatim>\<open>list(start_generation(...))\<close>. The lines carry the times of their arrival, which the clock follows.
\<close>

definition read_events :: "runtime \<Rightarrow> 'img web_env \<Rightarrow> http_response \<Rightarrow> (web, json list) prog" where
  "read_events rt env r =
     (\<lambda>w. (iter_sse_json rt (Some (control_at env w)) [] (resp_lines r),
           w\<lparr>clock := fold max (map at_time (resp_lines r)) (clock w)\<rparr>))"

definition start_generation ::
    "runtime \<Rightarrow> 'img web_env \<Rightarrow> backend \<Rightarrow> pystr \<Rightarrow> requirements \<Rightarrow> pystr \<Rightarrow> json list \<Rightarrow> (web, json list) prog" where
  "start_generation rt env b prompt req conduit_token uploads =
     (let path = lit ''/backend-api/f/conversation'' in
     bindP (ask env (fresh_uuid env)) (\<lambda>message_id.
     bindP (ask env (epoch_time env)) (\<lambda>created.
     bindP (ask env (fresh_uuid env)) (\<lambda>parent_id.
     bindP (image_headers env b path req conduit_token (lit ''text/event-stream'')) (\<lambda>headers.
     bindP (checked_http env b ''POST'' (base_url b @ path) headers
              (JsonBody (generation_payload rt prompt uploads message_id created parent_id)) 300 path) (\<lambda>r.
     read_events rt env r))))))"


section \<open>Polling\<close>

type_synonym found = "pystr list \<times> pystr list"

definition retry_statuses :: "int list" where
  "retry_statuses = [429, 500, 502, 503, 504, 524]"

definition poll_invalid_error :: exn where
  "poll_invalid_error = UpstreamError msg_poll_invalid 401 False"

definition poll_timeout_error :: exn where
  "poll_timeout_error = HelperError msg_poll_timeout 504 (lit ''image_timeout'')"

definition conversation_path :: "pystr \<Rightarrow> pystr" where
  "conversation_path conversation_id = lit ''/backend-api/conversation/'' @ conversation_id"

text \<open>The seconds left to the polling deadline, not below a minimum, as the call sites compute them.\<close>

definition poll_left :: "'img web_env \<Rightarrow> time \<Rightarrow> time \<Rightarrow> (web, time) prog" where
  "poll_left env minimum until = bindP (monotonic env) (\<lambda>t. retP (max minimum (until - t)))"

definition poll_request :: "'img web_env \<Rightarrow> backend \<Rightarrow> pystr \<Rightarrow> time \<Rightarrow> (web, http_response) prog" where
  "poll_request env b conversation_id until =
     (let path = conversation_path conversation_id in
     bindP (poll_left env (1 / 1000) until) (\<lambda>left.
     call_http env b ''GET'' (base_url b @ path) (target_headers b path accept_json) NoBody (min 60 left)))"

definition backoff :: "nat \<Rightarrow> time \<Rightarrow> time" where
  "backoff attempt jitter = 2 ^ min attempt 4 + jitter"

text \<open>What one answer of the poll leads to: the references, once there are any, or another round.\<close>

definition poll_answer :: "runtime \<Rightarrow> 'img web_env \<Rightarrow> pystr \<Rightarrow> time \<Rightarrow> nat \<Rightarrow> found \<Rightarrow> http_response \<Rightarrow> (web, found \<times> bool) prog" where
  "poll_answer rt env conversation_id until attempt fs r =
     (if status_code r \<in> set retry_statuses
      then bindP (ask env (fresh_random env)) (\<lambda>jitter.
           bindP (poll_left env 0 until) (\<lambda>left.
           bindP (control_sleep env (min (backoff attempt jitter) left)) (\<lambda>_. retP (fs, False))))
      else
        bindP (liftP (check_response r (conversation_path conversation_id))) (\<lambda>_.
        bindP (liftP (resp_json r)) (\<lambda>payload.
        if contains_invalid_token_error rt payload False then throwP poll_invalid_error
        else
          (let refs = extract_references rt payload;
               fs' = (append_unique (fst fs) (files refs), append_unique (snd fs) (sediments refs))
           in if fst fs' \<noteq> [] \<or> snd fs' \<noteq> [] then retP (fs', True)
              else bindP (poll_left env 0 until) (\<lambda>left.
                   bindP (control_sleep env (min 5 left)) (\<lambda>_. retP (fs', False)))))))"

text \<open>The loop; \<open>rounds\<close> bounds it, and \<open>None\<close> says that the bound was too small.\<close>

fun poll_loop :: "runtime \<Rightarrow> 'img web_env \<Rightarrow> backend \<Rightarrow> pystr \<Rightarrow> time \<Rightarrow> nat \<Rightarrow> nat \<Rightarrow> found \<Rightarrow> (web, found option) prog" where
  "poll_loop rt env b conversation_id until 0 attempt fs = retP None"
| "poll_loop rt env b conversation_id until (Suc rounds) attempt fs =
     bindP (monotonic env) (\<lambda>t.
       if t < until
       then bindP (poll_request env b conversation_id until) (\<lambda>r.
            bindP (poll_answer rt env conversation_id until (Suc attempt) fs r) (\<lambda>(fs', done).
              if done then retP (Some fs') else poll_loop rt env b conversation_id until rounds (Suc attempt) fs'))
       else throwP poll_timeout_error)"

definition poll_rounds :: "time \<Rightarrow> nat" where
  "poll_rounds seconds = nat \<lceil>seconds\<rceil> + 2"

definition poll_image_references ::
    "runtime \<Rightarrow> 'img web_env \<Rightarrow> backend \<Rightarrow> pystr \<Rightarrow> found \<Rightarrow> time \<Rightarrow> (web, found option) prog" where
  "poll_image_references rt env b conversation_id fs seconds =
     bindP (monotonic env) (\<lambda>t.
     bindP (if fst fs = [] \<and> snd fs = [] then control_sleep env (min 5 (max 0 seconds)) else retP ()) (\<lambda>_.
     poll_loop rt env b conversation_id (t + seconds) (poll_rounds seconds) 0 fs))"

section \<open>Download and clean-up\<close>

definition download_url :: "runtime \<Rightarrow> (pystr \<times> json) list \<Rightarrow> pystr" where
  "download_url rt d = py_str rt (py_or (py_or (dict_get (lit ''download_url'') d) (dict_get (lit ''url'') d)) (JStr []))"

definition file_path :: "pystr \<Rightarrow> pystr" where
  "file_path file_id = lit ''/backend-api/files/'' @ file_id @ lit ''/download''"

definition sediment_path :: "pystr \<Rightarrow> pystr \<Rightarrow> pystr" where
  "sediment_path conversation_id sediment_id =
     conversation_path conversation_id @ lit ''/attachment/'' @ sediment_id @ lit ''/download''"

definition resolve_path :: "runtime \<Rightarrow> 'img web_env \<Rightarrow> backend \<Rightarrow> pystr \<Rightarrow> (web, pystr) prog" where
  "resolve_path rt env b path =
     bindP (checked_http env b ''GET'' (base_url b @ path) (target_headers b path accept_json) NoBody 60 path) (\<lambda>r.
     bindP (liftP (json_fields rt r)) (\<lambda>d. retP (download_url rt d)))"

fun resolve_all :: "runtime \<Rightarrow> 'img web_env \<Rightarrow> backend \<Rightarrow> pystr list \<Rightarrow> pystr list \<Rightarrow> (web, pystr list) prog" where
  "resolve_all rt env b [] urls = retP urls"
| "resolve_all rt env b (path # paths) urls =
     bindP (resolve_path rt env b path) (\<lambda>url. resolve_all rt env b paths (append_unique urls [url]))"

fun fetch_all :: "'img web_env \<Rightarrow> backend \<Rightarrow> pystr list \<Rightarrow> bytes list \<Rightarrow> (web, bytes list) prog" where
  "fetch_all env b [] images = retP images"
| "fetch_all env b (url # urls) images =
     bindP (checked_http env b ''GET'' url [] NoBody 120 (lit ''image_download'')) (\<lambda>r.
       fetch_all env b urls (if content r \<in> set images then images else images @ [content r]))"

definition download_images :: "runtime \<Rightarrow> 'img web_env \<Rightarrow> backend \<Rightarrow> pystr \<Rightarrow> pystr list \<Rightarrow> pystr list \<Rightarrow> (web, bytes list) prog" where
  "download_images rt env b conversation_id fids sids =
     bindP (resolve_all rt env b (map file_path fids @ map (sediment_path conversation_id) sids) [])
       (\<lambda>urls. fetch_all env b urls [])"

definition delete_conversation :: "'img web_env \<Rightarrow> backend \<Rightarrow> pystr \<Rightarrow> (web, unit) prog" where
  "delete_conversation env b conversation_id =
     (let path = conversation_path conversation_id in
     bindP (checked_http env b ''PATCH'' (base_url b @ path) (target_headers b path json_type)
              (JsonBody (jobj [(''is_visible'', JBool False)])) 60 path) (\<lambda>_. retP ()))"

end
