(* ===== verification/Protocol_Generate.thy ===== *)
theory Protocol_Generate
  imports Backend_Session
begin

text \<open>
  The generation side of \<^verbatim>\<open>helper/protocol.py\<close>: one image with one credential, from the session's opening
  to its closing, and the request as a whole, which runs its images in parallel and prints the response.
\<close>

section \<open>Sources\<close>

definition normalize_image_source :: "'img web_env \<Rightarrow> backend \<Rightarrow> pystr \<Rightarrow> (web, pystr) prog" where
  "normalize_image_source env b v =
     (if starts_with (lit ''data:image/'') v then retP v
      else if starts_with (lit ''http://'') v \<or> starts_with (lit ''https://'') v
      then bindP (checked_http env b ''GET'' v [] NoBody 120 (lit ''input_image_download'')) (\<lambda>r.
             retP (data_url (hd (split_once 59 (or_default (case content_type r of None \<Rightarrow> [] | Some t \<Rightarrow> t) (lit ''image/png'')))) (content r)))
      else retP (lit ''data:image/png;base64,'' @ v))"

section \<open>One image with one credential\<close>

text \<open>The settings a generation reads from the payload of the request.\<close>

record settings =
  set_base_url :: json
  set_proxy_url :: json
  set_cf_cookies :: json
  set_cleanup :: json

definition settings_of :: "(pystr \<times> json) list \<Rightarrow> settings" where
  "settings_of payload =
     \<lparr>set_base_url = dict_get (lit ''base_url'') payload, set_proxy_url = dict_get (lit ''proxy_url'') payload,
      set_cf_cookies = dict_get (lit ''cf_cookies'') payload,
      set_cleanup = (case map_of payload (lit ''cleanup_conversation'') of None \<Rightarrow> JBool True | Some v \<Rightarrow> v)\<rparr>"

definition image_name :: "nat \<Rightarrow> pystr" where
  "image_name number = lit ''image_'' @ show_nat number @ lit ''.png''"

text \<open>What the events of a stream add up to: the first conversation, and all references.\<close>

definition merge_event :: "runtime \<Rightarrow> json \<Rightarrow> pystr \<times> references \<Rightarrow> pystr \<times> references" where
  "merge_event rt event acc = (case acc of (conversation_id, r) \<Rightarrow>
     let found = extract_references rt event
     in (if conversation_id \<noteq> [] then conversation_id else extract_conversation_id event,
         \<lparr>files = append_unique (files r) (files found),
          sediments = append_unique (sediments r) (sediments found),
          direct_images = append_unique (direct_images r) (direct_images found)\<rparr>))"

definition no_references :: references where
  "no_references = \<lparr>files = [], sediments = [], direct_images = []\<rparr>"

definition gather_events :: "runtime \<Rightarrow> json list \<Rightarrow> pystr \<times> references" where
  "gather_events rt events = fold (merge_event rt) events ([], no_references)"

definition result_item :: "image_request \<Rightarrow> bytes \<Rightarrow> json" where
  "result_item r raw_image =
     (let encoded = b64encode raw_image
      in jobj [(''revised_prompt'', JStr (req_prompt r)),
           (if req_response_format r = lit ''url'' then (''url'', JStr (lit ''data:image/png;base64,'' @ encoded))
            else (''b64_json'', JStr encoded))])"

text \<open>The result: a direct image, or the first one downloaded for the references, polled for if there are none yet.\<close>

definition obtain_image :: "runtime \<Rightarrow> 'img web_env \<Rightarrow> backend \<Rightarrow> pystr \<Rightarrow> references \<Rightarrow> (web, bytes) prog" where
  "obtain_image rt env b conversation_id refs =
     (case direct_images refs of
        direct # _ \<Rightarrow> liftP (b64decode rt direct)
      | [] \<Rightarrow>
          if conversation_id = [] then throwP (helper_error msg_no_conversation)
          else
            bindP (if files refs = [] \<and> sediments refs = []
                   then bindP (control_timeout env None) (\<lambda>seconds.
                        bindP (poll_image_references rt env b conversation_id ([], []) seconds) (\<lambda>found.
                        case found of Some fs \<Rightarrow> retP fs | None \<Rightarrow> throwP poll_timeout_error))
                   else retP (files refs, sediments refs)) (\<lambda>(fids, sids).
            bindP (download_images rt env b conversation_id fids sids) (\<lambda>images.
            case images of [] \<Rightarrow> throwP (helper_error msg_no_result) | raw_image # _ \<Rightarrow> retP raw_image)))"

text \<open>
  The \<^verbatim>\<open>try\<close> block up to the stream, and from the events on. The conversation that the events name is
  known to the \<^verbatim>\<open>finally\<close> block once the events have been gathered: the second part returns it beside its outcome.
\<close>

definition run_to_events :: "runtime \<Rightarrow> 'img web_env \<Rightarrow> backend \<Rightarrow> image_request \<Rightarrow> (web, backend \<times> json list) prog" where
  "run_to_events rt env b r =
     bindP (mapP (normalize_image_source env b) (req_images r)) (\<lambda>normalized_images.
     bindP (mapP (normalize_image_source env b) (req_masks r)) (\<lambda>normalized_masks.
     bindP (if normalized_masks = [] then retP normalized_images
            else liftP (composite_masks rt (pil env) normalized_images normalized_masks)) (\<lambda>inputs.
     bindP (mapP (\<lambda>(number, image_url). upload_image rt env b image_url (image_name number)) (enumerate 1 inputs)) (\<lambda>uploads.
     bindP (bootstrap env b) (\<lambda>b'.
     bindP (get_requirements rt env b') (\<lambda>req.
     bindP (prepare_conversation rt env b' (req_prompt r) req) (\<lambda>conduit.
     bindP (start_generation rt env b' (req_prompt r) req conduit uploads) (\<lambda>events.
     retP (b', events)))))))))"

definition finish_image :: "runtime \<Rightarrow> 'img web_env \<Rightarrow> backend \<Rightarrow> image_request \<Rightarrow> pystr \<times> references \<Rightarrow> (web, json) prog" where
  "finish_image rt env b r gathered =
     bindP (obtain_image rt env b (fst gathered) (snd gathered)) (\<lambda>raw_image. retP (result_item r raw_image))"

text \<open>The \<^verbatim>\<open>except\<close> clauses: a \<^verbatim>\<open>HelperError\<close> passes, anything else becomes a timeout or an upstream error.\<close>

definition wrap_errors :: "'img web_env \<Rightarrow> (web, 'a) prog \<Rightarrow> (web, 'a) prog" where
  "wrap_errors env m = catchP m (\<lambda>e.
     if is_helper_error e then throwP e
     else bindP (control_expired env) (\<lambda>late.
       if late then throwP total_timeout_error
       else throwP (UpstreamError (msg_request_failed @ exn_str e) 502 True)))"

text \<open>The \<^verbatim>\<open>finally\<close> clause: a failure of the deletion is ignored, the session is closed in any case.\<close>

definition hide_conversation :: "'img web_env \<Rightarrow> backend \<Rightarrow> settings \<Rightarrow> pystr \<Rightarrow> (web, unit) prog" where
  "hide_conversation env b s c =
     (if c \<noteq> [] \<and> truthy (set_cleanup s) then catchP (delete_conversation env b c) (\<lambda>e. retP ()) else retP ())"

definition cleanup :: "'img web_env \<Rightarrow> backend \<Rightarrow> settings \<Rightarrow> pystr \<Rightarrow> (web, unit) prog" where
  "cleanup env b s conversation_id = bindP (hide_conversation env b s conversation_id) (\<lambda>_. close_backend b)"

definition generate_with_backend ::
    "runtime \<Rightarrow> 'img web_env \<Rightarrow> image_request \<Rightarrow> settings \<Rightarrow> backend \<Rightarrow> (web, json) prog" where
  "generate_with_backend rt env r s b =
     (\<lambda>w. case run_to_events rt env b r w of
        (Inl e, w') \<Rightarrow> finallyP (wrap_errors env (throwP e)) (cleanup env b s []) w'
      | (Inr (b', events), w') \<Rightarrow>
          (let gathered = gather_events rt events
           in finallyP (wrap_errors env (finish_image rt env b' r gathered)) (cleanup env b' s (fst gathered)) w'))"

text \<open>\<^verbatim>\<open>generate_with_credential\<close>. Opening the session is outside the \<^verbatim>\<open>try\<close>.\<close>

definition generate_with_credential ::
    "runtime \<Rightarrow> 'img web_env \<Rightarrow> image_request \<Rightarrow> (pystr \<times> json) list \<Rightarrow> settings \<Rightarrow> (web, json) prog" where
  "generate_with_credential rt env r credential s =
     bindP (new_backend env (str_or_empty rt (dict_get (lit ''access_token'') credential)) (str_or_empty rt (set_base_url s))
              (py_str rt (py_or (py_or (dict_get (lit ''proxy_url'') credential) (set_proxy_url s)) (JStr [])))
              (str_or_empty rt (set_cf_cookies s)))
       (generate_with_backend rt env r s)"


section \<open>The request as a whole\<close>

text \<open>\<^verbatim>\<open>base64.b64decode(payload.get("body_base64") or "")\<close>; values that are no string raise \<^verbatim>\<open>TypeError\<close>.\<close>

definition payload_body :: "runtime \<Rightarrow> (pystr \<times> json) list \<Rightarrow> bytes res" where
  "payload_body rt payload = (case py_or (dict_get (lit ''body_base64'') payload) (JStr []) of
     JStr s \<Rightarrow> b64decode rt s
   | v \<Rightarrow> Inl (py_exn rt TypeError (py_str rt v)))"

definition no_credentials_error :: exn where
  "no_credentials_error = HelperError msg_no_credentials 503 (lit ''no_credentials'')"

definition prepare_images :: "runtime \<Rightarrow> mime \<Rightarrow> (pystr \<times> json) list \<Rightarrow> (image_request \<times> json list) res" where
  "prepare_images rt m payload =
     bindR (payload_body rt payload) (\<lambda>body.
     bindR (parse_image_request rt m body (str_or_empty rt (dict_get (lit ''content_type'') payload))
              (truthy (dict_get (lit ''stream'') payload)) (str_or_empty rt (dict_get (lit ''request_path'') payload))) (\<lambda>r.
     bindR (iter_json rt (py_or (dict_get (lit ''credentials'') payload) (JList []))) (\<lambda>credentials.
     if credentials = [] then Inl no_credentials_error else Inr (r, credentials))))"

definition worker_count :: "image_request \<Rightarrow> json list \<Rightarrow> nat" where
  "worker_count r credentials = max 1 (min (min (nat (req_n r)) (length credentials)) 4)"

text \<open>
  The futures in the order in which they complete: each result goes to the place of its index; the
  first exception among them is raised.
\<close>

fun place_results :: "(nat \<Rightarrow> json res) \<Rightarrow> nat list \<Rightarrow> json option list \<Rightarrow> json option list res" where
  "place_results outcome_of [] results = Inr results"
| "place_results outcome_of (index # completed) results =
     bindR (outcome_of index) (\<lambda>item. place_results outcome_of completed (results[index := Some item]))"

definition collect_results :: "(nat \<Rightarrow> json res) \<Rightarrow> nat list \<Rightarrow> nat \<Rightarrow> json list res" where
  "collect_results outcome_of completed n =
     bindR (place_results outcome_of completed (replicate n None)) (\<lambda>results.
       Inr (List.map_filter id results))"

text \<open>The response: one JSON document, or one event and the end mark.\<close>

definition response_text :: "runtime \<Rightarrow> bool \<Rightarrow> int \<Rightarrow> json list \<Rightarrow> pystr" where
  "response_text rt streamed created data =
     (if streamed
      then lit ''data: '' @ dumps rt compact_format (jobj
             [(''object'', jlit ''image.generation.result''), (''created'', JInt created), (''model'', jlit ''gpt-image-2''),
              (''index'', JInt 1), (''total'', JInt (int (length data))), (''data'', JList data)]) @
           [10, 10] @ lit ''data: [DONE]'' @ [10, 10]
      else dumps rt compact_format (jobj [(''created'', JInt created), (''data'', JList data)]))"

definition images_response :: "runtime \<Rightarrow> bool \<Rightarrow> int \<Rightarrow> json list \<Rightarrow> json res" where
  "images_response rt streamed created data =
     bindR (encode_str rt (response_text rt streamed created data)) (\<lambda>body.
       Inr (jobj [(''status_code'', JInt 200),
         (''headers'', jobj [(''Content-Type'', JList [jlit (if streamed then ''text/event-stream'' else ''application/json'')])]),
         (''body_base64'', JStr (b64encode body))]))"

text \<open>
  \<^verbatim>\<open>handle_images\<close>, for given outcomes of the \<^verbatim>\<open>generate_one\<close> calls and the order in which they complete.
\<close>

definition handle_images ::
    "runtime \<Rightarrow> mime \<Rightarrow> (image_request \<Rightarrow> json list \<Rightarrow> nat \<Rightarrow> json res) \<Rightarrow> (nat \<Rightarrow> nat list) \<Rightarrow> int \<Rightarrow> json \<Rightarrow> json res" where
  "handle_images rt m generate completion created payload_value =
     bindR (as_dict rt payload_value) (\<lambda>payload.
     bindR (prepare_images rt m payload) (\<lambda>(r, credentials).
     let n = nat (req_n r) in
     bindR (collect_results (generate r credentials) (completion n) n) (\<lambda>data.
       images_response rt (req_stream r) created data)))"

end
