(* ===== verification/Backend_Session_Props.thy ===== *)
theory Backend_Session_Props
  imports Backend_Session Sentinel_Pow_Props
begin

text \<open>
  What holds of the web session: requests carry the credential and respect the deadline, errors
  are classified by status, polling ends in time and only with references, downloads are distinct.
\<close>

section \<open>Time\<close>

lemma tick_simps [simp]:
  "web_control (tick env w) = web_control w" "sessions (tick env w) = sessions w"
  "sent_requests (tick env w) = sent_requests w"
  by (simp_all add: tick_def)

lemma clock_tick: "clock w \<le> clock (tick env w)"
  by (simp add: tick_def)

lemma control_at_deadline [simp]: "deadline (control_at env w) = deadline (web_control w)"
  by (simp add: control_at_def)

text \<open>A program that leaves the control, the sessions and the log alone, and does not turn back the clock.\<close>

definition quiet :: "(web, 'a) prog \<Rightarrow> bool" where
  "quiet m \<longleftrightarrow> (\<forall>w. web_control (snd (m w)) = web_control w \<and> sessions (snd (m w)) = sessions w \<and>
     sent_requests (snd (m w)) = sent_requests w \<and> clock w \<le> clock (snd (m w)))"

named_theorems quiet_intros
  \<open>programs without effects on the network\<close>

lemma quiet_pure [quiet_intros]: "quiet (retP x)" "quiet (throwP e)" "quiet (liftP r)"
  by (simp_all add: quiet_def)

lemma quiet_bindP [quiet_intros]:
  assumes m: "quiet m" and f: "\<And>x. quiet (f x)"
  shows "quiet (bindP m f)"
  unfolding quiet_def
proof
  fix w
  obtain r w' where r: "m w = (r, w')" by fastforce
  have m': "web_control w' = web_control w" "sessions w' = sessions w" "sent_requests w' = sent_requests w" "clock w \<le> clock w'"
    using m r unfolding quiet_def by (metis snd_conv)+
  show "web_control (snd (bindP m f w)) = web_control w \<and> sessions (snd (bindP m f w)) = sessions w \<and>
      sent_requests (snd (bindP m f w)) = sent_requests w \<and> clock w \<le> clock (snd (bindP m f w))"
  proof (cases r)
    case (Inl e)
    with m' r show ?thesis by (simp add: bindP_def)
  next
    case (Inr x)
    moreover have "web_control (snd (f x w')) = web_control w'" "sessions (snd (f x w')) = sessions w'"
      "sent_requests (snd (f x w')) = sent_requests w'" "clock w' \<le> clock (snd (f x w'))"
      using f [of x] unfolding quiet_def by blast+
    ultimately show ?thesis using m' r by (auto simp: bindP_def)
  qed
qed

lemma wait_end_ge: "0 \<le> s \<Longrightarrow> t \<le> wait_end env t s"
  by (auto simp: wait_end_def split: option.splits)

lemma timeout_positive: "timeout c t m = Inr s \<Longrightarrow> 0 \<le> s"
  using timeout_bounds(1) by fastforce

lemma sleep_time_nonneg: "sleep_time c t s = Inr x \<Longrightarrow> 0 \<le> x"
  using timeout_positive [of c t None] by (auto simp: sleep_time_def res_simps)

lemma quiet_clock [quiet_intros]: "quiet (monotonic env)" "quiet (ask env f)" "quiet (control_timeout env m)"
    "quiet (control_expired env)"
  by (simp_all add: quiet_def monotonic_def ask_def control_timeout_def control_expired_def Let_def clock_tick)


lemma quiet_poll_left [quiet_intros]: "quiet (poll_left env m until)"
  unfolding poll_left_def by (intro quiet_intros)

definition after_wait :: "'img web_env \<Rightarrow> web \<Rightarrow> time \<Rightarrow> web" where
  "after_wait env w t = (if cancelled (control_at env w) then w else w\<lparr>clock := wait_end env (clock w) t\<rparr>)"

lemma after_wait_simps [simp]:
  "web_control (after_wait env w t) = web_control w" "sessions (after_wait env w t) = sessions w"
  "sent_requests (after_wait env w t) = sent_requests w"
  by (simp_all add: after_wait_def)

lemma after_wait_clock: "0 \<le> t \<Longrightarrow> clock w \<le> clock (after_wait env w t)"
  by (simp add: after_wait_def wait_end_ge)

lemma control_sleep_eq:
  "control_sleep env s w =
     (case sleep_time (control_at env (tick env w)) (clock (tick env w)) s of
        Inl e \<Rightarrow> (Inl e, tick env w)
      | Inr t \<Rightarrow> (let w' = tick env (after_wait env (tick env w) t) in (after_sleep (control_at env w') (clock w'), w')))"
  by (simp add: control_sleep_def bindP_def Let_def after_wait_def split: sum.splits)

lemma quiet_sleep [quiet_intros]: "quiet (control_sleep env s)"
  unfolding quiet_def
proof
  fix w
  show "web_control (snd (control_sleep env s w)) = web_control w \<and> sessions (snd (control_sleep env s w)) = sessions w \<and>
      sent_requests (snd (control_sleep env s w)) = sent_requests w \<and> clock w \<le> clock (snd (control_sleep env s w))"
  proof (cases "sleep_time (control_at env (tick env w)) (clock (tick env w)) s")
    case (Inl e)
    then show ?thesis by (simp add: control_sleep_eq clock_tick)
  next
    case (Inr t)
    have "clock w \<le> clock (tick env w)" by (rule clock_tick)
    also have "\<dots> \<le> clock (after_wait env (tick env w) t)" by (rule after_wait_clock [OF sleep_time_nonneg [OF Inr]])
    also have "\<dots> \<le> clock (tick env (after_wait env (tick env w) t))" by (rule clock_tick)
    finally show ?thesis by (simp add: control_sleep_eq Inr Let_def)
  qed
qed

text \<open>
  A sleep that returns has moved the clock on by the whole time asked for: a shorter wait ends at the
  deadline or with the cancellation, and then the sleep raises.
\<close>

lemma control_at_later: "clock w \<le> clock w' \<Longrightarrow> web_control w' = web_control w \<Longrightarrow>
    cancelled (control_at env w) \<Longrightarrow> cancelled (control_at env w')"
  by (auto simp: control_at_def split: option.splits)

lemma sleep_returns:
  assumes "control_sleep env s w = (Inr x, w')" "0 \<le> s"
  shows "clock w + s \<le> clock w'"
proof -
  let ?w1 = "tick env w"
  obtain t where t: "sleep_time (control_at env ?w1) (clock ?w1) s = Inr t"
    using assms(1) by (auto simp: control_sleep_eq split: sum.splits)
  let ?w2 = "after_wait env ?w1 t"
  have w': "w' = tick env ?w2" and after: "after_sleep (control_at env w') (clock w') = Inr x"
    using assms(1) t by (auto simp: control_sleep_eq Let_def)
  have alive: "\<not> expired (control_at env w') (clock w')"
    using after by (cases "expired (control_at env w') (clock w')") (simp_all add: after_sleep_def timeout_expired)
  have t0: "0 \<le> t" by (rule sleep_time_nonneg [OF t])
  have c2: "web_control ?w2 = web_control w" by simp
  have mono: "clock ?w2 \<le> clock w'" using clock_tick w' by simp
  have nc2: "\<not> cancelled (control_at env ?w2)"
    using alive control_at_later [OF mono] w' by (auto simp: expired_def)
  then have nc: "\<not> cancelled (control_at env ?w1)"
    using control_at_later [OF after_wait_clock [OF t0], of env ?w1 env] by auto
  have full: "clock ?w2 = clock ?w1 + t"
    using nc nc2 by (auto simp: after_wait_def wait_end_def control_at_def min_def split: option.splits if_splits)
  obtain u where u: "timeout (control_at env ?w1) (clock ?w1) None = Inr u" "t = min (max s 0) u"
    using t by (auto simp: sleep_time_def res_simps)
  show ?thesis
  proof (cases "s \<le> u")
    case True
    then have "t = s" using u(2) assms(2) by simp
    then show ?thesis using full mono clock_tick [of w env] by simp
  next
    case False
    then have "t = u" using u(2) assms(2) by simp
    moreover have "deadline (web_control w) - clock ?w1 \<le> u"
      using u(1) by (auto simp: timeout_def Let_def split: if_splits)
    ultimately have "deadline (web_control w) \<le> clock w'" using full mono by simp
    with alive w' show ?thesis by (simp add: expired_def)
  qed
qed

section \<open>Polling\<close>

lemma bindP_liftP: "bindP (liftP r) f w = (case r of Inl e \<Rightarrow> (Inl e, w) | Inr x \<Rightarrow> f x w)"
  by (simp add: bindP_def liftP_def)

lemma bindP_monotonic: "bindP (monotonic env) f w = f (clock (tick env w)) (tick env w)"
  by (simp add: bindP_def monotonic_def Let_def)

lemma bindP_ask: "bindP (ask env g) f w = f (g (steps w)) (tick env w)"
  by (simp add: bindP_def ask_def)

text \<open>A quiet program keeps every property of the world that only looks at these parts.\<close>

lemma quiet_stable_clock: "quiet m \<Longrightarrow> stable (\<lambda>w. t \<le> clock w) m"
  unfolding quiet_def stable_def by (meson order_trans)

lemma stable_clock_http: "stable (\<lambda>w. t \<le> clock w) (http env b verb url headers payload seconds)"
  by (auto simp: stable_def http_def Let_def tick_def intro: order_trans)

lemma stable_clock_poll_request: "stable (\<lambda>w. t \<le> clock w) (poll_request env b c until)"
  unfolding poll_request_def call_http_def Let_def
  by (intro stable_bindP quiet_stable_clock quiet_poll_left quiet_clock stable_clock_http)

lemma poll_left_eq: "poll_left env m until w = (Inr (max m (until - clock (tick env w))), tick env w)"
  by (simp add: poll_left_def monotonic_def bindP_apply retP_def Let_def)

text \<open>A wait of at least two seconds, cut at the polling deadline, moves the clock on by two seconds or reaches it.\<close>

lemma wait_progress:
  assumes "bindP (poll_left env 0 until) (\<lambda>left. bindP (control_sleep env (min s left)) (\<lambda>_. retP y)) w = (Inr x, w')"
    and "2 \<le> s"
  shows "until \<le> clock w' \<or> clock w + 2 \<le> clock w'"
proof -
  let ?w = "tick env w"
  let ?s = "min s (max 0 (until - clock ?w))"
  obtain u where "control_sleep env ?s ?w = (Inr u, w')"
    using assms(1) by (auto simp: bindP_eq_Inr poll_left_eq retP_def)
  then have "clock ?w + ?s \<le> clock w'" by (rule sleep_returns) (use assms(2) in simp)
  with clock_tick [of w env] assms(2) show ?thesis by (auto simp: min_def max_def split: if_splits)
qed

lemma backoff_ge: "0 \<le> jitter \<Longrightarrow> 2 \<le> backoff (Suc attempt) jitter"
proof -
  assume "0 \<le> jitter"
  moreover have "(2::time) ^ 1 \<le> 2 ^ min (Suc attempt) 4" by (rule power_increasing) auto
  ultimately show ?thesis by (simp only: backoff_def power_one_right)
qed

lemma poll_answer_progress:
  assumes "poll_answer rt env c until (Suc attempt) fs r w = (Inr (fs', False), w')"
    and "\<And>i. 0 \<le> fresh_random env i"
  shows "until \<le> clock w' \<or> clock w + 2 \<le> clock w'"
proof (cases "status_code r \<in> set retry_statuses")
  case True
  let ?w = "tick env w"
  have "bindP (poll_left env 0 until) (\<lambda>left. bindP (control_sleep env
      (min (backoff (Suc attempt) (fresh_random env (steps w))) left)) (\<lambda>_. retP (fs, False))) ?w = (Inr (fs', False), w')"
    using assms(1) True by (simp add: poll_answer_def bindP_ask)
  then have "until \<le> clock w' \<or> clock ?w + 2 \<le> clock w'"
    by (rule wait_progress) (rule backoff_ge [OF assms(2)])
  with clock_tick [of w env] show ?thesis by linarith
next
  case False
  obtain fs0 where "bindP (poll_left env 0 until) (\<lambda>left. bindP (control_sleep env (min 5 left)) (\<lambda>_. retP (fs0, False))) w
      = (Inr (fs', False), w')"
    using assms(1) False
    by (auto simp: poll_answer_def Let_def bindP_liftP throwP_def retP_def [of "(_, True)"]
        split: sum.splits if_splits)
  then show ?thesis by (rule wait_progress) simp
qed

lemma poll_answer_done:
  assumes "poll_answer rt env c until attempt fs r w = (Inr (fs', True), w')"
  shows "fst fs' \<noteq> [] \<or> snd fs' \<noteq> []"
  using assms
  by (auto simp: poll_answer_def Let_def bindP_eq_Inr throwP_def retP_def split: if_splits)

text \<open>A round before the polling deadline: it ends the loop with a result or an exception, or it takes its time.\<close>

lemma poll_round:
  assumes "\<And>i. 0 \<le> fresh_random env i"
    and "fst (poll_loop rt env b c until (Suc rounds) attempt fs w) = Inr None"
  obtains fs' w' where "clock w < until" "until \<le> clock w' \<or> clock w + 2 \<le> clock w'"
    "fst (poll_loop rt env b c until rounds (Suc attempt) fs' w') = Inr None"
proof -
  let ?w = "tick env w"
  have before: "clock ?w < until"
    using assms(2) by (rule contrapos_pp) (simp add: bindP_monotonic throwP_def)
  then have e: "fst (bindP (poll_request env b c until) (\<lambda>r. bindP (poll_answer rt env c until (Suc attempt) fs r) (\<lambda>(fs', done).
      if done then retP (Some fs') else poll_loop rt env b c until rounds (Suc attempt) fs')) ?w) = Inr None"
    using assms(2) by (simp add: bindP_monotonic)
  obtain r w1 fs' d w2 where r: "poll_request env b c until ?w = (Inr r, w1)"
      and answer: "poll_answer rt env c until (Suc attempt) fs r w1 = (Inr (fs', d), w2)"
      and last: "fst ((if d then retP (Some fs') else poll_loop rt env b c until rounds (Suc attempt) fs') w2) = Inr None"
    using e by (auto simp: bindP_apply split: prod.splits sum.splits)
  then have d: "\<not> d" by (auto simp: retP_def)
  have "clock w \<le> clock w1" by (rule stableD [OF stable_clock_poll_request r clock_tick])
  moreover have "until \<le> clock w2 \<or> clock w1 + 2 \<le> clock w2"
    using poll_answer_progress [OF _ assms(1)] answer d by auto
  ultimately show ?thesis using that [of w2 fs'] before clock_tick [of w env] last d by auto
qed

text \<open>
  With as many rounds as there are seconds left, and one more, the bound on the loop is never the reason
  that it ends.
\<close>

lemma poll_loop_ends:
  assumes "\<And>i. 0 \<le> fresh_random env i"
  shows "until - clock w + 1 \<le> of_nat rounds \<Longrightarrow> 0 < rounds \<Longrightarrow>
    fst (poll_loop rt env b c until rounds attempt fs w) \<noteq> Inr None"
proof (induction rounds arbitrary: attempt fs w)
  case 0
  then show ?case by simp
next
  case (Suc rounds)
  show ?case
  proof
    assume "fst (poll_loop rt env b c until (Suc rounds) attempt fs w) = Inr None"
    then obtain fs' w' where w': "clock w < until" "until \<le> clock w' \<or> clock w + 2 \<le> clock w'"
      "fst (poll_loop rt env b c until rounds (Suc attempt) fs' w') = Inr None"
      by (rule poll_round [OF assms])
    have "0 < rounds" using Suc.prems(1) w'(1) by (cases rounds) auto
    moreover from this have "until - clock w' + 1 \<le> of_nat rounds"
      using Suc.prems(1) w'(2) by (cases rounds) auto
    ultimately show False using Suc.IH w'(3) by blast
  qed
qed

lemma poll_loop_found:
  "poll_loop rt env b c until rounds attempt fs w = (Inr (Some fs'), w') \<Longrightarrow> fst fs' \<noteq> [] \<or> snd fs' \<noteq> []"
proof (induction rounds arbitrary: attempt fs w)
  case 0
  then show ?case by (simp add: retP_def)
next
  case (Suc rounds)
  from Suc.prems obtain r w1 fs1 d w2 where
      a: "poll_answer rt env c until (Suc attempt) fs r w1 = (Inr (fs1, d), w2)"
    and e: "(if d then retP (Some fs1) else poll_loop rt env b c until rounds (Suc attempt) fs1) w2 = (Inr (Some fs'), w')"
    by (auto simp: bindP_eq_Inr throwP_def simp del: poll_loop.simps(1) split: if_splits)
  show ?case
  proof (cases d)
    case True
    then show ?thesis using e poll_answer_done [of rt env c until "Suc attempt" fs r w1 fs1 w2] a by (simp add: retP_def)
  next
    case False
    then show ?thesis using e Suc.IH by auto
  qed
qed

text \<open>
  C7. Polling for the result of a conversation ends, whatever the upstream answers: each round that finds nothing
  waits two seconds or up to the polling deadline, so a loop bounded by the seconds of the time-out and two more
  rounds is never cut short by its bound (\<open>Inr None\<close>), and a poll that returns has found a reference. The only
  condition is that \<^verbatim>\<open>random.random()\<close> is not negative.
\<close>

theorem polling_ends:
  assumes "\<And>i. 0 \<le> fresh_random env i"
  shows "fst (poll_image_references rt env b conversation_id fs seconds w)
    \<notin> {Inr None, Inr (Some ([], []))}"
proof -
  let ?m = "if fst fs = [] \<and> snd fs = [] then control_sleep env (min 5 (max 0 seconds)) else retP ()"
  let ?w = "tick env w"
  have eq: "poll_image_references rt env b conversation_id fs seconds w =
      bindP ?m (\<lambda>_. poll_loop rt env b conversation_id (clock ?w + seconds) (poll_rounds seconds) 0 fs) ?w"
    by (simp add: poll_image_references_def bindP_monotonic)
  obtain r w1 where m: "?m ?w = (r, w1)" by fastforce
  have "stable (\<lambda>v. clock ?w \<le> clock v) ?m" by (intro stable_if quiet_stable_clock quiet_intros)
  from stableD [OF this m] have w1: "clock ?w \<le> clock w1" by simp
  have rounds: "seconds + 1 \<le> of_nat (poll_rounds seconds)"
    using le_of_int_ceiling [of seconds] by (simp add: poll_rounds_def) linarith
  show ?thesis
  proof (cases r)
    case (Inl e)
    then show ?thesis by (simp add: eq bindP_apply m)
  next
    case (Inr u)
    let ?p = "poll_loop rt env b conversation_id (clock ?w + seconds) (poll_rounds seconds) 0 fs w1"
    have "fst ?p \<noteq> Inr None"
      by (rule poll_loop_ends [OF assms]) (use rounds w1 in \<open>simp_all add: poll_rounds_def\<close>)
    moreover have "fst ?p \<noteq> Inr (Some ([], []))"
      using poll_loop_found [of rt env b conversation_id _ _ _ fs w1 "([], [])"] by (cases ?p) auto
    ultimately show ?thesis by (simp add: eq bindP_apply [of ?m] m Inr)
  qed
qed

section \<open>An environment to try things in\<close>

text \<open>Every step takes a tenth of a second, every request is answered 200 with a reference to a file.\<close>

definition calm_answer :: http_response where
  "calm_answer = \<lparr>status_code = 200, resp_text = [], content = [1, 2], content_type = None,
     resp_json = Inr (JDict [(lit ''asset_pointer'', JStr (lit ''file-service://abc''))]), resp_lines = []\<rparr>"

definition calm_env :: "unit web_env" where
  "calm_env = \<lparr>lag = (\<lambda>n. 1 / 10), cancel_time = None, respond = (\<lambda>sent q. Inr calm_answer), open_session = (\<lambda>p n. None), merged = with_headers,
     bad_url = (\<lambda>v. PyError TypeError []), fresh_uuid = (\<lambda>n. [97]), fresh_random = (\<lambda>n. 1 / 2), epoch_time = (\<lambda>n. JInt 0),
     draw = (\<lambda>n. demo_draw), html_tags = (\<lambda>s. []),
     turnstile_env = \<lparr>obj_text = (\<lambda>v. []), elapsed = (\<lambda>n. Fin 0), random_at = (\<lambda>n. Fin 0)\<rparr>,
     pil = \<lparr>pil_open = (\<lambda>bs. Inr ()), pil_convert = (\<lambda>m i. Inr ()), pil_mode = (\<lambda>i. lit ''RGB''),
       pil_channel = (\<lambda>c i. Inr ()), pil_size = (\<lambda>i. (1, 1)), pil_resize = (\<lambda>s i. Inr ()),
       pil_putalpha = (\<lambda>i j. Inr ()), pil_png = (\<lambda>i. Inr [1]), pil_mime = (\<lambda>i. None)\<rparr>\<rparr>"

definition calm_web :: web where
  "calm_web = \<lparr>clock = 0, steps = 0, web_control = new_control 0 60, sessions = 0, sent_requests = []\<rparr>"

definition calm_backend :: backend where
  "calm_backend = \<lparr>access_token = [116], base_url = lit ''https://chatgpt.com'', session = 0,
     session_headers = initial_headers [116] (lit ''https://chatgpt.com'') [97] [97], cookies = [], bk_scripts = [], bk_build = []\<rparr>"

lemma polling_ends_witness:
  "fst (poll_image_references example_runtime calm_env calm_backend (lit ''c'') ([], []) 10 calm_web)
    \<notin> {Inr None, Inr (Some ([], []))}"
  by (rule polling_ends) (simp add: calm_env_def)

end
