(* ===== verification/Session_Invariant.thy ===== *)
theory Session_Invariant
  imports Backend_Session_Props
begin

text \<open>
  What an invariant of a web session needs to hold: the locale \<open>session_invariant\<close> names the conditions
  that concern the primitive steps, a clock that moves and a request that is sent, and inside it every method of
  \<^verbatim>\<open>WebImageBackend\<close> is shown to keep the invariant. Its interpretations say what every request carries, and
  that a session's work leaves the control of the request alone.
\<close>

section \<open>Programs that keep an invariant and yield a value with a property\<close>

definition yields :: "('w \<Rightarrow> bool) \<Rightarrow> ('w, 'a) prog \<Rightarrow> ('a \<Rightarrow> bool) \<Rightarrow> bool" where
  "yields J m Q \<longleftrightarrow> (\<forall>w. J w \<longrightarrow> J (snd (m w)) \<and> (\<forall>x. fst (m w) = Inr x \<longrightarrow> Q x))"

lemma yields_retP: "Q x \<Longrightarrow> yields J (retP x) Q"
  by (simp add: yields_def)

lemma yields_bindP:
  assumes m: "yields J m P" and f: "\<And>x. P x \<Longrightarrow> yields J (f x) Q"
  shows "yields J (bindP m f) Q"
  unfolding yields_def
proof (intro allI impI)
  fix w
  assume J: "J w"
  obtain r w' where r: "m w = (r, w')" by fastforce
  have w': "J w'" "\<And>x. r = Inr x \<Longrightarrow> P x" using m J r unfolding yields_def by (metis fst_conv snd_conv)+
  show "J (snd (bindP m f w)) \<and> (\<forall>y. fst (bindP m f w) = Inr y \<longrightarrow> Q y)"
  proof (cases r)
    case (Inl e)
    then show ?thesis using r w' by (simp add: bindP_apply)
  next
    case (Inr x)
    then have "yields J (f x) Q" using f w'(2) by blast
    then show ?thesis using r w'(1) Inr by (simp add: bindP_apply yields_def)
  qed
qed

lemma stable_yields: "stable J m \<longleftrightarrow> yields J m (\<lambda>_. True)"
  by (simp add: stable_def yields_def)

lemma stable_bindP_yields: "yields J m P \<Longrightarrow> (\<And>x. P x \<Longrightarrow> stable J (f x)) \<Longrightarrow> stable J (bindP m f)"
  unfolding stable_yields by (rule yields_bindP)

lemma yields_stable_bindP: "stable J m \<Longrightarrow> (\<And>x. yields J (f x) Q) \<Longrightarrow> yields J (bindP m f) Q"
  unfolding stable_yields by (rule yields_bindP)

lemma yieldsD: "yields J m Q \<Longrightarrow> m w = (r, w') \<Longrightarrow> J w \<Longrightarrow> J w' \<and> (\<forall>x. r = Inr x \<longrightarrow> Q x)"
  unfolding yields_def by (metis fst_conv snd_conv)

section \<open>The interface\<close>

definition authorization :: pystr where
  "authorization = lit ''Authorization''"

locale session_invariant =
  fixes env :: "'img web_env"
    and fits :: "backend \<Rightarrow> bool"
    and ok_header :: "pystr \<times> pystr \<Rightarrow> bool"
    and ok_time :: "time \<Rightarrow> bool"
    and Inv :: "web \<Rightarrow> bool"
  assumes later: "Inv w \<Longrightarrow> web_control w' = web_control w \<Longrightarrow> sessions w' = sessions w \<Longrightarrow>
      sent_requests w' = sent_requests w \<Longrightarrow> clock w \<le> clock w' \<Longrightarrow> Inv w'"
    and time_limit: "Inv w \<Longrightarrow> timeout (control_at env w) (clock w) (Some m) = Inr s \<Longrightarrow> m \<le> 300 \<Longrightarrow> ok_time s"
    and fits_headers: "fits b \<Longrightarrow> list_all ok_header (session_headers b)"
    and fits_scripts: "fits b \<Longrightarrow> fits (b\<lparr>bk_scripts := scripts, bk_build := build\<rparr>)"
    and other_header: "k \<noteq> authorization \<Longrightarrow> ok_header (k, v)"
    and request_kept: "fits b \<Longrightarrow> list_all ok_header headers \<Longrightarrow> ok_time seconds \<Longrightarrow> Inv w \<Longrightarrow>
      Inv (snd (http env b verb url headers payload seconds w))"
begin

lemma quiet_kept: "quiet m \<Longrightarrow> stable Inv m"
  unfolding quiet_def stable_def by (blast intro: later)

lemma tick_kept: "Inv w \<Longrightarrow> Inv (tick env w)"
  by (rule later [OF _ _ _ _ clock_tick]) simp_all

lemma timeout_kept: "m \<le> 300 \<Longrightarrow> yields Inv (control_timeout env (Some m)) ok_time"
  by (auto simp: yields_def control_timeout_def Let_def intro: tick_kept dest: tick_kept time_limit)

lemma http_kept: "fits b \<Longrightarrow> list_all ok_header headers \<Longrightarrow> ok_time seconds \<Longrightarrow>
    stable Inv (http env b verb url headers payload seconds)"
  by (simp add: stable_def request_kept)

lemma call_kept: "fits b \<Longrightarrow> list_all ok_header headers \<Longrightarrow> m \<le> 300 \<Longrightarrow>
    stable Inv (call_http env b verb url headers payload m)"
  unfolding call_http_def by (rule stable_bindP_yields [OF timeout_kept http_kept])

lemma checked_kept: "fits b \<Longrightarrow> list_all ok_header headers \<Longrightarrow> m \<le> 300 \<Longrightarrow>
    stable Inv (checked_http env b verb url headers payload m path)"
  unfolding checked_http_def by (intro stable_bindP call_kept stable_pure)

lemma with_headers_ok: "list_all ok_header base \<Longrightarrow> list_all ok_header extra \<Longrightarrow> list_all ok_header (with_headers base extra)"
proof (induction extra arbitrary: base)
  case Nil
  then show ?case by (simp add: with_headers_def)
next
  case (Cons kv extra)
  obtain k v where kv: "kv = (k, v)" by fastforce
  have "set (AList.update k v base) \<subseteq> insert (k, v) (set base)" by (induction base) auto
  then have "list_all ok_header (AList.update k v base)" using Cons.prems kv by (auto simp: list_all_iff)
  then show ?case using Cons kv by (simp add: with_headers_def)
qed

lemma target_headers_ok: "fits b \<Longrightarrow> list_all ok_header extra \<Longrightarrow> list_all ok_header (target_headers b path extra)"
  unfolding target_headers_def
  by (intro with_headers_ok fits_headers) (simp_all add: other_header authorization_def)

lemma fixed_headers_ok: "list_all ok_header json_type" "list_all ok_header accept_json" "list_all ok_header bootstrap_headers"
    "list_all ok_header (upload_headers b mime)"
  by (simp_all add: json_type_def accept_json_def bootstrap_headers_def upload_headers_def other_header authorization_def)

lemmas kept = quiet_kept [OF quiet_clock(1)] quiet_kept [OF quiet_clock(2)] quiet_kept [OF quiet_clock(3)]
  quiet_kept [OF quiet_clock(4)] quiet_kept [OF quiet_poll_left] quiet_kept [OF quiet_sleep]

lemma image_headers_ok:
  assumes "fits b"
  shows "yields Inv (image_headers env b path req conduit accept) (list_all ok_header)"
proof -
  have "list_all ok_header (target_headers b path (json_type @ [(lit ''Accept'', accept),
      (lit ''OpenAI-Sentinel-Chat-Requirements-Token'', req_token req)] @
      (if req_proof req \<noteq> [] then [(lit ''OpenAI-Sentinel-Proof-Token'', req_proof req)] else []) @
      (if conduit \<noteq> [] then [(lit ''X-Conduit-Token'', conduit)] else []) @ more))"
    if "list_all ok_header more" for more
    by (intro target_headers_ok assms) (simp add: that fixed_headers_ok other_header authorization_def)
  from this [of "[]"] this [of "[(lit ''X-Oai-Turn-Trace-Id'', _)]"] show ?thesis
    unfolding image_headers_def Let_def
    by (auto intro!: yields_retP yields_stable_bindP kept simp: other_header authorization_def)
qed


section \<open>The methods\<close>

lemma bootstrap_kept: "fits b \<Longrightarrow> yields Inv (bootstrap env b) fits"
  unfolding bootstrap_def
  by (intro yields_stable_bindP checked_kept fixed_headers_ok)
    (auto intro!: yields_retP fits_scripts split: prod.splits)

lemma proof_kept: "stable Inv (proof_of rt env b data)"
  unfolding proof_of_def by (intro stable_intros kept)

lemma turnstile_kept: "stable Inv (turnstile_of rt env data p)"
  unfolding turnstile_of_def by (intro stable_intros kept)

lemma requirements_kept:
  assumes "fits b"
  shows "stable Inv (get_requirements rt env b)"
  unfolding get_requirements_def Let_def
  by (intro stable_intros kept checked_kept target_headers_ok fixed_headers_ok assms proof_kept turnstile_kept) simp_all

lemma upload_kept:
  assumes "fits b"
  shows "stable Inv (upload_image rt env b url name)"
  unfolding upload_image_def Let_def
  by (intro stable_intros stable_bindP_yields [OF timeout_kept] http_kept checked_kept target_headers_ok
      fixed_headers_ok assms) simp_all

lemma prepare_kept:
  assumes "fits b"
  shows "stable Inv (prepare_conversation rt env b prompt req)"
  unfolding prepare_conversation_def Let_def
  by (intro stable_intros kept stable_bindP_yields [OF image_headers_ok] checked_kept assms) simp_all

lemma read_events_kept: "stable Inv (read_events rt env r)"
proof (rule quiet_kept)
  have "t \<le> fold max ts t" for t :: time and ts by (induction ts arbitrary: t) (auto intro: order_trans [OF max.cobounded2])
  then show "quiet (read_events rt env r)" by (simp add: quiet_def read_events_def)
qed

lemma start_generation_kept:
  assumes "fits b"
  shows "stable Inv (start_generation rt env b prompt req conduit uploads)"
  unfolding start_generation_def Let_def
  by (intro stable_intros kept stable_bindP_yields [OF image_headers_ok] checked_kept read_events_kept assms) simp_all

lemma poll_request_kept: "fits b \<Longrightarrow> stable Inv (poll_request env b c until)"
  unfolding poll_request_def Let_def
  by (intro stable_intros kept call_kept target_headers_ok fixed_headers_ok) simp_all

lemma poll_answer_kept: "stable Inv (poll_answer rt env c until attempt fs r)"
  unfolding poll_answer_def Let_def by (intro stable_intros kept)

lemma poll_loop_kept:
  assumes "fits b"
  shows "stable Inv (poll_loop rt env b c until rounds attempt fs)"
proof (induction rounds arbitrary: attempt fs)
  case 0
  show ?case by (simp only: poll_loop.simps stable_pure)
next
  case (Suc rounds)
  then show ?case
    by (auto intro!: stable_intros kept poll_request_kept poll_answer_kept assms split: prod.splits)
qed

lemma poll_kept: "fits b \<Longrightarrow> stable Inv (poll_image_references rt env b c fs seconds)"
  unfolding poll_image_references_def by (intro stable_intros kept poll_loop_kept)

lemma resolve_kept: "fits b \<Longrightarrow> stable Inv (resolve_path rt env b path)"
  unfolding resolve_path_def by (intro stable_intros checked_kept target_headers_ok fixed_headers_ok) simp_all

lemma resolve_all_kept: "fits b \<Longrightarrow> stable Inv (resolve_all rt env b paths urls)"
  by (induction paths arbitrary: urls) (auto intro!: stable_intros resolve_kept)

lemma fetch_all_kept: "fits b \<Longrightarrow> stable Inv (fetch_all env b urls images)"
  by (induction urls arbitrary: images) (auto intro!: stable_intros checked_kept)

lemma download_kept: "fits b \<Longrightarrow> stable Inv (download_images rt env b c fids sids)"
  unfolding download_images_def by (intro stable_intros resolve_all_kept fetch_all_kept)

lemma delete_kept: "fits b \<Longrightarrow> stable Inv (delete_conversation env b c)"
  unfolding delete_conversation_def Let_def
  by (intro stable_intros checked_kept target_headers_ok fixed_headers_ok) simp_all

end

end
