(* ===== verification/Protocol_Generate_Props.thy ===== *)
theory Protocol_Generate_Props
  imports Protocol_Generate Session_Invariant "HOL-Library.Multiset"
begin

text \<open>
  What holds of one generation and of a whole request: every request to the upstream carries the
  credential of the generation and respects the deadline, the session is closed whatever happens, failures are
  classified, the conversation is hidden when there is time for it, the events of a stream add up like one
  document, and the results of the workers come in the order of their indices.
\<close>

section \<open>A generation keeps an invariant of the session\<close>

context session_invariant
begin

lemma normalize_kept: "fits b \<Longrightarrow> stable Inv (normalize_image_source env b v)"
  unfolding normalize_image_source_def by (intro stable_intros checked_kept) simp_all

lemma run_kept:
  assumes "fits b"
  shows "yields Inv (run_to_events rt env b r) (\<lambda>(b', events). fits b')"
  unfolding run_to_events_def
  by (intro yields_stable_bindP yields_bindP [OF bootstrap_kept] normalize_kept requirements_kept prepare_kept
      start_generation_kept stable_intros assms yields_retP)
    (auto intro!: upload_kept assms)

lemma obtain_kept:
  assumes "fits b"
  shows "stable Inv (obtain_image rt env b c refs)"
  unfolding obtain_image_def
  by (auto intro!: stable_intros kept poll_kept download_kept assms split: list.splits option.splits prod.splits)

lemma finish_kept: "fits b \<Longrightarrow> stable Inv (finish_image rt env b r g)"
  unfolding finish_image_def by (intro stable_intros obtain_kept)

lemma wrap_kept: "stable Inv m \<Longrightarrow> stable Inv (wrap_errors env m)"
  unfolding wrap_errors_def by (intro stable_intros kept)

end

section \<open>The outcome of a generation and its clean-up\<close>

text \<open>The clean-up has two parts: the deletion, which never raises, and the closing.\<close>

lemma hide_returns: "hide_conversation env b s c w = (Inr (), snd (hide_conversation env b s c w))"
  by (auto simp: hide_conversation_def catchP_apply retP_def split: prod.splits sum.splits)

lemma cleanup_eq: "cleanup env b s c w = (Inr (), snd (close_backend b (snd (hide_conversation env b s c w))))"
  using hide_returns [of env b s c w]
  by (cases "hide_conversation env b s c w") (simp add: cleanup_def bindP_apply close_backend_def modifyP_def)

lemma finally_cleanup:
  "finallyP m (cleanup env b s c) w =
     (fst (m w), snd (close_backend b (snd (hide_conversation env b s c (snd (m w))))))"
  by (simp add: finallyP_apply cleanup_eq split: prod.splits)

text \<open>A generation with an open session: what it does before the clean-up, and the conversation it cleans up.\<close>

definition before_cleanup ::
    "runtime \<Rightarrow> 'img web_env \<Rightarrow> image_request \<Rightarrow> backend \<Rightarrow> web \<Rightarrow> (json res \<times> backend \<times> pystr) \<times> web" where
  "before_cleanup rt env r b w =
     (case run_to_events rt env b r w of
        (Inl e, w') \<Rightarrow> (case wrap_errors env (throwP e) w' of (x, w'') \<Rightarrow> ((x, b, []), w''))
      | (Inr (b', events), w') \<Rightarrow>
          (case wrap_errors env (finish_image rt env b' r (gather_events rt events)) w' of
             (x, w'') \<Rightarrow> ((x, b', fst (gather_events rt events)), w'')))"

lemma generate_parts:
  assumes "before_cleanup rt env r b w = ((x, b', c), w1)"
  shows "generate_with_backend rt env r s b w = (x, snd (close_backend b' (snd (hide_conversation env b' s c w1))))"
  using assms
  by (auto simp: before_cleanup_def generate_with_backend_def finally_cleanup Let_def split: prod.splits sum.splits)

context session_invariant
begin

lemma hide_kept: "fits b \<Longrightarrow> stable Inv (hide_conversation env b s c)"
  unfolding hide_conversation_def by (intro stable_intros delete_kept)

lemma before_cleanup_kept:
  assumes "before_cleanup rt env r b w = ((x, b', c), w1)" "fits b" "Inv w"
  shows "Inv w1 \<and> fits b'"
proof (cases "run_to_events rt env b r w")
  case (Pair y w')
  then have w': "Inv w'" "\<And>b'' ev. y = Inr (b'', ev) \<Longrightarrow> fits b''"
    using yieldsD [OF run_kept [OF assms(2)] _ assms(3)] by fastforce+
  show ?thesis
  proof (cases y)
    case (Inl e)
    then show ?thesis
      using assms(1,2) Pair w' stableD [OF wrap_kept [OF stable_pure(2)]]
      by (auto simp: before_cleanup_def split: prod.splits)
  next
    case (Inr z)
    obtain b'' ev where z: "z = (b'', ev)" by fastforce
    with Inr w'(2) have "fits b''" by blast
    then show ?thesis
      using assms(1) Pair Inr z w'(1) stableD [OF wrap_kept [OF finish_kept]]
      by (auto simp: before_cleanup_def split: prod.splits)
  qed
qed

lemma generate_kept:
  assumes "\<And>b. stable Inv (close_backend b)" "fits b"
  shows "stable Inv (generate_with_backend rt env r s b)"
  unfolding stable_def
proof (intro allI impI)
  fix w
  assume J: "Inv w"
  obtain x b' c w1 where e: "before_cleanup rt env r b w = ((x, b', c), w1)" by (metis prod.exhaust)
  from before_cleanup_kept [OF e assms(2) J] have "Inv w1" "fits b'" by auto
  then have "Inv (snd (hide_conversation env b' s c w1))" using hide_kept by (simp add: stable_def)
  then show "Inv (snd (generate_with_backend rt env r s b w))"
    using assms(1) by (simp add: generate_parts [OF e] stable_def)
qed

end

section \<open>Every request carries the credential and respects the deadline\<close>

definition own_header :: "pystr \<Rightarrow> pystr \<times> pystr \<Rightarrow> bool" where
  "own_header token h \<longleftrightarrow> (fst h = authorization \<longrightarrow> snd h = lit ''Bearer '' @ token)"

definition carries :: "pystr \<Rightarrow> (pystr \<times> pystr) list \<Rightarrow> bool" where
  "carries token headers \<longleftrightarrow> map_of headers authorization = Some (lit ''Bearer '' @ token)"

definition time_within :: "time \<Rightarrow> time \<Rightarrow> bool" where
  "time_within limit t \<longleftrightarrow> 1 / 1000 \<le> t \<and> t \<le> max (1 / 1000) (min 300 limit)"

text \<open>The first argument says whether sessions merge headers as documented; the times do not depend on it.\<close>

definition fair_request :: "bool \<Rightarrow> pystr \<Rightarrow> time \<Rightarrow> http_request \<Rightarrow> bool" where
  "fair_request merging token limit q \<longleftrightarrow>
     (merging \<longrightarrow> carries token (req_headers q)) \<and> time_within limit (req_timeout q)"

definition fair_log :: "bool \<Rightarrow> pystr \<Rightarrow> time \<Rightarrow> time \<Rightarrow> http_request list \<Rightarrow> web \<Rightarrow> bool" where
  "fair_log merging token until t0 old w \<longleftrightarrow> t0 \<le> clock w \<and> deadline (web_control w) = until \<and>
     (\<exists>qs. sent_requests w = old @ qs \<and> list_all (fair_request merging token (until - t0)) qs)"

lemma carries_with_headers:
  "carries token base \<Longrightarrow> list_all (own_header token) extra \<Longrightarrow> carries token (with_headers base extra)"
proof (induction extra arbitrary: base)
  case Nil
  then show ?case by (simp add: with_headers_def)
next
  case (Cons kv extra)
  obtain k v where kv: "kv = (k, v)" by fastforce
  have "carries token (AList.update k v base)" using Cons.prems kv by (auto simp: carries_def own_header_def)
  then show ?case using Cons kv by (simp add: with_headers_def)
qed

lemma carries_merged:
  "merges_headers env \<Longrightarrow> carries token base \<Longrightarrow> list_all (own_header token) extra \<Longrightarrow> carries token (merged env base extra)"
  using carries_with_headers by (simp add: carries_def merges_headers_def)

interpretation fair: session_invariant env
    "\<lambda>b. carries token (session_headers b) \<and> list_all (own_header token) (session_headers b)"
    "own_header token" "time_within (until - t0)" "fair_log (merges_headers env) token until t0 old"
  for env token until t0 old
proof (unfold_locales, goal_cases)
  case (1 w w')
  then show ?case by (auto simp: fair_log_def)
next
  case (2 w m s)
  have s: "s = max (1 / 1000) (min (deadline (web_control w) - clock w) m)"
    using 2(2) by (simp add: timeout_def Let_def split: if_splits)
  have "deadline (web_control w) - clock w \<le> until - t0" using 2(1) by (auto simp: fair_log_def)
  then have "min (deadline (web_control w) - clock w) m \<le> min 300 (until - t0)" using 2(3) by (auto simp: min_def)
  then show ?case unfolding time_within_def s by (intro conjI max.cobounded1 max.mono order_refl)
next
  case (6 b headers seconds w verb url payload)
  let ?q = "\<lparr>req_method = verb, req_url = url, req_headers = merged env (session_headers b) headers,
    req_body = payload, req_timeout = seconds\<rparr>"
  have "fair_request (merges_headers env) token (until - t0) ?q"
    using 6 by (simp add: fair_request_def carries_merged)
  moreover from 6 obtain qs where "t0 \<le> clock w" "deadline (web_control w) = until" "sent_requests w = old @ qs"
      "list_all (fair_request (merges_headers env) token (until - t0)) qs"
    by (auto simp: fair_log_def)
  moreover note clock_tick [of w env]
  ultimately show ?case by (auto simp: fair_log_def http_def Let_def tick_def intro!: exI [of _ "qs @ [?q]"])
qed (simp_all add: own_header_def)

lemma new_backend_fair:
  "yields (fair_log (merges_headers env) token until t0 old) (new_backend env token base proxy cf)
     (\<lambda>b. carries token (session_headers b) \<and> list_all (own_header token) (session_headers b))"
proof -
  have open_kept: "stable (fair_log (merges_headers env) token until t0 old) (\<lambda>w. case open_session env proxy (steps w) of
      Some e \<Rightarrow> (Inl e, tick env w) | None \<Rightarrow> (Inr (sessions w), (tick env w)\<lparr>sessions := Suc (sessions w)\<rparr>))"
    using clock_tick [of _ env] by (auto simp: stable_def fair_log_def intro: order_trans split: option.splits)
  have register_kept: "stable (fair_log (merges_headers env) token until t0 old)
      (\<lambda>w. case register n (control_at env w) of (r, c) \<Rightarrow> (r, w\<lparr>web_control := c\<rparr>))" for n
    by (auto simp: stable_def fair_log_def register_def close_session_def)
  have headers: "carries token (initial_headers token base' d u)"
      "list_all (own_header token) (initial_headers token base' d u)" for base' d u
    by (simp_all add: carries_def initial_headers_def own_header_def authorization_def)
  show ?thesis
    unfolding new_backend_def Let_def
    by (intro yields_stable_bindP yields_retP fair.kept open_kept register_kept) (simp add: headers)
qed

lemma close_fair: "stable (fair_log (merges_headers env) token until t0 old) (close_backend b)"
  by (auto simp: stable_def close_backend_def modifyP_def fair_log_def close_session_def unregister_def)

abbreviation token_of :: "runtime \<Rightarrow> (pystr \<times> json) list \<Rightarrow> pystr" where
  "token_of rt credential \<equiv> str_or_empty rt (dict_get (lit ''access_token'') credential)"

lemma generation_fair:
  "fair_log (merges_headers env) (token_of rt credential) (deadline (web_control w)) (clock w) (sent_requests w)
     (snd (generate_with_credential rt env r credential s w))"
proof -
  let ?J = "fair_log (merges_headers env) (token_of rt credential) (deadline (web_control w)) (clock w) (sent_requests w)"
  have "stable ?J (generate_with_credential rt env r credential s)"
    unfolding generate_with_credential_def
    by (rule stable_bindP_yields [OF new_backend_fair]) (rule fair.generate_kept [OF close_fair])
  moreover have "?J w" by (simp add: fair_log_def)
  ultimately show ?thesis by (simp add: stable_def)
qed

text \<open>
  C5. If sessions merge headers as documented, every request that a generation sends, to the web site, to the
  upload and download addresses and in the clean-up alike, carries exactly the access token of its own credential, and the log only grows.
\<close>

theorem requests_carry_credential:
  assumes "merges_headers env"
  shows "\<exists>qs. sent_requests (snd (generate_with_credential rt env r credential s w)) = sent_requests w @ qs \<and>
     list_all (carries (token_of rt credential)) (map req_headers qs)"
  using generation_fair [of env rt credential w r s] assms
  by (auto simp: fair_log_def fair_request_def list_all_iff)

definition calm_settings :: settings where
  "calm_settings = \<lparr>set_base_url = JStr (lit ''https://chatgpt.com''), set_proxy_url = JNull, set_cf_cookies = JNull,
     set_cleanup = JBool True\<rparr>"

definition calm_credential :: "(pystr \<times> json) list" where
  "calm_credential = [(lit ''access_token'', JStr [116])]"

definition text_request :: image_request where
  "text_request = example_request\<lparr>req_images := []\<rparr>"

lemma requests_carry_credential_witness:
  "\<exists>qs. sent_requests (snd (generate_with_credential example_runtime calm_env text_request calm_credential calm_settings calm_web)) = qs \<and>
     list_all (carries [116]) (map req_headers qs)"
  using requests_carry_credential [of calm_env example_runtime text_request calm_credential calm_settings calm_web]
  by (simp add: merges_headers_def calm_env_def calm_web_def calm_credential_def dict_get_def str_or_empty_def py_or_def)

text \<open>
  C20. No request of a generation may take longer than five minutes or the time that the request as a
  whole had left when the generation started, one millisecond apart, and each is given at least that millisecond.
\<close>

theorem requests_within_deadline:
  "\<exists>qs. sent_requests (snd (generate_with_credential rt env r credential s w)) = sent_requests w @ qs \<and>
     list_all (time_within (deadline (web_control w) - clock w)) (map req_timeout qs)"
  using generation_fair [of env rt credential w r s]
  by (auto simp: fair_log_def fair_request_def list_all_iff)

text \<open>The token goes along even when the request is for an image that the client named by its address.\<close>

lemma input_download_sends_credential:
  assumes "starts_with (lit ''https://'') v" "\<not> expired (control_at env (tick env w)) (clock (tick env w))"
    and "carries token (session_headers b)" "merges_headers env"
  shows "\<exists>q. sent_requests (snd (normalize_image_source env b v w)) = sent_requests w @ [q] \<and>
    req_url q = v \<and> carries token (req_headers q)"
proof -
  have "\<not> starts_with (lit ''data:image/'') v"
    using assms(1) by (cases v) (auto simp: starts_with_def lit_def)
  moreover obtain t where "timeout (control_at env (tick env w)) (clock (tick env w)) (Some 120) = Inr t"
    using assms(2) timeout_Inr_iff by blast
  ultimately show ?thesis
    using assms(1,3) carries_merged [OF assms(4,3), of "[]"]
    by (simp add: normalize_image_source_def checked_http_def call_http_def control_timeout_def bindP_apply http_def
        Let_def with_headers_def split: sum.splits)
qed

section \<open>The session is closed, failures are classified\<close>

interpretation untouched: session_invariant env "\<lambda>b. session b = number" "\<lambda>h. True" "\<lambda>t. True"
    "\<lambda>w. web_control w = c \<and> sessions w = n"
  for env :: "'img web_env" and number c n
  by unfold_locales (simp_all add: http_def Let_def list_all_iff)

lemma generation_closes:
  assumes "generate_with_backend rt env r s b w = (x, w')"
  shows "web_control w' = close_session (session b) (unregister (session b) (web_control w)) \<and> sessions w' = sessions w"
proof -
  obtain y b' c w1 where e: "before_cleanup rt env r b w = ((y, b', c), w1)" by (metis prod.exhaust)
  let ?w2 = "snd (hide_conversation env b' s c w1)"
  have b': "web_control w1 = web_control w" "sessions w1 = sessions w" "session b' = session b"
    using untouched.before_cleanup_kept [OF e refl, of "web_control w" "sessions w"] by auto
  then have "web_control ?w2 = web_control w \<and> sessions ?w2 = sessions w"
    using untouched.hide_kept [OF refl, of "web_control w" "sessions w" env b' s c] by (simp add: stable_def)
  moreover have "w' = snd (close_backend b' ?w2)" using assms generate_parts [OF e, of s] by simp
  ultimately show ?thesis using b'(3) by (simp add: close_backend_def modifyP_def)
qed

text \<open>
  What opening a session leads to: an exception of the environment and no session, a session that is closed because
  the request has been cancelled, or a registered session.
\<close>

datatype session_start = Unopened exn | Refused | Opened

fun opening_of :: "session_start \<Rightarrow> web \<Rightarrow> backend res \<Rightarrow> web \<Rightarrow> bool" where
  "opening_of (Unopened e) w x w' \<longleftrightarrow> x = Inl e \<and> sessions w' = sessions w \<and>
     resources (web_control w') = resources (web_control w) \<and>
     closed_sessions (web_control w') = closed_sessions (web_control w)"
| "opening_of Refused w x w' \<longleftrightarrow> x = Inl cancelled_error \<and> sessions w' = Suc (sessions w) \<and>
     resources (web_control w') = resources (web_control w) \<and>
     closed_sessions (web_control w') = insert (sessions w) (closed_sessions (web_control w))"
| "opening_of Opened w x w' \<longleftrightarrow> (\<exists>b. x = Inr b \<and> session b = sessions w) \<and> sessions w' = Suc (sessions w) \<and>
     resources (web_control w') = insert (sessions w) (resources (web_control w)) \<and>
     closed_sessions (web_control w') = closed_sessions (web_control w)"

lemma new_backend_opening:
  assumes "new_backend env token base proxy cf w = (x, w')"
  shows "\<exists>k. opening_of k w x w' \<and> (\<forall>e. k = Unopened e \<longrightarrow> (\<exists>i. open_session env proxy i = Some e))"
proof -
  let ?w = "tick env (tick env w)"
  let ?w1 = "(tick env ?w)\<lparr>sessions := Suc (sessions w)\<rparr>"
  show ?thesis
  proof (cases "open_session env proxy (steps ?w)")
    case (Some e)
    then have "opening_of (Unopened e) w x w'"
      using assms by (auto simp: new_backend_def Let_def ask_def bindP_apply)
    with Some show ?thesis by blast
  next
    case None
    then have e: "bindP (\<lambda>w. case register (sessions ?w) (control_at env w) of (r, c) \<Rightarrow> (r, w\<lparr>web_control := c\<rparr>))
        (\<lambda>_. retP \<lparr>access_token = token, base_url = py_rstrip_if (\<lambda>c. c = 47) base, session = sessions ?w,
           session_headers = initial_headers token (py_rstrip_if (\<lambda>c. c = 47) base) (fresh_uuid env (steps w))
             (fresh_uuid env (steps (tick env w))),
           cookies = parse_cookies cf, bk_scripts = [], bk_build = []\<rparr>) ?w1 = (x, w')"
      using assms by (simp add: new_backend_def Let_def ask_def bindP_apply)
    show ?thesis
    proof (cases "cancelled (control_at env ?w1)")
      case True
      with e have "opening_of Refused w x w'"
        by (auto simp: bindP_apply register_def close_session_def control_at_def)
      then show ?thesis by blast
    next
      case False
      with e have "opening_of Opened w x w'" by (auto simp: bindP_apply register_def retP_def control_at_def)
      then show ?thesis by blast
    qed
  qed
qed

text \<open>
  C6. A generation leaves no session behind: whatever its outcome, the sessions that the control of the request
  would have to close are the same as before, and a session that was opened has been closed.
\<close>

theorem session_always_closed:
  assumes "generate_with_credential rt env r credential s w = (x, w')"
    and "sessions w \<notin> resources (web_control w)"
  shows "resources (web_control w') = resources (web_control w) \<and>
    closed_sessions (web_control w') = closed_sessions (web_control w) \<union> {sessions w..<sessions w'}"
proof -
  obtain y w1 where n: "new_backend env (token_of rt credential) (str_or_empty rt (set_base_url s))
      (py_str rt (py_or (py_or (dict_get (lit ''proxy_url'') credential) (set_proxy_url s)) (JStr [])))
      (str_or_empty rt (set_cf_cookies s)) w = (y, w1)" by fastforce
  from new_backend_opening [OF n] obtain k where k: "opening_of k w y w1" by blast
  show ?thesis
  proof (cases k)
    case (Unopened e)
    with k n assms(1) show ?thesis by (auto simp: generate_with_credential_def bindP_apply)
  next
    case Refused
    with k n assms(1) show ?thesis by (auto simp: generate_with_credential_def bindP_apply)
  next
    case Opened
    with k obtain b where b: "y = Inr b" "session b = sessions w" by auto
    then have "generate_with_backend rt env r s b w1 = (x, w')"
      using n assms(1) by (simp add: generate_with_credential_def bindP_apply)
    from generation_closes [OF this] Opened k b assms(2) show ?thesis
      by (auto simp: close_session_def unregister_def)
  qed
qed

lemma session_always_closed_witness:
  "let w' = snd (generate_with_credential example_runtime calm_env text_request calm_credential calm_settings calm_web)
   in resources (web_control w') = {} \<and> closed_sessions (web_control w') = {0..<sessions w'}"
  using session_always_closed [of example_runtime calm_env text_request calm_credential calm_settings calm_web
      "fst (generate_with_credential example_runtime calm_env text_request calm_credential calm_settings calm_web)"
      "snd (generate_with_credential example_runtime calm_env text_request calm_credential calm_settings calm_web)"]
  by (simp add: Let_def calm_web_def new_control_def)

lemma wrapped_error: "wrap_errors env m w = (Inl e, w') \<Longrightarrow> is_helper_error e"
  by (auto simp: wrap_errors_def catchP_apply bindP_apply control_expired_def Let_def split: prod.splits sum.splits if_splits)

lemma before_cleanup_error:
  "before_cleanup rt env r b w = ((Inl e, b', c), w1) \<Longrightarrow> is_helper_error e"
  using wrapped_error by (auto simp: before_cleanup_def split: prod.splits sum.splits)

text \<open>
  C17. The failures of a generation are classified: an exception that leaves \<^verbatim>\<open>generate_with_credential\<close> is a
  \<^verbatim>\<open>HelperError\<close> (an \<^verbatim>\<open>UpstreamError\<close> among them), or it is the one with which the session could not be opened.
\<close>

theorem generation_failures_classified:
  assumes "generate_with_credential rt env r credential s w = (Inl e, w')"
  shows "is_helper_error e \<or> Some e \<in> range (open_session env
    (py_str rt (py_or (py_or (dict_get (lit ''proxy_url'') credential) (set_proxy_url s)) (JStr []))))"
proof -
  let ?p = "py_str rt (py_or (py_or (dict_get (lit ''proxy_url'') credential) (set_proxy_url s)) (JStr []))"
  obtain y w1 where n: "new_backend env (token_of rt credential) (str_or_empty rt (set_base_url s)) ?p
      (str_or_empty rt (set_cf_cookies s)) w = (y, w1)" by fastforce
  from new_backend_opening [OF n] obtain k where k: "opening_of k w y w1"
      "\<forall>e. k = Unopened e \<longrightarrow> (\<exists>i. open_session env ?p i = Some e)" by blast
  show ?thesis
  proof (cases k)
    case (Unopened e')
    with k n assms(1) have "\<exists>i. open_session env ?p i = Some e" by (auto simp: generate_with_credential_def bindP_apply)
    then show ?thesis by (metis rangeI)
  next
    case Refused
    with k n assms(1) show ?thesis by (auto simp: generate_with_credential_def bindP_apply cancelled_error_def)
  next
    case Opened
    with k obtain b where b: "y = Inr b" by auto
    then have g: "generate_with_backend rt env r s b w1 = (Inl e, w')"
      using n assms(1) by (simp add: generate_with_credential_def bindP_apply)
    obtain z b' c w2 where e: "before_cleanup rt env r b w1 = ((z, b', c), w2)" by (metis prod.exhaust)
    from generate_parts [OF e, of s] g have "z = Inl e" by simp
    then show ?thesis using before_cleanup_error e by blast
  qed
qed

text \<open>A connection that breaks at the first request.\<close>

definition broken_env :: "unit web_env" where
  "broken_env = calm_env\<lparr>respond := (\<lambda>sent q. Inl (PyError RuntimeError (lit ''reset'')))\<rparr>"

lemma broken_generation:
  "fst (generate_with_credential example_runtime broken_env text_request calm_credential calm_settings calm_web) =
     Inl (UpstreamError (msg_request_failed @ lit ''reset'') 502 True)"
  by (simp add: generate_with_credential_def new_backend_def bindP_apply ask_def broken_env_def calm_env_def calm_web_def
      tick_def register_def control_at_def new_control_def retP_def generate_with_backend_def run_to_events_def
      text_request_def example_request_def bootstrap_def checked_http_def call_http_def control_timeout_def timeout_def
      http_def Let_def finally_cleanup wrap_errors_def catchP_apply throwP_def control_expired_def expired_def)

lemma generation_failures_classified_witness:
  "is_helper_error (UpstreamError (msg_request_failed @ lit ''reset'') 502 True) \<or>
   Some (UpstreamError (msg_request_failed @ lit ''reset'') 502 True) \<in> range (open_session broken_env
    (py_str example_runtime (py_or (py_or (dict_get (lit ''proxy_url'') calm_credential) (set_proxy_url calm_settings)) (JStr []))))"
proof -
  let ?g = "generate_with_credential example_runtime broken_env text_request calm_credential calm_settings calm_web"
  have "?g = (Inl (UpstreamError (msg_request_failed @ lit ''reset'') 502 True), snd ?g)"
    by (simp add: prod_eq_iff broken_generation)
  then show ?thesis by (rule generation_failures_classified)
qed

section \<open>Hiding the conversation\<close>

text \<open>The request that hides a conversation, with the time it is given.\<close>

definition hide_request :: "'img web_env \<Rightarrow> backend \<Rightarrow> pystr \<Rightarrow> time \<Rightarrow> http_request" where
  "hide_request env b c seconds =
     (let path = conversation_path c
      in \<lparr>req_method = ''PATCH'', req_url = base_url b @ path,
          req_headers = merged env (session_headers b) (target_headers b path json_type),
          req_body = JsonBody (jobj [(''is_visible'', JBool False)]), req_timeout = seconds\<rparr>)"

definition hiding :: "'img web_env \<Rightarrow> backend \<Rightarrow> settings \<Rightarrow> pystr \<Rightarrow> web \<Rightarrow> http_request list" where
  "hiding env b s c w =
     (if c \<noteq> [] \<and> truthy (set_cleanup s)
      then (case timeout (control_at env (tick env w)) (clock (tick env w)) (Some 60) of
              Inl e \<Rightarrow> [] | Inr seconds \<Rightarrow> [hide_request env b c seconds])
      else [])"

lemma hide_requests: "sent_requests (snd (hide_conversation env b s c w)) = sent_requests w @ hiding env b s c w"
  by (simp add: hide_conversation_def hiding_def hide_request_def catchP_apply delete_conversation_def checked_http_def
      call_http_def control_timeout_def bindP_apply http_def Let_def retP_def split: sum.splits prod.splits)

lemma close_requests: "sent_requests (snd (close_backend b w)) = sent_requests w"
  by (simp add: close_backend_def modifyP_def)

text \<open>
  C13. The conversation of a generation is hidden, as the last request and whatever the outcome, if the
  events of a completed stream named one, the settings ask for it and the request still has time; in every other
  case, a stream that failed half-way and a deadline that has passed among them, no request follows the generation.
\<close>

theorem conversation_hidden_in_time:
  "sent_requests (snd (generate_with_backend rt env r s b w)) =
     (case run_to_events rt env b r w of
        (Inl e, w1) \<Rightarrow> sent_requests w1
      | (Inr (b', events), w1) \<Rightarrow>
          (let gathered = gather_events rt events;
               w2 = snd (wrap_errors env (finish_image rt env b' r gathered) w1)
           in sent_requests w2 @ hiding env b' s (fst gathered) w2))"
proof -
  have quiet: "sent_requests (snd (wrap_errors env (throwP e) w1)) = sent_requests w1" for e :: exn and w1
    by (simp add: wrap_errors_def catchP_apply bindP_apply throwP_def control_expired_def Let_def)
  show ?thesis
    by (auto simp: generate_with_backend_def finally_cleanup close_requests hide_requests Let_def quiet hiding_def [of _ _ _ "[]"]
        split: prod.splits sum.splits)
qed

section \<open>The events of a stream\<close>

lemma merge_event_eq:
  "merge_event rt event (c, r) = (if c \<noteq> [] then c else extract_conversation_id event, walk rt event r)"
  by (simp add: merge_event_def references_flat walk_collect(1) collect_def uniq.add_of_add)

lemma merge_events_eq:
  "fold (merge_event rt) events (c, r) = (if c \<noteq> [] then c else conversation_id_items events, walk_items rt events r)"
  by (induction events arbitrary: c r) (simp_all add: merge_event_eq Let_def)

text \<open>
  C16. Reading a stream event by event finds what reading it as one document would find: the first
  conversation that an event names, and every reference once, in document order.
\<close>

theorem events_add_up:
  "gather_events rt events = (extract_conversation_id (JList events), extract_references rt (JList events))"
  by (simp add: gather_events_def merge_events_eq extract_references_def no_references_def)

section \<open>The results of the workers\<close>

lemma length_updates [simp]: "length (fold (\<lambda>i xs. xs[i := h i]) is xs) = length xs"
  by (induction "is" arbitrary: xs) simp_all

lemma nth_updates:
  "j < length xs \<Longrightarrow> fold (\<lambda>i xs. xs[i := h i]) is xs ! j = (if j \<in> set is then h j else xs ! j)"
  by (induction "is" arbitrary: xs) auto

lemma place_results_eq:
  "place_results out is xs = (case List.find (\<lambda>i. isl (out i)) is of
     Some i \<Rightarrow> Inl (projl (out i))
   | None \<Rightarrow> Inr (fold (\<lambda>i xs. xs[i := Some (projr (out i))]) is xs))"
proof (induction "is" arbitrary: xs)
  case Nil
  then show ?case by simp
next
  case (Cons i "is")
  then show ?case by (cases "out i") (auto split: option.splits)
qed

lemma map_filter_Some: "List.map_filter id (map (\<lambda>i. Some (h i)) is) = map h is"
  by (simp add: List.map_filter_def comp_def)

lemma collect_results_eq:
  assumes "mset completed = mset [0..<n]"
  shows "collect_results outcome_of completed n = (case List.find (\<lambda>i. isl (outcome_of i)) completed of
     Some i \<Rightarrow> Inl (projl (outcome_of i))
   | None \<Rightarrow> Inr (map (\<lambda>i. projr (outcome_of i)) [0..<n]))"
proof -
  let ?fold = "fold (\<lambda>i xs. xs[i := Some (projr (outcome_of i))]) completed (replicate n None)"
  have completed: "set completed = set [0..<n]" by (rule mset_eq_setD [OF assms])
  have "?fold = map (\<lambda>i. Some (projr (outcome_of i))) [0..<n]"
  proof (rule nth_equalityI)
    fix j
    assume "j < length ?fold"
    then have j: "j < n" by simp
    then have "j \<in> set completed" by (simp add: completed)
    with j show "?fold ! j = map (\<lambda>i. Some (projr (outcome_of i))) [0..<n] ! j" by (simp add: nth_updates)
  qed simp
  then have "List.map_filter id ?fold = map (\<lambda>i. projr (outcome_of i)) [0..<n]" by (simp only: map_filter_Some)
  then show ?thesis
    by (cases "List.find (\<lambda>i. isl (outcome_of i)) completed") (simp_all add: collect_results_def place_results_eq)
qed

text \<open>
  C19. Whatever the order in which \<^verbatim>\<open>as_completed\<close> yields the workers, the results come in the order of their indices, one
  for each image asked for; if workers fail, the request fails with the exception of the failed one it yields first.
\<close>

theorem results_in_index_order:
  assumes "mset completed = mset [0..<n]"
  shows "collect_results outcome_of completed n = (case List.find (\<lambda>i. isl (outcome_of i)) completed of
     Some i \<Rightarrow> Inl (projl (outcome_of i))
   | None \<Rightarrow> Inr (map (\<lambda>i. projr (outcome_of i)) [0..<n]))"
  by (rule collect_results_eq [OF assms])

text \<open>Three workers, the second of which completes last.\<close>

lemma results_in_index_order_witness:
  "collect_results (\<lambda>i. Inr (JInt (int i))) [2, 0, 1] 3 = Inr [JInt 0, JInt 1, JInt 2]"
  using results_in_index_order [where completed = "[2, 0, 1]" and n = 3 and outcome_of = "\<lambda>i. Inr (JInt (int i))"] by (simp add: upt_rec)

end
