(* ===== verification/Main_Rpc.thy ===== *)
theory Main_Rpc
  imports Protocol_Request_Props
begin

text \<open>
  \<^verbatim>\<open>helper/main.py\<close>: length-prefixed JSON frames on standard input and output, the table of active
  requests, and the life of a request from its frame to its response. The frames are functions on
  bytes; the server is a step relation in which the reading thread and the workers interleave.
\<close>

section \<open>Frames\<close>

definition max_frame :: nat where
  "max_frame = 512 * 1024 * 1024"

text \<open>One frame from the front of the input, with the rest of the input; \<open>None\<close> at its end.\<close>

definition read_frame :: "runtime \<Rightarrow> bytes \<Rightarrow> json option res \<times> bytes" where
  "read_frame rt input =
     (let header = take 4 input; rest = drop 4 input
      in if header = [] then (Inr None, rest)
         else if length header \<noteq> 4 then (Inl (PyError EOFError (lit ''incomplete frame header'')), rest)
         else (let n = unpack_u32 header; payload = take n rest; rest' = drop n rest
           in if n \<le> 0 \<or> max_frame < n then (Inl (PyError ValueError (lit ''invalid frame length'')), rest)
              else if length payload \<noteq> n then (Inl (PyError EOFError (lit ''incomplete frame body'')), rest')
              else (case loads_bytes rt payload of
                  Inl e \<Rightarrow> (Inl e, rest')
                | Inr (JDict d) \<Rightarrow> (Inr (Some (JDict d)), rest')
                | Inr v \<Rightarrow> (Inl (PyError ValueError (lit ''frame must be object'')), rest'))))"

text \<open>The bytes \<^verbatim>\<open>write_frame\<close> puts on the output, or its exception before it writes any.\<close>

definition write_frame :: "runtime \<Rightarrow> json \<Rightarrow> bytes res" where
  "write_frame rt v =
     (let body = dumps rt compact_format v
      in bindR (or_raise rt UnicodeError body (utf8_encode body)) (\<lambda>payload.
         bindR (or_raise rt StructError body (pack_u32 (length payload))) (\<lambda>header.
           Inr (header @ payload))))"

text \<open>The loop that reads frames until the input ends; each round consumes input.\<close>

fun read_frames :: "(bytes \<Rightarrow> 'v option res \<times> bytes) \<Rightarrow> nat \<Rightarrow> bytes \<Rightarrow> 'v list res" where
  "read_frames next 0 input = Inr []"
| "read_frames next (Suc rounds) input =
     (case next input of
        (Inl e, rest) \<Rightarrow> Inl e
      | (Inr None, rest) \<Rightarrow> Inr []
      | (Inr (Some v), rest) \<Rightarrow> bindR (read_frames next rounds rest) (\<lambda>vs. Inr (v # vs)))"

section \<open>Responses\<close>

definition ok_response :: "int \<Rightarrow> json \<Rightarrow> json" where
  "ok_response request_id result =
     JDict [(lit ''id'', JInt request_id), (lit ''ok'', JBool True), (lit ''result'', result)]"

definition error_response :: "int \<Rightarrow> exn \<Rightarrow> json" where
  "error_response request_id e =
     JDict [(lit ''id'', JInt request_id), (lit ''ok'', JBool False),
       (lit ''error'', JDict
          [(lit ''code'', JStr (case exn_code e of None \<Rightarrow> lit ''helper_error'' | Some code \<Rightarrow> code)),
           (lit ''message'', JStr (exn_str e)),
           (lit ''http_status'', JInt (case exn_status e of None \<Rightarrow> 502 | Some status \<Rightarrow> status))])]"

definition unknown_method :: exn where
  "unknown_method = HelperError (lit ''unknown helper method'') 400 (lit ''unknown_method'')"

text \<open>
  The \<^verbatim>\<open>try\<close> of \<^verbatim>\<open>process_request\<close>: the response, for a given behaviour of \<^verbatim>\<open>handle_images\<close> on the payload.
\<close>

definition request_payload :: "(pystr \<times> json) list \<Rightarrow> json" where
  "request_payload request = py_or (dict_get (lit ''payload'') request) (JDict [])"

definition process_response :: "(json \<Rightarrow> json res) \<Rightarrow> (pystr \<times> json) list \<Rightarrow> int \<Rightarrow> json" where
  "process_response handle request request_id =
     (case (if dict_get (lit ''method'') request \<noteq> JStr (lit ''images'') then Inl unknown_method
            else handle (request_payload request)) of
        Inl e \<Rightarrow> error_response request_id e
      | Inr result \<Rightarrow> ok_response request_id result)"

section \<open>The server\<close>

text \<open>\<^verbatim>\<open>int(request.get("id") or 0)\<close>, and the target of a cancellation.\<close>

definition frame_id :: "runtime \<Rightarrow> (pystr \<times> json) list \<Rightarrow> int res" where
  "frame_id rt request = py_int rt (py_or (dict_get (lit ''id'') request) (JInt 0))"

definition cancel_target :: "runtime \<Rightarrow> (pystr \<times> json) list \<Rightarrow> int res" where
  "cancel_target rt request = (case request_payload request of
     JDict d \<Rightarrow> py_int rt (py_or (dict_get (lit ''request_id'') d) (JInt 0))
   | v \<Rightarrow> Inl (py_exn rt AttributeError (py_str rt v)))"

text \<open>
  \<^verbatim>\<open>float(payload.get("timeout_seconds") or 30)\<close>; \<open>of_text\<close> is \<^verbatim>\<open>float\<close> of a string.
\<close>

definition request_timeout :: "runtime \<Rightarrow> (pystr \<Rightarrow> pyfloat option) \<Rightarrow> (pystr \<times> json) list \<Rightarrow> pyfloat res" where
  "request_timeout rt of_text request = (case request_payload request of
     JDict d \<Rightarrow>
       (let v = py_or (dict_get (lit ''timeout_seconds'') d) (JInt 30)
        in case v of
             JInt i \<Rightarrow> if 2 ^ 1024 - 2 ^ 970 \<le> \<bar>i\<bar> then Inl (py_exn rt OverflowError (show_int i))
               else Inr (Fin (rat_of_int i))
           | JBool b \<Rightarrow> Inr (Fin (if b then 1 else 0))
           | JFloat f \<Rightarrow> Inr f
           | JStr s \<Rightarrow> or_raise rt ValueError s (of_text s)
           | _ \<Rightarrow> Inl (py_exn rt TypeError (py_str rt v)))
   | v \<Rightarrow> Inl (py_exn rt AttributeError (py_str rt v)))"

text \<open>
  A control object is known by its number in \<open>controls\<close>, which the job created with it has too.
  A job is submitted (queued or running), has its response computed and its table entry removed, is
  finished, or was dropped from the queue by the shutdown; it keeps the number of its request.
\<close>

datatype job =
    Submitted "(pystr \<times> json) list" int
  | Answered int json
  | Finished int
  | Dropped int

fun job_number :: "job \<Rightarrow> int" where
  "job_number (Submitted request i) = i"
| "job_number (Answered i response) = i"
| "job_number (Finished i) = i"
| "job_number (Dropped i) = i"

record rpc =
  active_controls :: "int \<rightharpoonup> nat"
  controls :: "nat \<Rightarrow> control"
  jobs :: "nat \<Rightarrow> job option"
  next_control :: nat
  sent :: "bytes list"
  stopped :: bool

definition emit :: "runtime \<Rightarrow> json \<Rightarrow> rpc \<Rightarrow> rpc" where
  "emit rt v s = (case write_frame rt v of Inl e \<Rightarrow> s | Inr bs \<Rightarrow> s\<lparr>sent := sent s @ [bs]\<rparr>)"

definition accept_request :: "(pystr \<times> json) list \<Rightarrow> int \<Rightarrow> time \<Rightarrow> time \<Rightarrow> rpc \<Rightarrow> rpc" where
  "accept_request request request_id t timeout_seconds s =
     (let c = next_control s
      in s\<lparr>active_controls := (active_controls s)(request_id \<mapsto> c),
           controls := (controls s)(c := new_control t timeout_seconds),
           jobs := (jobs s)(c \<mapsto> Submitted request request_id),
           next_control := Suc c\<rparr>)"

text \<open>\<^verbatim>\<open>cancel_request\<close>: the response says whether there was a request to cancel.\<close>

definition cancel_response :: "int \<Rightarrow> bool \<Rightarrow> json" where
  "cancel_response request_id found =
     ok_response request_id (JDict [(lit ''cancelled'', JBool found)])"

definition cancel_active :: "int \<Rightarrow> rpc \<Rightarrow> rpc" where
  "cancel_active target s = (case active_controls s target of
     None \<Rightarrow> s
   | Some c \<Rightarrow> s\<lparr>controls := (controls s)(c := cancel (controls s c))\<rparr>)"

definition cancel_request :: "runtime \<Rightarrow> (pystr \<times> json) list \<Rightarrow> rpc \<Rightarrow> unit res \<times> rpc" where
  "cancel_request rt request s =
     (case bindR (frame_id rt request) (\<lambda>i. bindR (cancel_target rt request) (\<lambda>target. Inr (i, target))) of
        Inl e \<Rightarrow> (Inl e, s)
      | Inr (request_id, target) \<Rightarrow>
          (let response = cancel_response request_id (active_controls s target \<noteq> None)
           in case write_frame rt response of
                Inl e \<Rightarrow> (Inl e, cancel_active target s)
              | Inr bs \<Rightarrow> (Inr (), emit rt response (cancel_active target s))))"

text \<open>The \<^verbatim>\<open>finally\<close> of \<^verbatim>\<open>process_request\<close>: the entry goes only if it is this request's own control.\<close>

definition remove_active :: "int \<Rightarrow> nat \<Rightarrow> rpc \<Rightarrow> rpc" where
  "remove_active request_id c s =
     (if active_controls s request_id = Some c
      then s\<lparr>active_controls := (active_controls s)(request_id := None)\<rparr> else s)"

definition answer_job :: "(json \<Rightarrow> json res) \<Rightarrow> nat \<Rightarrow> (pystr \<times> json) list \<Rightarrow> int \<Rightarrow> rpc \<Rightarrow> rpc" where
  "answer_job handle c request request_id s =
     (let s' = remove_active request_id c s
      in s'\<lparr>jobs := (jobs s')(c \<mapsto> Answered request_id (process_response handle request request_id))\<rparr>)"

definition finish_job :: "runtime \<Rightarrow> nat \<Rightarrow> int \<Rightarrow> json \<Rightarrow> rpc \<Rightarrow> rpc" where
  "finish_job rt c request_id response s =
     (let s' = emit rt response s in s'\<lparr>jobs := (jobs s')(c \<mapsto> Finished request_id)\<rparr>)"

text \<open>The \<^verbatim>\<open>finally\<close> of \<^verbatim>\<open>serve_stdio\<close>: every active request is cancelled.\<close>

definition shut_down :: "rpc \<Rightarrow> rpc" where
  "shut_down s = s\<lparr>stopped := True,
     controls := (\<lambda>c. if c \<in> ran (active_controls s) then cancel (controls s c) else controls s c)\<rparr>"

text \<open>
  The reading thread handles a frame or, at the end of the input or on an exception, shuts down; a
  worker answers with any behaviour of the handler, then writes; queued jobs are dropped by the
  shutdown.
\<close>

definition is_cancel :: "(pystr \<times> json) list \<Rightarrow> bool" where
  "is_cancel request \<longleftrightarrow> dict_get (lit ''method'') request = JStr (lit ''cancel'')"

inductive rpc_step :: "runtime \<Rightarrow> rpc \<Rightarrow> rpc \<Rightarrow> bool" for rt :: runtime where
  cancel_frame: "\<not> stopped s \<Longrightarrow> is_cancel request \<Longrightarrow> cancel_request rt request s = (Inr (), s') \<Longrightarrow>
    rpc_step rt s s'"
| cancel_raises: "\<not> stopped s \<Longrightarrow> is_cancel request \<Longrightarrow> cancel_request rt request s = (Inl e, s') \<Longrightarrow>
    rpc_step rt s (shut_down s')"
| request_frame: "\<not> stopped s \<Longrightarrow> \<not> is_cancel request \<Longrightarrow>
    request_timeout rt of_text request = Inr (Fin timeout_seconds) \<Longrightarrow> frame_id rt request = Inr request_id \<Longrightarrow>
    rpc_step rt s (accept_request request request_id t timeout_seconds s)"
| request_raises: "\<not> stopped s \<Longrightarrow> \<not> is_cancel request \<Longrightarrow>
    request_timeout rt of_text request = Inl e \<or> frame_id rt request = Inl e \<Longrightarrow> rpc_step rt s (shut_down s)"
| input_ends: "\<not> stopped s \<Longrightarrow> rpc_step rt s (shut_down s)"
| answer_request: "jobs s c = Some (Submitted request request_id) \<Longrightarrow>
    rpc_step rt s (answer_job handle c request request_id s)"
| write_response: "jobs s c = Some (Answered request_id response) \<Longrightarrow> rpc_step rt s (finish_job rt c request_id response s)"
| drop_job: "stopped s \<Longrightarrow> jobs s c = Some (Submitted request request_id) \<Longrightarrow>
    rpc_step rt s (s\<lparr>jobs := (jobs s)(c \<mapsto> Dropped request_id)\<rparr>)"

definition rpc_start :: rpc where
  "rpc_start = \<lparr>active_controls = Map.empty, controls = (\<lambda>c. new_control 0 0), jobs = (\<lambda>c. None), next_control = 0,
     sent = [], stopped = False\<rparr>"

inductive rpc_reachable :: "runtime \<Rightarrow> rpc \<Rightarrow> bool" for rt :: runtime where
  start: "rpc_reachable rt rpc_start"
| step: "rpc_reachable rt s \<Longrightarrow> rpc_step rt s t \<Longrightarrow> rpc_reachable rt t"

text \<open>\<^verbatim>\<open>main\<close> and \<^verbatim>\<open>helper_entry.py\<close>: without \<^verbatim>\<open>--stdio\<close> the process exits with status 2, with it the server runs.\<close>

definition main_status :: "bool \<Rightarrow> int \<Rightarrow> int" where
  "main_status stdio serve_status = (if stdio then serve_status else 2)"

end
