(* ===== verification/Main_Rpc_Props.thy ===== *)
theory Main_Rpc_Props
  imports Main_Rpc
begin

text \<open>
  What holds of the RPC server: frames survive the wire and truncated ones are detected, a
  cancellation reaches the newest running request of its number and no finished one, the shutdown
  cancels what is active, and every response names its request.
\<close>

section \<open>Framing as an interface\<close>

text \<open>
  A format of frames: \<open>put\<close> writes a value, \<open>take_one\<close> reads the first frame of an input. Whoever
  provides it promises that a frame is read back with the rest untouched, and that the end of the
  input is no frame; reading a whole stream follows.
\<close>

locale framing =
  fixes put :: "'v \<Rightarrow> bytes res"
    and take_one :: "bytes \<Rightarrow> 'v option res \<times> bytes"
    and valid :: "'v \<Rightarrow> bool"
  assumes take_put: "valid v \<Longrightarrow> put v = Inr bs \<Longrightarrow> take_one (bs @ rest) = (Inr (Some v), rest)"
    and take_end: "take_one [] = (Inr None, [])"
begin

lemma read_all_frames:
  assumes "list_all2 (\<lambda>v bs. valid v \<and> put v = Inr bs) vs bss" "length vs < rounds"
  shows "read_frames take_one rounds (concat bss) = Inr vs"
  using assms
proof (induction vs bss arbitrary: rounds rule: list_all2_induct)
  case Nil
  then show ?case by (cases rounds) (simp_all add: take_end)
next
  case (Cons v vs bs bss)
  then obtain r where "rounds = Suc r" "length vs < r" by (cases rounds) auto
  moreover have "take_one (bs @ concat bss) = (Inr (Some v), concat bss)"
    using Cons.hyps(1) take_put by blast
  ultimately show ?case using Cons.IH [of r] by simp
qed

end

definition frame_ok :: "json \<Rightarrow> bool" where
  "frame_ok v \<longleftrightarrow> plain v \<and> (\<exists>d. v = JDict d) \<and>
     (case utf8_encode (dumps example_runtime compact_format v) of None \<Rightarrow> False | Some bs \<Rightarrow> length bs \<le> max_frame)"

text \<open>The text of a value without floats does not depend on the runtime.\<close>

lemma dumps_plain:
  "plain v \<Longrightarrow> dumps rt fm v = dumps rt' fm v"
  "\<forall>x \<in> set xs. plain x \<Longrightarrow> dumps_items rt fm xs = dumps_items rt' fm xs"
  "\<forall>m \<in> set d. plain (snd m) \<Longrightarrow> dumps_members rt fm d = dumps_members rt' fm d"
  by (induction v and xs and d rule: dumps_dumps_items_dumps_members.induct) auto

lemma pack_u32_neq_Nil: "pack_u32 n = Some h \<Longrightarrow> h \<noteq> []"
  using pack_u32_length by fastforce

lemma write_frame_Inr:
  assumes "write_frame rt v = Inr bs"
  obtains header payload where "bs = header @ payload" "length header = 4"
    "utf8_encode (dumps rt compact_format v) = Some payload" "unpack_u32 header = length payload"
  using assms by (auto simp: write_frame_def Let_def res_simps pack_u32_length unpack_pack_u32)

lemma read_write_frame:
  assumes "frame_ok v" "write_frame rt v = Inr bs"
  shows "read_frame rt (bs @ rest) = (Inr (Some v), rest)"
proof -
  obtain d where d: "v = JDict d" and p: "plain v" using assms(1) by (auto simp: frame_ok_def)
  obtain header payload where b: "bs = header @ payload" "length header = 4"
    "utf8_encode (dumps rt compact_format v) = Some payload" "unpack_u32 header = length payload"
    by (rule write_frame_Inr [OF assms(2)])
  have n: "length payload \<le> max_frame"
    using assms(1) b(3) dumps_plain(1) [OF p, of rt compact_format example_runtime] by (simp add: frame_ok_def)
  have "payload \<noteq> []" using dumps_dict_nonempty b(3) d by blast
  moreover have "loads_bytes rt payload = Inr (JDict d)" using loads_bytes_dumps b(3) d p by simp
  moreover have "header \<noteq> []" using b(2) by auto
  ultimately show ?thesis using b n d by (simp add: read_frame_def Let_def)
qed

interpretation rpc_frames: framing "write_frame rt" "read_frame rt" frame_ok
  by unfold_locales (erule (1) read_write_frame, simp add: read_frame_def)

section \<open>Invariants of the server\<close>

text \<open>
  An entry of the table belongs to a request that has not been answered (or that the shutdown
  dropped) and is the newest one of its number, and every such request has its entry. Jobs are
  counted in the order of their frames.
\<close>

definition newest :: "rpc \<Rightarrow> int \<Rightarrow> nat \<Rightarrow> bool" where
  "newest s i c \<longleftrightarrow> (\<forall>c' q. jobs s c' = Some q \<and> job_number q = i \<longrightarrow> c' \<le> c)"

definition entry_ok :: "rpc \<Rightarrow> int \<Rightarrow> nat \<Rightarrow> bool" where
  "entry_ok s i c \<longleftrightarrow>
     ((\<exists>request. jobs s c = Some (Submitted request i)) \<or> stopped s \<and> jobs s c = Some (Dropped i)) \<and> newest s i c"

definition table_inv :: "rpc \<Rightarrow> bool" where
  "table_inv s \<longleftrightarrow> (\<forall>i c. active_controls s i = Some c \<longrightarrow> entry_ok s i c) \<and>
     (\<forall>i c request. jobs s c = Some (Submitted request i) \<and> newest s i c \<longrightarrow> active_controls s i = Some c) \<and>
     (\<forall>c. next_control s \<le> c \<longrightarrow> jobs s c = None)"

definition stop_inv :: "rpc \<Rightarrow> bool" where
  "stop_inv s \<longleftrightarrow> (stopped s \<longrightarrow> (\<forall>i c. active_controls s i = Some c \<longrightarrow> cancelled (controls s c)))"

definition response_id :: "json \<Rightarrow> json" where
  "response_id v = (case v of JDict d \<Rightarrow> dict_get (lit ''id'') d | _ \<Rightarrow> JNull)"

definition answer_inv :: "rpc \<Rightarrow> bool" where
  "answer_inv s \<longleftrightarrow> (\<forall>c i response. jobs s c = Some (Answered i response) \<longrightarrow> response_id response = JInt i)"

lemma emit_frame [simp]:
  "active_controls (emit rt v s) = active_controls s" "controls (emit rt v s) = controls s"
  "jobs (emit rt v s) = jobs s" "next_control (emit rt v s) = next_control s" "stopped (emit rt v s) = stopped s"
  by (simp_all add: emit_def split: sum.splits)

lemma cancel_active_frame [simp]:
  "active_controls (cancel_active t s) = active_controls s" "jobs (cancel_active t s) = jobs s"
  "next_control (cancel_active t s) = next_control s" "stopped (cancel_active t s) = stopped s"
  by (simp_all add: cancel_active_def split: option.splits)

lemma shut_down_frame [simp]:
  "active_controls (shut_down s) = active_controls s" "jobs (shut_down s) = jobs s"
  "next_control (shut_down s) = next_control s" "stopped (shut_down s)"
  by (simp_all add: shut_down_def)

lemma cancel_request_frame:
  assumes "cancel_request rt request s = (r, s')"
  shows "active_controls s' = active_controls s \<and> jobs s' = jobs s \<and> next_control s' = next_control s \<and>
    stopped s' = stopped s"
  using assms by (auto simp: cancel_request_def Let_def split: sum.splits prod.splits)

lemma newest_frame: "jobs t = jobs s \<Longrightarrow> newest t i c = newest s i c"
  by (simp add: newest_def)

lemma newest_same_number:
  "jobs s d = Some q \<Longrightarrow> job_number q' = job_number q \<Longrightarrow> newest (s\<lparr>jobs := (jobs s)(d \<mapsto> q')\<rparr>) i c = newest s i c"
  unfolding newest_def by (auto split: if_splits)

lemma table_inv_frame:
  "table_inv s \<Longrightarrow> active_controls t = active_controls s \<Longrightarrow> jobs t = jobs s \<Longrightarrow> next_control t = next_control s \<Longrightarrow>
   (stopped s \<Longrightarrow> stopped t) \<Longrightarrow> table_inv t"
proof -
  assume inv: "table_inv s" and t: "active_controls t = active_controls s" "jobs t = jobs s" "next_control t = next_control s"
    and stop: "stopped s \<Longrightarrow> stopped t"
  have n: "newest t = newest s" by (intro ext newest_frame t(2))
  have "entry_ok s i c \<Longrightarrow> entry_ok t i c" for i c using stop by (auto simp: entry_ok_def n t)
  with inv show ?thesis unfolding table_inv_def n t by blast
qed

lemma table_inv_entry: "table_inv s \<Longrightarrow> active_controls s i = Some c \<Longrightarrow> entry_ok s i c"
  by (simp add: table_inv_def)

lemma table_inv_complete:
  "table_inv s \<Longrightarrow> jobs s c = Some (Submitted request i) \<Longrightarrow> newest s i c \<Longrightarrow> active_controls s i = Some c"
  by (simp add: table_inv_def)

lemma process_response_id [simp]: "response_id (process_response handle request i) = JInt i"
  by (simp add: process_response_def response_id_def ok_response_def error_response_def dict_get_def
      split: sum.splits)

text \<open>A new request is the newest one of its number, and changes nothing for the other numbers.\<close>

lemma accept_frame:
  "active_controls (accept_request request i t u s) = (active_controls s)(i \<mapsto> next_control s)"
  "jobs (accept_request request i t u s) = (jobs s)(next_control s \<mapsto> Submitted request i)"
  "next_control (accept_request request i t u s) = Suc (next_control s)"
  "stopped (accept_request request i t u s) = stopped s"
  by (simp_all add: accept_request_def Let_def)

lemma accept_newest:
  fixes request :: "(pystr \<times> json) list" and i :: int and clk seconds :: time
  assumes new: "\<forall>c. next_control s \<le> c \<longrightarrow> jobs s c = None"
  defines "n \<equiv> next_control s" and "t \<equiv> accept_request request i clk seconds s"
  shows "newest t i n" and "newest t i c \<Longrightarrow> jobs t c = Some q \<Longrightarrow> c = n"
    and "j \<noteq> i \<Longrightarrow> newest t j d = newest s j d"
proof -
  have old: "c < n" if "jobs s c = Some q" for c q
    using new that unfolding n_def by (metis linorder_not_le option.distinct(1))
  have le: "c \<le> n" if "jobs t c = Some q" for c q
    using that old [of c q] by (cases "c = n") (auto simp: t_def n_def accept_frame)
  then show "newest t i n" unfolding newest_def by blast
  have n: "jobs t n = Some (Submitted request i)" by (simp add: t_def n_def accept_frame)
  show "c = n" if "newest t i c" "jobs t c = Some q"
  proof -
    have "n \<le> c" using that(1) n unfolding newest_def by (metis job_number.simps(1))
    with le [OF that(2)] show ?thesis by simp
  qed
  show "newest t j d = newest s j d" if "j \<noteq> i"
  proof -
    have "(jobs t c = Some q \<and> job_number q = j) = (jobs s c = Some q \<and> job_number q = j)" for c q
      using that new by (auto simp: t_def n_def accept_frame)
    then show ?thesis by (simp only: newest_def)
  qed
qed

lemma table_inv_accept:
  assumes inv: "table_inv s" and ns: "\<not> stopped s"
  shows "table_inv (accept_request request i clk seconds s)"
proof -
  let ?s = "accept_request request i clk seconds s"
  let ?n = "next_control s"
  have new: "\<forall>c. ?n \<le> c \<longrightarrow> jobs s c = None" using inv by (simp add: table_inv_def)
  note s = accept_frame [where request = request and i = i and t = clk and u = seconds and s = s]
    and newest = accept_newest [OF new, where request = request and i = i and clk = clk and seconds = seconds]
  have "entry_ok ?s j c" if a: "active_controls ?s j = Some c" for j c
  proof (cases "j = i")
    case True
    with a newest(1) show ?thesis by (simp add: entry_ok_def s(1,2))
  next
    case False
    with a have "entry_ok s j c" by (intro table_inv_entry [OF inv]) (simp add: s(1))
    with ns obtain q where q: "jobs s c = Some (Submitted q j)" "newest s j c" by (auto simp: entry_ok_def)
    then have "jobs ?s c = Some (Submitted q j)" using new by (auto simp: s(2))
    then show ?thesis using newest(3) [OF False] q(2) by (simp add: entry_ok_def)
  qed
  moreover have "active_controls ?s j = Some c" if c: "jobs ?s c = Some (Submitted q j)" "newest ?s j c" for j c q
  proof (cases "j = i")
    case True
    then have "c = ?n" using newest(2) c by blast
    then show ?thesis using True by (simp add: s(1))
  next
    case False
    then have "jobs s c = Some (Submitted q j)" using c(1) by (auto simp: s(2) split: if_splits)
    then have "active_controls s j = Some c" using table_inv_complete [OF inv] newest(3) [OF False] c(2) by blast
    then show ?thesis using False by (simp add: s(1))
  qed
  moreover have "jobs ?s c = None" if "next_control ?s \<le> c" for c
    using new that by (simp add: s)
  ultimately show ?thesis unfolding table_inv_def by blast
qed

text \<open>A job that moves on keeps its number, so it loses its entry at most.\<close>

lemma table_inv_move:
  assumes inv: "table_inv s" and q: "jobs s c = Some q" "job_number q' = job_number q" "\<forall>r j. q' \<noteq> Submitted r j"
    and t: "jobs t = (jobs s)(c \<mapsto> q')" "next_control t = next_control s" "stopped t = stopped s"
    and kept: "\<And>j d. active_controls t j = Some d \<Longrightarrow> active_controls s j = Some d \<and>
      (d \<noteq> c \<or> stopped s \<and> q' = Dropped j \<or> (\<forall>r j. q \<noteq> Submitted r j) \<and> (\<forall>j. q \<noteq> Dropped j))"
    and others: "\<And>j d. d \<noteq> c \<Longrightarrow> active_controls s j = Some d \<Longrightarrow> active_controls t j = Some d"
  shows "table_inv t"
proof -
  have newest: "newest t j d = newest s j d" for j d
    using newest_same_number [OF q(1,2)] newest_frame [of t "s\<lparr>jobs := (jobs s)(c \<mapsto> q')\<rparr>"] t(1) by simp
  have "entry_ok t j d" if a: "active_controls t j = Some d" for j d
  proof -
    have e: "entry_ok s j d" using kept [OF a] inv by (simp add: table_inv_def)
    show ?thesis
    proof (cases "d = c")
      case True
      with kept [OF a] e q(1) have "stopped s" "q' = Dropped j" by (auto simp: entry_ok_def)
      with e True show ?thesis by (simp add: entry_ok_def newest t)
    next
      case False
      with e show ?thesis by (auto simp: entry_ok_def newest t)
    qed
  qed
  moreover have "active_controls t j = Some d" if "jobs t d = Some (Submitted r j)" "newest t j d" for j d r
  proof -
    have "d \<noteq> c" using that(1) q(3) t(1) by auto
    moreover from this have "active_controls s j = Some d"
      using that inv newest t(1) by (auto simp: table_inv_def)
    ultimately show ?thesis by (rule others)
  qed
  moreover have "jobs t d = None" if "next_control t \<le> d" for d
    using inv that q(1) t by (auto simp: table_inv_def)
  ultimately show ?thesis by (simp add: table_inv_def)
qed

lemma table_inv_answer:
  assumes "table_inv s" "jobs s c = Some (Submitted request i)"
  shows "table_inv (answer_job handle c request i s)"
proof (rule table_inv_move [OF assms, where q' = "Answered i (process_response handle request i)"])
  fix j d
  assume a: "active_controls (answer_job handle c request i s) j = Some d"
  then have d: "active_controls s j = Some d" "j = i \<longrightarrow> d \<noteq> c"
    by (auto simp: answer_job_def remove_active_def Let_def split: if_splits)
  moreover have "d \<noteq> c"
  proof
    assume "d = c"
    with table_inv_entry [OF assms(1) d(1)] assms(2) have "j = i" by (simp add: entry_ok_def)
    with d(2) \<open>d = c\<close> show False by simp
  qed
  ultimately show "active_controls s j = Some d \<and> (d \<noteq> c \<or> stopped s \<and> Answered i (process_response handle request i) = Dropped j \<or>
      (\<forall>r j. Submitted request i \<noteq> Submitted r j) \<and> (\<forall>j. Submitted request i \<noteq> Dropped j))" by simp
qed (auto simp: answer_job_def remove_active_def Let_def)

lemma table_inv_finish:
  assumes "table_inv s" "jobs s c = Some (Answered i response)"
  shows "table_inv (finish_job rt c i response s)"
  by (rule table_inv_move [OF assms, where q' = "Finished i"]) (simp_all add: finish_job_def Let_def)

lemma table_inv_drop:
  assumes "table_inv s" "jobs s c = Some (Submitted request i)" "stopped s"
  shows "table_inv (s\<lparr>jobs := (jobs s)(c \<mapsto> Dropped i)\<rparr>)"
proof (rule table_inv_move [OF assms(1,2), where q' = "Dropped i"])
  fix j d
  assume "active_controls (s\<lparr>jobs := (jobs s)(c \<mapsto> Dropped i)\<rparr>) j = Some d"
  then have a: "active_controls s j = Some d" by simp
  moreover have "j = i" if "d = c" using table_inv_entry [OF assms(1) a] that assms(2) by (simp add: entry_ok_def)
  ultimately show "active_controls s j = Some d \<and> (d \<noteq> c \<or> stopped s \<and> Dropped i = Dropped j \<or>
      (\<forall>r j. Submitted request i \<noteq> Submitted r j) \<and> (\<forall>j. Submitted request i \<noteq> Dropped j))"
    using assms(3) by auto
qed simp_all

lemma table_inv_step: "rpc_step rt s t \<Longrightarrow> table_inv s \<Longrightarrow> table_inv t"
proof (induction rule: rpc_step.induct)
  case (cancel_frame s request s')
  show ?case by (rule table_inv_frame [OF cancel_frame(4)])
    (use cancel_request_frame [OF cancel_frame(3)] in simp_all)
next
  case (cancel_raises s request e s')
  show ?case by (rule table_inv_frame [OF cancel_raises(4)])
    (use cancel_request_frame [OF cancel_raises(3)] in simp_all)
next
  case (request_frame s request of_text timeout_seconds request_id t)
  show ?case by (rule table_inv_accept [OF request_frame(5,1)])
next
  case (request_raises s request of_text e)
  show ?case by (rule table_inv_frame [OF request_raises(4)]) simp_all
next
  case (input_ends s)
  show ?case by (rule table_inv_frame [OF input_ends(2)]) simp_all
next
  case (answer_request s c request request_id handle)
  show ?case by (rule table_inv_answer [OF answer_request(2,1)])
next
  case (write_response s c request_id response)
  show ?case by (rule table_inv_finish [OF write_response(2,1)])
next
  case (drop_job s c request request_id)
  show ?case by (rule table_inv_drop [OF drop_job(3,2,1)])
qed

lemma stop_inv_shut_down: "stop_inv (shut_down s)"
  by (auto simp: stop_inv_def shut_down_def cancel_def ran_def)

lemma stop_inv_running: "\<not> stopped s \<Longrightarrow> stop_inv s"
  by (simp add: stop_inv_def)

lemma stop_inv_answer: "stop_inv s \<Longrightarrow> stop_inv (answer_job handle c request i s)"
  unfolding stop_inv_def answer_job_def remove_active_def Let_def by simp

lemma stop_inv_frame:
  "stop_inv s \<Longrightarrow> active_controls t = active_controls s \<Longrightarrow> controls t = controls s \<Longrightarrow> stopped t = stopped s \<Longrightarrow> stop_inv t"
  by (simp add: stop_inv_def)

lemma stop_inv_step: "rpc_step rt s t \<Longrightarrow> stop_inv s \<Longrightarrow> stop_inv t"
proof (induction rule: rpc_step.induct)
  case (cancel_frame s request s')
  then show ?case using cancel_request_frame [OF cancel_frame(3)] by (intro stop_inv_running) simp
next
  case (cancel_raises s request e s')
  show ?case by (rule stop_inv_shut_down)
next
  case (request_frame s request of_text timeout_seconds request_id t)
  then show ?case by (intro stop_inv_running) (simp add: accept_request_def Let_def)
next
  case (request_raises s request of_text e)
  show ?case by (rule stop_inv_shut_down)
next
  case (input_ends s)
  show ?case by (rule stop_inv_shut_down)
next
  case (answer_request s c request request_id handle)
  show ?case by (rule stop_inv_answer [OF answer_request(2)])
next
  case (write_response s c request_id response)
  show ?case by (rule stop_inv_frame [OF write_response(2)]) (simp_all add: finish_job_def Let_def)
next
  case (drop_job s c request request_id)
  show ?case by (rule stop_inv_frame [OF drop_job(3)]) simp_all
qed

lemma answer_inv_step: "rpc_step rt s t \<Longrightarrow> answer_inv s \<Longrightarrow> answer_inv t"
proof (induction rule: rpc_step.induct)
  case (cancel_frame s request s')
  with cancel_request_frame [OF cancel_frame(3)] show ?case by (simp add: answer_inv_def)
next
  case (cancel_raises s request e s')
  with cancel_request_frame [OF cancel_raises(3)] show ?case by (simp add: answer_inv_def)
next
  case (answer_request s c request request_id handle)
  then show ?case by (auto simp: answer_inv_def answer_job_def remove_active_def Let_def split: if_splits)
qed (auto simp: answer_inv_def accept_request_def finish_job_def Let_def)

lemma rpc_invs: "rpc_reachable rt s \<Longrightarrow> table_inv s \<and> stop_inv s \<and> answer_inv s"
proof (induction rule: rpc_reachable.induct)
  case start
  then show ?case by (simp add: rpc_start_def table_inv_def stop_inv_def answer_inv_def)
next
  case (step s t)
  then show ?case by (blast intro: table_inv_step stop_inv_step answer_inv_step)
qed

section \<open>Properties\<close>

text \<open>
  C9. Frames survive the wire: any sequence of JSON objects within the size limit, written one after the other by
  \<^verbatim>\<open>write_frame\<close>, is read back by the loop of \<^verbatim>\<open>read_frame\<close> as exactly that sequence, which then sees the
  end of the input.
\<close>

theorem frame_stream_roundtrip:
  assumes "list_all2 (\<lambda>v bs. frame_ok v \<and> write_frame rt v = Inr bs) vs bss"
  shows "read_frames (read_frame rt) (Suc (length vs)) (concat bss) = Inr vs"
  by (rule rpc_frames.read_all_frames [OF assms]) simp

definition example_frame :: json where
  "example_frame = JDict [(lit ''id'', JInt 7)]"

lemma example_frame_text: "dumps rt compact_format example_frame = lit ''{\"id\":7}''"
  by (simp add: example_frame_def compact_format_def quoted_def lit_def escape_cp_def show_int_def show_nat.simps)

lemma example_frame_utf8: "utf8_encode (lit ''{\"id\":7}'') = Some (to_bytes (lit ''{\"id\":7}''))"
  by (rule utf8_encode_ascii) (simp add: lit_def)

lemma example_frame_ok: "frame_ok example_frame"
  unfolding frame_ok_def example_frame_text example_frame_utf8
  by (simp add: example_frame_def int_ok_def show_nat.simps max_frame_def)

lemma example_frame_bytes:
  "write_frame rt example_frame = Inr (to_bytes [0, 0, 0, 8] @ to_bytes (lit ''{\"id\":7}''))"
  by (simp add: write_frame_def example_frame_text example_frame_utf8 pack_u32_def)

theorem frame_stream_roundtrip_witness:
  "read_frames (read_frame example_runtime) 3
     (concat (replicate 2 (to_bytes [0, 0, 0, 8] @ to_bytes (lit ''{\"id\":7}'')))) =
   Inr [example_frame, example_frame]"
  using frame_stream_roundtrip [of example_runtime "[example_frame, example_frame]"
      "replicate 2 (to_bytes [0, 0, 0, 8] @ to_bytes (lit ''{\"id\":7}''))"]
    example_frame_ok example_frame_bytes [of example_runtime]
  by (simp add: numeral_2_eq_2 numeral_3_eq_3)

text \<open>
  C26. A frame cut short is never taken for another one: reading any proper, non-empty prefix of a written frame
  raises \<^verbatim>\<open>EOFError\<close>.
\<close>

theorem truncated_frame_is_eof:
  assumes "frame_ok v" "write_frame rt v = Inr bs" "0 < k" "k < length bs"
  shows "fst (read_frame rt (take k bs)) \<in>
    {Inl (PyError EOFError (lit ''incomplete frame header'')), Inl (PyError EOFError (lit ''incomplete frame body''))}"
proof -
  obtain d where d: "v = JDict d" and p: "plain v" using assms(1) by (auto simp: frame_ok_def)
  obtain header payload where b: "bs = header @ payload" "length header = 4"
    "utf8_encode (dumps rt compact_format v) = Some payload" "unpack_u32 header = length payload"
    by (rule write_frame_Inr [OF assms(2)])
  have n: "length payload \<le> max_frame" "0 < length payload"
    using assms(1) b(3) d dumps_plain(1) [OF p, of rt compact_format example_runtime] dumps_dict_nonempty
    by (auto simp: frame_ok_def)
  show ?thesis
  proof (cases "k < 4")
    case True
    with assms(3,4) b show ?thesis by (auto simp: read_frame_def Let_def)
  next
    case False
    then have "take k bs = header @ take (k - 4) payload" using b by simp
    moreover have "length (take (k - 4) payload) < length payload" using assms(4) False b by auto
    moreover have "header \<noteq> []" using b(2) by auto
    ultimately show ?thesis using b n by (auto simp: read_frame_def Let_def)
  qed
qed

theorem truncated_frame_is_eof_witness:
  "fst (read_frame example_runtime (take 3 (to_bytes [0, 0, 0, 8] @ to_bytes (lit ''{\"id\":7}'')))) \<in>
    {Inl (PyError EOFError (lit ''incomplete frame header'')), Inl (PyError EOFError (lit ''incomplete frame body''))}"
  by (rule truncated_frame_is_eof [OF example_frame_ok example_frame_bytes]) simp_all

text \<open>
  C10. A cancellation finds the right request: in every reachable state of a running server the control that a number
  leads to is that of an unanswered request with that number after which no other one with it has come, and every
  such request can be cancelled under its number, even when numbers are reused and requests finish in any order.
\<close>

theorem cancel_finds_running_request:
  assumes "rpc_reachable rt s" "\<not> stopped s"
  shows "active_controls s target = Some c \<longleftrightarrow>
    (\<exists>request. jobs s c = Some (Submitted request target)) \<and> newest s target c"
proof -
  have inv: "table_inv s" using rpc_invs [OF assms(1)] by simp
  from table_inv_entry [OF inv, of target c] table_inv_complete [OF inv, of c _ target] assms(2) show ?thesis
    unfolding entry_ok_def by blast
qed

lemma cancel_active_cancels: "active_controls s target = Some c \<Longrightarrow> cancelled (controls (cancel_active target s) c)"
  by (simp add: cancel_active_def cancel_def)

definition rpc_request :: "(pystr \<times> json) list" where
  "rpc_request = [(lit ''id'', JInt 5), (lit ''method'', JStr (lit ''images''))]"

definition rpc_busy :: rpc where
  "rpc_busy = accept_request rpc_request 5 0 30 (accept_request rpc_request 5 0 30 rpc_start)"

lemma rpc_busy_reachable: "rpc_reachable example_runtime rpc_busy"
proof -
  have m: "\<not> is_cancel rpc_request" by (simp add: is_cancel_def rpc_request_def dict_get_def)
  have t: "request_timeout example_runtime (\<lambda>x. None) rpc_request = Inr (Fin 30)"
    by (simp add: request_timeout_def request_payload_def rpc_request_def dict_get_def py_or_def)
  have i: "frame_id example_runtime rpc_request = Inr 5"
    by (simp add: frame_id_def rpc_request_def dict_get_def py_or_def py_int_def)
  have one: "rpc_reachable example_runtime (accept_request rpc_request 5 0 30 rpc_start)"
    by (rule rpc_reachable.step [OF rpc_reachable.start rpc_step.request_frame [OF _ m t i]]) (simp add: rpc_start_def)
  show ?thesis
    unfolding rpc_busy_def
    by (rule rpc_reachable.step [OF one rpc_step.request_frame [OF _ m t i]])
      (simp add: rpc_start_def accept_request_def Let_def)
qed

theorem cancel_finds_running_request_witness:
  "active_controls rpc_busy 5 = Some 1 \<longleftrightarrow>
    (\<exists>request. jobs rpc_busy 1 = Some (Submitted request 5)) \<and> newest rpc_busy 5 1"
  by (rule cancel_finds_running_request [OF rpc_busy_reachable])
    (simp add: rpc_busy_def rpc_start_def accept_request_def Let_def)

text \<open>
  C25. No request outlives the server unnoticed: once the reading loop has ended, by the end of the input or by an
  exception, the control of every request still in the table is cancelled, and stays so.
\<close>

theorem shutdown_cancels_active_requests:
  assumes "rpc_reachable rt s" "stopped s" "active_controls s i = Some c"
  shows "cancelled (controls s c)"
  using rpc_invs [OF assms(1)] assms(2,3) by (simp add: stop_inv_def)

theorem shutdown_cancels_active_requests_witness: "cancelled (controls (shut_down rpc_busy) 1)"
proof (rule shutdown_cancels_active_requests)
  have "\<not> stopped rpc_busy" by (simp add: rpc_busy_def rpc_start_def accept_request_def Let_def)
  then show "rpc_reachable example_runtime (shut_down rpc_busy)"
    by (rule rpc_reachable.step [OF rpc_busy_reachable rpc_step.input_ends])
  show "active_controls (shut_down rpc_busy) 5 = Some 1"
    by (simp add: rpc_busy_def rpc_start_def accept_request_def Let_def)
qed simp

text \<open>
  Every response names its request, whatever the handler did, and is either a result or an error with the code,
  the message and the status of the exception; built-in exceptions become 502 \<^verbatim>\<open>helper_error\<close>.
\<close>

lemma response_of_request:
  "process_response handle request i =
     (if dict_get (lit ''method'') request \<noteq> JStr (lit ''images'') then error_response i unknown_method
      else (case handle (request_payload request) of
          Inr result \<Rightarrow> ok_response i result
        | Inl (PyError k m) \<Rightarrow>
            JDict [(lit ''id'', JInt i), (lit ''ok'', JBool False), (lit ''error'', JDict
              [(lit ''code'', JStr (lit ''helper_error'')), (lit ''message'', JStr m), (lit ''http_status'', JInt 502)])]
        | Inl (HelperError m status code) \<Rightarrow>
            JDict [(lit ''id'', JInt i), (lit ''ok'', JBool False), (lit ''error'', JDict
              [(lit ''code'', JStr code), (lit ''message'', JStr m), (lit ''http_status'', JInt status)])]
        | Inl (UpstreamError m status retry) \<Rightarrow>
            JDict [(lit ''id'', JInt i), (lit ''ok'', JBool False), (lit ''error'', JDict
              [(lit ''code'', JStr (lit ''upstream_error'')), (lit ''message'', JStr m), (lit ''http_status'', JInt status)])]))"
  by (auto simp: process_response_def error_response_def split: sum.splits exn.splits)

end
