(* ===== verification/Spec2Isabelle.thy ===== *)
theory Spec2Isabelle
  imports Generate_One_Serial Protocol_Generate_Props Main_Rpc_Props
begin

text \<open>
  Verification library of the CPA image-generation helper (\<^verbatim>\<open>src/helper/\<close>, \<^verbatim>\<open>src/helper_entry.py\<close>): a Python process
  that a Go plugin drives over its standard input and output. The plugin sends frames; the helper answers
  requests in the style of the OpenAI Images API by working the ChatGPT web site with the credentials that the
  frame lists.

  \<^bold>\<open>The program and its theories.\<close> A request passes through the parts below, and each part has a theory with its
  definitions, in the order of the code, and mostly one with its properties (\<open>_Props\<close>).

  \<^item> \<open>Py_Prelude\<close>, \<open>Py_Text\<close>, \<open>Py_Codec\<close>, \<open>Py_Json\<close>, \<open>Py_Json_Props\<close>: the part of Python the helper uses. Strings are lists of
    code points (\<open>pystr\<close>), bytes 8-bit words, floats rationals with the infinities and NaN (\<open>pyfloat\<close>), clocks
    rationals (\<open>time\<close>), exceptions values of \<open>exn\<close>; an expression that can raise returns a \<open>res\<close>, a program with
    effects is a \<open>prog\<close>. UTF-8, Base64 and \<^verbatim>\<open>json\<close> are executable functions with their round trips.
  \<^item> \<open>Helper_Errors\<close> (\<^verbatim>\<open>errors.py\<close>): the exception classes with their attributes, and the messages.
  \<^item> \<open>Request_Control\<close> (\<^verbatim>\<open>control.py\<close>): deadline, cancellation flag and registered sessions of a request; the methods
    as functions of the record \<open>control\<close>, and the race of \<^verbatim>\<open>cancel\<close> with the other threads as the step relation
    \<open>cancel_step\<close>, at the granularity of the lock.
  \<^item> \<open>Backend_Events\<close> (functions of \<^verbatim>\<open>backend.py\<close>): references, conversation ids and credential errors in JSON
    values, and the event stream \<^verbatim>\<open>iter_sse_json\<close>.
  \<^item> \<open>Credential_Pool\<close>, \<open>Generate_One\<close> (\<^verbatim>\<open>protocol.py\<close>): the module-level state (cursor, locks, cooldowns) as the record
    \<open>pool\<close>; one \<^verbatim>\<open>generate_one\<close> call as a record of its local variables and a program counter, run by \<open>gen_step\<close> from one
    shared access to the next; all worker threads of the process as the step relation \<open>sched_step\<close>.
  \<^item> \<open>Protocol_Request\<close> (\<^verbatim>\<open>protocol.py\<close>): parsing and validation of JSON and multipart bodies, masks.
  \<^item> \<open>Sentinel_Pow\<close> (\<^verbatim>\<open>pow.py\<close>): the description of the browser, the requirements token, the proof-of-work search.
  \<^item> \<open>Sentinel_Turnstile\<close> (\<^verbatim>\<open>turnstile.py\<close>): the interpreter of the challenge programs, with a heap for the objects
    they share. \<open>token_body\<close> is the body of the \<^verbatim>\<open>try\<close> block with whatever it raises, \<open>run_token\<close> the block, \<open>run_tokens\<close> the loop.
  \<^item> \<open>Backend_Session\<close> (class \<^verbatim>\<open>WebImageBackend\<close>): the web session, its methods as programs over the record \<open>web\<close>
    (clock, control, sessions, log of the requests sent) and an environment \<open>web_env\<close> that answers them.
  \<^item> \<open>Protocol_Generate\<close> (\<^verbatim>\<open>protocol.py\<close>): \<^verbatim>\<open>generate_with_credential\<close> with its \<^verbatim>\<open>except\<close> and \<^verbatim>\<open>finally\<close> clauses, the collection
    of the workers' results, and \<^verbatim>\<open>handle_images\<close>.
  \<^item> \<open>Main_Rpc\<close> (\<^verbatim>\<open>main.py\<close>): frames on bytes, responses, and the server as the step relation \<open>rpc_step\<close>: the reading
    thread and the workers share the table of active requests.

  \<^bold>\<open>Interfaces.\<close> Four locales state what one part relies on in another: \<open>accumulator\<close> (lists that grow by
  \<^verbatim>\<open>append_unique\<close>), \<open>lock_table\<close> (the credential locks, as the thread schedule uses them), \<open>framing\<close> (a reader that undoes
  a writer of frames), \<open>session_invariant\<close> (what an invariant of a web session has to survive), each interpreted on the
  definitions of the model; the last one twice, for the log of requests and for the control.

  \<^bold>\<open>What is shown.\<close>
  \<^item> Concurrency: in every interleaving two calls never use one credential at once, a credential is never used while
    it cools down, locks are not lost, a call returns within a bounded number of its own steps once its deadline
    has passed, and undisturbed it is the serial search over the rotated credentials (a refinement). A cancellation
    closes every session, a cancel frame reaches the newest unanswered request with its number, and the shutdown
    cancels what is active.
  \<^item> The web session: each request carries its own credential and respects the deadline, the session is closed and
    the conversation hidden in the \<^verbatim>\<open>finally\<close> clause, failures are classified, polling ends.
  \<^item> Round trips: frames, JSON requests, event streams, uploads, challenge programs, tokens; and a request as a whole
    in this theory (\<open>request_is_answered\<close>). The printer of JSON is undone by the decoder on \<open>printable\<close> values, floats
    included whose \<^verbatim>\<open>repr\<close> reads back; \<open>plain\<close> values have no floats and need nothing of the runtime.
  \<^item> Validation and errors: accepted requests are within the documented bounds, and which error a JSON object gets, exactly;
    which exceptions can leave each part; a stream ends at the first event text that reports an invalid credential,
    and error texts alone do; an instruction that raises ends only itself.
  \<^item> Optimised or incremental code against a reference definition: references and conversation ids in document order,
    events one by one against all at once, the least solution of the proof of work.

  \<^bold>\<open>Bounds and fuel.\<close> \<open>jvalue\<close> recurses with fuel \<open>2 * length + 2\<close>, which always suffices (\<open>loads_text_total\<close>). The
  proof-of-work loop counts the 500000 numbers of the code. \<open>poll_loop\<close> is bounded by \<open>poll_rounds\<close>, the seconds of the
  time-out and two more, and \<open>polling_ends\<close> shows that the bound is never what ends it. \<open>read_frames\<close> takes the number of frames;
  the step relations need no bound.

  \<^bold>\<open>Parameters.\<close> What is not under \<^verbatim>\<open>src/\<close> is an argument: the network and the header merging of \<^verbatim>\<open>curl_cffi\<close>
  (\<open>web_env\<close>), Pillow (\<open>pillow\<close>), the \<^verbatim>\<open>email\<close> parser (\<open>mime\<close>), the tokens of an HTML page, the digests and the parts of the
  interpreter that depend on tables or rounding (\<open>runtime\<close>: float arithmetic and printing, Unicode classes, messages of
  built-in exceptions), clocks and random numbers. Where a property needs their documented behaviour it is a hypothesis.

  \<^bold>\<open>Not modelled.\<close> The Go plugin and the scripts and tests; the executor's queue (its workers appear as steps that may
  happen in any order, and \<open>handle_images\<close> takes the order of completion); the recursion limit of the interpreter;
  a \<^verbatim>\<open>timeout_seconds\<close> that is not finite; closing of streamed responses, which has no effect on what the model
  observes; exceptions of the calls that set headers and cookies of an open \<^verbatim>\<open>curl_cffi\<close> session or close it. A write to
  a broken output pipe ends a worker silently and is not distinguished from a response sent.
\<close>

section \<open>A request from the frame to the response\<close>

text \<open>
  A payload that asks for the images of a request: the request printed as JSON and encoded, at least one
  credential, and nothing that overrides the body.
\<close>

definition asks :: "runtime \<Rightarrow> (pystr \<times> json) list \<Rightarrow> image_request \<Rightarrow> json list \<Rightarrow> bytes \<Rightarrow> bool" where
  "asks rt payload r credentials body \<longleftrightarrow>
     utf8_encode (dumps rt compact_format (request_json r)) = Some body \<and>
     dict_get (lit ''body_base64'') payload = JStr (b64encode body) \<and>
     well_formed r (str_or_empty rt (dict_get (lit ''request_path'') payload)) \<and>
     \<not> is_multipart (str_or_empty rt (dict_get (lit ''content_type'') payload)) \<and>
     \<not> truthy (dict_get (lit ''stream'') payload) \<and>
     dict_get (lit ''credentials'') payload = JList credentials \<and> credentials \<noteq> []"

lemma prepare_asked:
  assumes "asks rt payload r credentials body"
  shows "prepare_images rt m payload = Inr (r, credentials)"
proof -
  from assms have e: "utf8_encode (dumps rt compact_format (request_json r)) = Some body" by (simp add: asks_def)
  obtain d where d: "request_json r = JDict d" by (simp add: request_json_def)
  have "body \<noteq> []" by (rule dumps_dict_nonempty [OF e [unfolded d]])
  then have "b64encode body \<noteq> []" using length_b64encode [of body] by (cases body) auto
  then have "payload_body rt payload = Inr body"
    using assms by (simp add: payload_body_def asks_def py_or_def)
  moreover have "parse_image_request rt m body (str_or_empty rt (dict_get (lit ''content_type'') payload)) False
      (str_or_empty rt (dict_get (lit ''request_path'') payload)) = Inr r"
    by (rule json_request_parsed [OF _ _ e]) (use assms in \<open>simp_all add: asks_def\<close>)
  ultimately show ?thesis
    using assms by (cases credentials) (simp_all add: prepare_images_def asks_def py_or_def iter_json_def)
qed

text \<open>What the reader of a response does: the document in the body, and the image of an item.\<close>

definition item_bytes :: "runtime \<Rightarrow> json \<Rightarrow> bytes res" where
  "item_bytes rt item = bindR (as_dict rt item) (\<lambda>d.
     case (map_of d (lit ''url''), map_of d (lit ''b64_json'')) of
       (Some (JStr url), _) \<Rightarrow> protocol_decode_data_url rt url
     | (_, Some (JStr s)) \<Rightarrow> b64decode rt s
     | _ \<Rightarrow> Inl (py_exn rt KeyError []))"

lemma item_bytes_result: "item_bytes rt (result_item r raw_image) = Inr raw_image"
proof -
  have "lit ''data:image/png;base64,'' @ b64encode raw_image = data_url (lit ''image/png'') raw_image"
    by (simp add: data_url_def lit_def)
  then have "protocol_decode_data_url rt (lit ''data:image/png;base64,'' @ b64encode raw_image) = Inr raw_image"
    using decode_data_url_of [of "lit ''image/png''"] by (simp add: lit_def)
  then show ?thesis by (simp add: item_bytes_def result_item_def Let_def jobj_def as_dict_def)
qed

lemma items_decode: "mapR (item_bytes rt) (map (\<lambda>j. result_item r (picture j)) js) = Inr (map picture js)"
  by (induction js) (simp_all add: item_bytes_result)

lemma result_item_plain: "plain (result_item r raw_image)"
  by (simp add: result_item_def Let_def jobj_def)

lemma result_item_text:
  "list_all is_scalar (req_prompt r) \<Longrightarrow> list_all is_scalar (json_text (result_item r raw_image))"
  using b64encode_ascii [of _ raw_image]
  by (auto simp: result_item_def Let_def jobj_def list_all_iff lit_def intro: ascii_scalar)

lemma request_text:
  assumes "utf8_encode (dumps rt compact_format (request_json r)) = Some body" "well_formed r path"
  shows "list_all is_scalar (req_prompt r)"
proof -
  have "list_all is_scalar (json_text (request_json r))"
    using utf8_encode_dumps [OF plain_request_json [OF assms(2)]] assms(1) by blast
  then show ?thesis by (simp add: request_json_def)
qed

text \<open>The document of a response, plain or as the one event of a stream, and how a client reads it from the body.\<close>

definition images_document :: "bool \<Rightarrow> int \<Rightarrow> json list \<Rightarrow> json" where
  "images_document streamed created items =
     (if streamed then jobj
        [(''object'', jlit ''image.generation.result''), (''created'', JInt created), (''model'', jlit ''gpt-image-2''),
         (''index'', JInt 1), (''total'', JInt (int (length items))), (''data'', JList items)]
      else jobj [(''created'', JInt created), (''data'', JList items)])"

definition arrived :: "pystr \<Rightarrow> arrival" where
  "arrived line = \<lparr>at_time = 0, flag = False, raw = RawText line\<rparr>"

definition read_documents :: "runtime \<Rightarrow> bool \<Rightarrow> bytes \<Rightarrow> json list res" where
  "read_documents rt streamed body =
     (if streamed
      then bindR (or_raise rt UnicodeError [] (utf8_decode body)) (\<lambda>t.
        iter_sse_json rt None [] (map arrived (split_on 10 t)))
      else bindR (loads_bytes rt body) (\<lambda>v. Inr [v]))"

lemma images_document_text:
  assumes "list_all plain items" "list_all (\<lambda>v. list_all is_scalar (json_text v)) items" "int_ok created"
    and "int_ok (int (length items))"
  shows "plain (images_document streamed created items)"
    "list_all is_scalar (json_text (images_document streamed created items))"
proof -
  have "list_all is_scalar (text_items items)" using assms(2) by (induction items) simp_all
  then show "list_all is_scalar (json_text (images_document streamed created items))"
    by (simp add: images_document_def jobj_def jlit_def lit_def ascii_scalar)
  show "plain (images_document streamed created items)"
    using assms(1,3,4) small_int_ok [of 1] by (simp add: images_document_def jobj_def jlit_def list_all_iff)
qed

lemma result_item_no_error: "\<not> contains_invalid_token_error rt (result_item r raw_image) False"
  by (simp add: result_item_def Let_def jobj_def event_error_def dict_get_def error_field_names_def py_lower_def
      lower_cp_def lit_def)

lemma images_document_no_error:
  "\<not> contains_invalid_token_error rt (images_document True created (map (\<lambda>j. result_item r (picture j)) js)) False"
proof -
  have "\<not> invalid_token_items rt (map (\<lambda>j. result_item r (picture j)) js) False"
    by (induction js) (simp_all add: result_item_no_error)
  then show ?thesis
    by (simp add: images_document_def jobj_def jlit_def event_error_def dict_get_def error_field_names_def py_lower_def
        lower_cp_def lit_def)
qed

lemma stream_of_one:
  assumes "plain (JDict d)" "utf8_encode (dumps rt compact_format (JDict d)) = Some bs"
    and "\<not> contains_invalid_token_error rt (JDict d) False"
  shows "iter_sse_json rt None [] (map arrived (split_on 10
    (lit ''data: '' @ dumps rt compact_format (JDict d) @ [10, 10] @ lit ''data: [DONE]'' @ [10, 10]))) = Inr [JDict d]"
proof -
  let ?line = "lit ''data: '' @ dumps rt compact_format (JDict d)"
  have "10 \<notin> set (lit ''data: '')" "10 \<notin> set (lit ''data: [DONE]'')" by (simp_all add: lit_def)
  moreover have "10 \<notin> set (dumps rt compact_format (JDict d))" by (rule dumps_line(1) [OF refl assms(1)])
  ultimately have "split_on 10 (?line @ [10, 10] @ lit ''data: [DONE]'' @ [10, 10]) =
      [?line, [], lit ''data: [DONE]'', [], []]"
    using split_on_at [of 10 ?line "10 # lit ''data: [DONE]'' @ [10, 10]"] split_on_at [of 10 "[]" "lit ''data: [DONE]'' @ [10, 10]"]
      split_on_at [of 10 "lit ''data: [DONE]''" "[10]"] by (simp del: dumps.simps)
  then have lines: "split_on 10 (lit ''data: '' @ dumps rt compact_format (JDict d) @ [10, 10] @ lit ''data: [DONE]'' @ [10, 10]) =
      [?line, [], lit ''data: [DONE]'', [], []]" by (simp only: append_assoc)
  have "list_all is_scalar (lit ''data: '')" by (simp add: lit_def ascii_scalar)
  then obtain ds where ds: "data_line rt (JDict d) = Some ds"
    using assms(2) by (auto simp: data_line_def utf8_encode_def simp del: dumps.simps split: if_splits)
  have done_line: "py_lstrip (drop 5 (lit ''data: [DONE]'')) = lit ''[DONE]''" "starts_with (lit ''data:'') (lit ''data: [DONE]'')"
    "sse_event rt [lit ''[DONE]''] = Inr None" "lit ''data: [DONE]'' \<noteq> []"
    by (simp_all add: sse_event_def lit_def starts_with_def py_lstrip_def py_strip_def py_rstrip_if_def is_space_def)
  have "iter_sse_json rt None [] (map arrived [?line, [], lit ''data: [DONE]'', [], []]) = Inr [JDict d]"
    using data_line_text(2-4) [OF ds] sse_event_dumps [OF assms(1), of rt] assms(3) done_line
    by (simp add: arrived_def line_text_def line_check_def del: dumps.simps)
  then show ?thesis by (simp only: lines)
qed

text \<open>The reply around a body.\<close>

definition images_reply :: "bool \<Rightarrow> bytes \<Rightarrow> json" where
  "images_reply streamed body = jobj [(''status_code'', JInt 200),
     (''headers'', jobj [(''Content-Type'', JList [jlit (if streamed then ''text/event-stream'' else ''application/json'')])]),
     (''body_base64'', JStr (b64encode body))]"

lemma images_response_document:
  fixes js :: "nat list" and r :: image_request and picture :: "nat \<Rightarrow> bytes"
  defines "items \<equiv> map (\<lambda>j. result_item r (picture j)) js"
  assumes "plain (images_document streamed created items)"
    and "list_all is_scalar (json_text (images_document streamed created items))"
  obtains body where "images_response rt streamed created items = Inr (images_reply streamed body)"
    "read_documents rt streamed body = Inr [images_document streamed created items]"
proof -
  let ?doc = "images_document streamed created items"
  obtain d where d: "?doc = JDict d" by (cases streamed) (simp_all add: images_document_def jobj_def)
  from utf8_encode_dumps [OF assms(2)] assms(3) obtain bs where
    e: "utf8_encode (dumps rt compact_format ?doc) = Some bs" by blast
  let ?text = "response_text rt streamed created items"
  have t: "?text = (if streamed then lit ''data: '' @ dumps rt compact_format ?doc @ [10, 10] @ lit ''data: [DONE]'' @ [10, 10]
      else dumps rt compact_format ?doc)"
    by (simp add: response_text_def images_document_def)
  have "list_all is_scalar ?text"
    using e by (auto simp: t utf8_encode_def lit_def ascii_scalar simp del: dumps.simps split: if_splits)
  then obtain body where body: "utf8_encode ?text = Some body" by (simp add: utf8_encode_def)
  have "images_response rt streamed created items = Inr (images_reply streamed body)"
    using body by (simp add: images_response_def encode_str_def images_reply_def)
  moreover have "read_documents rt streamed body = Inr [?doc]"
  proof (cases streamed)
    case False
    then have "loads_bytes rt body = Inr ?doc"
      using loads_bytes_dumps [of rt d body] body t d assms(2) by simp
    then show ?thesis using False by (simp add: read_documents_def)
  next
    case True
    then have "\<not> contains_invalid_token_error rt (JDict d) False"
      using images_document_no_error [of rt created r picture js] d by (simp add: items_def)
    then have "iter_sse_json rt None [] (map arrived (split_on 10 (lit ''data: '' @ dumps rt compact_format (JDict d) @
        [10, 10] @ lit ''data: [DONE]'' @ [10, 10]))) = Inr [JDict d]"
      by (intro stream_of_one [OF assms(2) [unfolded d] e [unfolded d]])
    then have "iter_sse_json rt None [] (map arrived (split_on 10 ?text)) = Inr [?doc]"
      using t True d by (simp only: if_True)
    then show ?thesis using True utf8_decode_encode(1) [OF body] by (simp add: read_documents_def)
  qed
  ultimately show ?thesis using that by blast
qed

text \<open>
  C2. A request is answered with its images. If a client sends a well-formed request as JSON, with credentials,
  and every one of its \<^verbatim>\<open>generate_one\<close> calls returns the item of an image, then, in whatever order the workers
  complete, the response carries status 200 and a body from which a client reads, as a document or as the one event of a
  stream, the time of creation and one item for each image asked for, and the items decode, in the order of
  their indices, to exactly the bytes of the images.
\<close>

theorem request_is_answered:
  assumes "dict_get (lit ''method'') request = JStr (lit ''images'')"
    and "dict_get (lit ''payload'') request = JDict payload"
    and "asks rt payload r credentials body"
    and "\<And>j. j < nat (req_n r) \<Longrightarrow> generate r credentials j = Inr (result_item r (picture j))"
    and "mset (completion (nat (req_n r))) = mset [0..<nat (req_n r)]" "int_ok created"
  shows "\<exists>reply_body items.
    process_response (handle_images rt m generate completion created) request i =
      ok_response i (images_reply (req_stream r) reply_body) \<and>
    read_documents rt (req_stream r) reply_body = Inr [images_document (req_stream r) created items] \<and>
    mapR (item_bytes rt) items = Inr (map picture [0..<nat (req_n r)])"
proof -
  let ?n = "nat (req_n r)"
  let ?items = "map (\<lambda>j. result_item r (picture j)) [0..<?n]"
  have none: "List.find (\<lambda>j. isl (generate r credentials j)) (completion ?n) = None"
    using mset_eq_setD [OF assms(5)] assms(4) by (auto simp: find_None_iff)
  have items: "collect_results (generate r credentials) (completion ?n) ?n = Inr ?items"
    using collect_results_eq [OF assms(5), of "generate r credentials"] assms(4) by (simp add: none)
  have "list_all is_scalar (req_prompt r)" using assms(3) request_text by (auto simp: asks_def)
  then have texts: "list_all plain ?items" "list_all (\<lambda>v. list_all is_scalar (json_text v)) ?items"
    by (simp_all add: list_all_iff result_item_plain result_item_text [unfolded list_all_iff])
  have "int_ok (int (length ?items))"
    using assms(3) small_int_ok [of "req_n r"] by (simp add: asks_def well_formed_def)
  from images_response_document [OF images_document_text [OF texts assms(6) this]]
  obtain reply_body where reply: "images_response rt (req_stream r) created ?items = Inr (images_reply (req_stream r) reply_body)"
      "read_documents rt (req_stream r) reply_body = Inr [images_document (req_stream r) created ?items]" by metis
  have "mapR (item_bytes rt) ?items = Inr (map picture [0..<?n])"
    by (rule items_decode)
  moreover have "payload \<noteq> []" using assms(3) by (auto simp: asks_def dict_get_def)
  then have "request_payload request = JDict payload"
    using assms(2) by (simp add: request_payload_def py_or_def)
  then have "process_response (handle_images rt m generate completion created) request i =
      ok_response i (images_reply (req_stream r) reply_body)"
    using assms(1) items reply(1)
    by (simp add: process_response_def handle_images_def as_dict_def prepare_asked [OF assms(3)] Let_def)
  ultimately show ?thesis using reply(2) by blast
qed

definition example_payload :: "(pystr \<times> json) list" where
  "example_payload = [(lit ''body_base64'', JStr (b64encode (to_bytes example_body))),
     (lit ''content_type'', jlit ''application/json''), (lit ''credentials'', JList [JDict []])]"

lemma example_payload_asks: "asks example_runtime example_payload example_request [JDict []] (to_bytes example_body)"
proof -
  have "dumps example_runtime compact_format (request_json example_request) = example_body"
    by (simp add: example_body_def request_json_def example_request_def image_object_def compact_format_def
        quoted_def lit_def escape_cp_def show_int_def show_nat.simps)
  moreover have "utf8_encode example_body = Some (to_bytes example_body)"
    by (rule utf8_encode_ascii) (simp add: example_body_def lit_def)
  moreover have "well_formed example_request []"
    by (simp add: well_formed_def example_request_def edits_path_def lit_def py_strip_def py_lstrip_def
        py_rstrip_if_def is_space_def)
  moreover have "\<not> is_multipart (lit ''application/json'')"
    by (simp add: is_multipart_def starts_with_def lit_def py_lower_def lower_cp_def)
  ultimately show ?thesis
    by (simp add: asks_def example_payload_def dict_get_def jlit_def str_or_empty_def py_or_def)
qed

text \<open>Two images, streamed, the second worker completing first.\<close>

lemma request_is_answered_witness:
  "\<exists>reply_body items.
    process_response (handle_images example_runtime no_mime (\<lambda>r cs j. Inr (result_item r [1, 2])) (\<lambda>n. [1, 0]) 7)
      [(lit ''method'', jlit ''images''), (lit ''payload'', JDict example_payload)] 5 = ok_response 5 (images_reply True reply_body) \<and>
    read_documents example_runtime True reply_body = Inr [images_document True 7 items] \<and>
    mapR (item_bytes example_runtime) items = Inr [[1, 2], [1, 2]]"
proof -
  have n: "nat (req_n example_request) = 2" "req_stream example_request" by (simp_all add: example_request_def)
  have "\<exists>reply_body items.
    process_response (handle_images example_runtime no_mime (\<lambda>r cs j. Inr (result_item r [1, 2])) (\<lambda>n. [1, 0]) 7)
      [(lit ''method'', jlit ''images''), (lit ''payload'', JDict example_payload)] 5 =
        ok_response 5 (images_reply (req_stream example_request) reply_body) \<and>
    read_documents example_runtime (req_stream example_request) reply_body =
      Inr [images_document (req_stream example_request) 7 items] \<and>
    mapR (item_bytes example_runtime) items = Inr (map (\<lambda>j. [1, 2]) [0..<nat (req_n example_request)])"
    by (rule request_is_answered [OF _ _ example_payload_asks])
      (simp_all add: n dict_get_def jlit_def int_ok_def show_nat.simps upt_rec)
  then show ?thesis by (simp add: n upt_rec)
qed

end
